(* ===== verification/Prelude.thy ===== *)
theory Prelude
  imports Main "HOL-Library.Word"
begin

text \<open>
  Shared vocabulary of the P2P chat development: the C types of the program
  (\<open>int\<close> as a 32-bit word read with \<open>sint\<close>, file descriptors, thread ids),
  the first-match scan that every \<open>for (i = 0; i < MAX_CONNECTIONS; i++)\<close>
  loop of \<open>src/connection.c\<close> performs, and the generic lemmas on lists
  and words the component theories share.
\<close>

section \<open>Collections of facts\<close>

named_theorems reg_simps \<open>equations of the registry operations\<close>
named_theorems wf_intros \<open>preservation lemmas of the registry invariant\<close>

section \<open>Machine types\<close>

type_synonym c_int = "32 word"
  \<comment> \<open>a C \<open>int\<close>; \<open>next_connection_id++\<close> wraps in two's complement\<close>
type_synonym fd = int
  \<comment> \<open>\<open>SOCKET\<close> on POSIX is an \<open>int\<close> file descriptor, \<open>-1\<close> is \<open>INVALID_SOCKET\<close>\<close>
type_synonym tid = nat
  \<comment> \<open>an opaque \<open>pthread_t\<close>\<close>

abbreviation INT_MAX :: c_int where
  "INT_MAX \<equiv> 2147483647"

section \<open>Constants of \<open>src/common.h\<close>\<close>

definition MAX_CONNECTIONS :: nat where
  "MAX_CONNECTIONS = 50"

definition BUFFER_SIZE :: nat where
  "BUFFER_SIZE = 1024"

definition MAX_MESSAGE_LENGTH :: nat where
  "MAX_MESSAGE_LENGTH = 100"

definition INET_ADDRSTRLEN :: nat where
  "INET_ADDRSTRLEN = 16"

definition MAX_COMMAND_LENGTH :: nat where
  "MAX_COMMAND_LENGTH = 256"

section \<open>The first-match scan\<close>

text \<open>
  \<open>first_index P xs i\<close> is the loop
  \<open>for (; i < n; i++) if (P(xs[i])) return i; return -1;\<close>
  over the rest \<open>xs\<close> of the array starting at index \<open>i\<close>, with \<open>None\<close> for
  the \<open>-1\<close> that signals that no element matched.
\<close>

fun first_index :: "('a \<Rightarrow> bool) \<Rightarrow> 'a list \<Rightarrow> nat \<Rightarrow> nat option" where
  "first_index P [] i = None"
| "first_index P (x # xs) i = (if P x then Some i else first_index P xs (Suc i))"

section \<open>Words\<close>

lemma sint_INT_MAX [simp]: "sint INT_MAX = 2147483647"
  by simp

text \<open>
  Incrementing a C \<open>int\<close> whose value is below \<open>INT_MAX\<close> does not wrap:
  the signed reading grows by one.
\<close>

lemma sint_succ_no_wrap:
  assumes "0 \<le> sint x" and "x \<noteq> INT_MAX"
  shows "sint (x + 1) = sint x + 1"
proof -
  have lt: "sint x < 2147483647"
  proof -
    have "sint x < 2 ^ 31" using sint_less [of x] by simp
    moreover have "sint x \<noteq> 2147483647"
    proof
      assume "sint x = 2147483647"
      then have "sint x = sint INT_MAX" by simp
      then have "x = INT_MAX" by (rule signed_word_eqI)
      with assms(2) show False by simp
    qed
    ultimately show ?thesis by simp
  qed
  have "sint (x + 1) = signed_take_bit 31 (sint x + 1)"
    by (simp add: sint_word_ariths)
  also have "\<dots> = sint x + 1"
    using assms(1) lt by (simp add: signed_take_bit_int_eq_self_iff)
  finally show ?thesis .
qed

section \<open>Lemmas on the scan\<close>

lemma first_index_Some_bound:
  "first_index P xs i = Some k \<Longrightarrow> i \<le> k \<and> k < i + length xs"
  by (induction xs arbitrary: i) (fastforce split: if_splits)+

lemma first_index_Some_hit:
  "first_index P xs i = Some k \<Longrightarrow> P (xs ! (k - i))"
proof (induction xs arbitrary: i)
  case Nil
  then show ?case by simp
next
  case (Cons x xs)
  show ?case
  proof (cases "P x")
    case True
    with Cons.prems show ?thesis by simp
  next
    case False
    with Cons.prems have rec: "first_index P xs (Suc i) = Some k" by simp
    then have "Suc i \<le> k" using first_index_Some_bound by blast
    with Cons.IH [OF rec] show ?thesis by (simp add: nth_Cons' )
  qed
qed

lemma first_index_Some_first:
  "first_index P xs i = Some k \<Longrightarrow> j < k - i \<Longrightarrow> \<not> P (xs ! j)"
proof (induction xs arbitrary: i j)
  case Nil
  then show ?case by simp
next
  case (Cons x xs)
  show ?case
  proof (cases "P x")
    case True
    with Cons.prems show ?thesis by simp
  next
    case False
    with Cons.prems have rec: "first_index P xs (Suc i) = Some k" by simp
    show ?thesis
    proof (cases j)
      case 0
      with False show ?thesis by simp
    next
      case (Suc j')
      with Cons.prems(2) have "j' < k - Suc i" by simp
      with Cons.IH [OF rec] Suc show ?thesis by simp
    qed
  qed
qed

lemma first_index_None:
  "first_index P xs i = None \<longleftrightarrow> (\<forall>x \<in> set xs. \<not> P x)"
  by (induction xs arbitrary: i) auto

text \<open>The scan from index 0, characterised without recursion: the least matching index.\<close>

lemma first_index_0_Some:
  "first_index P xs 0 = Some k \<longleftrightarrow>
     k < length xs \<and> P (xs ! k) \<and> (\<forall>j < k. \<not> P (xs ! j))"
proof
  assume h: "first_index P xs 0 = Some k"
  show "k < length xs \<and> P (xs ! k) \<and> (\<forall>j < k. \<not> P (xs ! j))"
    using first_index_Some_bound [OF h] first_index_Some_hit [OF h]
      first_index_Some_first [OF h] by simp
next
  assume h: "k < length xs \<and> P (xs ! k) \<and> (\<forall>j < k. \<not> P (xs ! j))"
  show "first_index P xs 0 = Some k"
  proof (cases "first_index P xs 0")
    case None
    with h show ?thesis by (auto simp: first_index_None)
  next
    case (Some k')
    note k' = first_index_Some_bound [OF Some] first_index_Some_hit [OF Some]
      first_index_Some_first [OF Some]
    have "\<not> k < k'" using k' h by force
    moreover have "\<not> k' < k" using k' h by force
    ultimately show ?thesis using Some by simp
  qed
qed

lemma first_index_0_Some_iff_ex:
  "(\<exists>k. first_index P xs 0 = Some k) \<longleftrightarrow> (\<exists>x \<in> set xs. P x)"
  using first_index_None [of P xs 0] by (cases "first_index P xs 0") auto

text \<open>
  An update at index \<open>k\<close> that does not change whether that element matches
  leaves the scan unchanged; an update that makes the only match leads the
  scan to it.
\<close>

lemma first_index_update_same:
  "P (xs ! k) = P y \<Longrightarrow> first_index P (xs[k := y]) i = first_index P xs i"
proof (induction xs arbitrary: i k)
  case Nil
  then show ?case by simp
next
  case (Cons x xs)
  then show ?case by (cases k) auto
qed

lemma first_index_update_only:
  assumes "\<forall>x \<in> set xs. \<not> P x" and "k < length xs" and "P y"
  shows "first_index P (xs[k := y]) 0 = Some k"
proof -
  have "\<forall>j < k. \<not> P (xs[k := y] ! j)"
    using assms(1,2) by (auto simp: nth_list_update)
  with assms(2,3) show ?thesis by (simp add: first_index_0_Some)
qed

lemma first_index_replicate:
  "P x \<Longrightarrow> first_index P (replicate (Suc n) x) i = Some i"
  by simp

section \<open>Lists updated by index\<close>

lemma filter_update_nth_False:
  "i < length xs \<Longrightarrow> P (xs ! i) \<Longrightarrow> \<not> P y \<Longrightarrow>
     length (filter P (xs[i := y])) + 1 = length (filter P xs)"
proof (induction xs arbitrary: i)
  case Nil
  then show ?case by simp
next
  case (Cons x xs)
  then show ?case by (cases i) auto
qed

lemma filter_update_nth_True:
  "i < length xs \<Longrightarrow> \<not> P (xs ! i) \<Longrightarrow> P y \<Longrightarrow>
     length (filter P (xs[i := y])) = length (filter P xs) + 1"
proof (induction xs arbitrary: i)
  case Nil
  then show ?case by simp
next
  case (Cons x xs)
  then show ?case by (cases i) auto
qed

lemma set_filter_deactivate:
  "\<not> P y \<Longrightarrow> set (filter P (xs[i := y])) \<subseteq> set (filter P xs)"
proof (induction xs arbitrary: i)
  case Nil
  then show ?case by simp
next
  case (Cons x xs)
  then show ?case by (cases i) auto
qed

lemma distinct_filter_deactivate:
  "\<not> P y \<Longrightarrow> distinct (map f (filter P xs)) \<Longrightarrow> distinct (map f (filter P (xs[i := y])))"
proof (induction xs arbitrary: i)
  case Nil
  then show ?case by simp
next
  case (Cons x xs)
  show ?case
  proof (cases i)
    case 0
    with Cons.prems show ?thesis by (cases "P x") auto
  next
    case (Suc i')
    have "set (filter P (xs[i' := y])) \<subseteq> set (filter P xs)"
      using Cons.prems(1) by (rule set_filter_deactivate)
    with Cons.prems Cons.IH [of i'] Suc show ?thesis by auto
  qed
qed

lemma distinct_filter_activate:
  "\<not> P (xs ! i) \<Longrightarrow> P y \<Longrightarrow> f y \<notin> f ` set (filter P xs) \<Longrightarrow>
   distinct (map f (filter P xs)) \<Longrightarrow> distinct (map f (filter P (xs[i := y])))"
proof (induction xs arbitrary: i)
  case Nil
  then show ?case by simp
next
  case (Cons x xs)
  show ?case
  proof (cases i)
    case 0
    with Cons.prems show ?thesis by auto
  next
    case (Suc i')
    have sub: "set (filter P (xs[i' := y])) \<subseteq> insert y (set (filter P xs))"
      using set_update_subset_insert [of xs i' y] by auto
    show ?thesis
    proof (cases "P x")
      case True
      have "f x \<noteq> f y" using Cons.prems(3) True by auto
      moreover have "f x \<notin> f ` set (filter P xs)" using Cons.prems(4) True by auto
      ultimately have "f x \<notin> f ` set (filter P (xs[i' := y]))" using sub by blast
      with True Suc Cons.prems Cons.IH [of i'] show ?thesis by auto
    next
      case False
      with Suc Cons.prems Cons.IH [of i'] show ?thesis by auto
    qed
  qed
qed

lemma filter_update_nth_skip:
  "\<not> P (xs ! i) \<Longrightarrow> \<not> P y \<Longrightarrow> filter P (xs[i := y]) = filter P xs"
proof (induction xs arbitrary: i)
  case Nil
  then show ?case by simp
next
  case (Cons x xs)
  then show ?case by (cases i) auto
qed

lemma unat16_bound: "int (unat (pt :: 16 word)) \<le> 65535"
proof -
  have "unat pt < 65536" using unsigned_less [of pt, where ?'a = nat] by simp
  then show ?thesis by linarith
qed

end
