(* ===== verification/Registry.thy ===== *)
theory Registry
  imports Prelude
begin

text \<open>
  The connection registry of \<open>src/connection.c\<close>: the fixed array
  \<open>connections[MAX_CONNECTIONS]\<close> of \<open>Connection\<close> structs, the global
  counter \<open>next_connection_id\<close> of \<open>src/main.c\<close>, and every function that
  runs with \<open>connections_mutex\<close> held. Each function is one atomic step on
  the record \<open>registry\<close>: the mutex makes its body indivisible, so the
  sequential model is exact for each call. The effects a call has on the
  world (\<open>shutdown\<close>, \<open>close\<close>, \<open>pthread_create\<close>, \<open>printf\<close>) are appended to
  the event log \<open>io\<close> in the order the code performs them.
\<close>

section \<open>Data\<close>

text \<open>
  The lines the program prints, one constructor per \<open>printf\<close> of the modelled
  code, with the values it formats.
\<close>

datatype out_line =
    Out_max_connections
  | Out_thread_failed
  | Out_list_header
  | Out_list_entry c_int string int
  | Out_no_active
  | Out_list_footer
  | Out_accept_failed
  | Out_new_connection string int c_int
  | Out_message string int string
  | Out_peer_closed string int c_int
  | Out_connection_lost string int c_int
  | Out_invalid_ip
  | Out_invalid_port
  | Out_self_connect
  | Out_already_connected string int
  | Out_connect_failed string int
  | Out_connected string int c_int
  | Out_not_found c_int
  | Out_terminated c_int
  | Out_too_long
  | Out_send_failed
  | Out_sent c_int
  | Out_shutting_down
  | Out_goodbye
  | Out_help
  | Out_myip string
  | Out_myport int
  | Out_usage_connect
  | Out_usage_terminate
  | Out_usage_send
  | Out_unknown string
  | Out_sigterm
  | Out_socket_failed
  | Out_setsockopt_failed
  | Out_bind_failed int
  | Out_listen_failed
  | Out_listening int
  | Out_usage_main string
  | Out_setup_failed
  | Out_acceptor_failed
  | Out_banner
  | Out_startup string int
  | Out_interrupt
  | Out_use_exit
  | Out_prompt
  | Out_hangup
  | Out_signal int

text \<open>The effects on the world, in program order.\<close>

datatype io_event =
    Shutdown fd
  | Close fd
  | Spawn tid nat   \<comment> \<open>\<open>pthread_create\<close> of a receiver for a slot\<close>
  | Send fd string
  | Print out_line

text \<open>\<open>Connection\<close> of \<open>src/connection.h\<close>; the field \<open>id\<close> is \<open>cid\<close>.\<close>

record connection =
  cid :: c_int
  socket :: fd
  ip :: string
  port :: int
  thread :: tid
  active :: bool

record registry =
  connections :: "connection list"
  next_connection_id :: c_int
  io :: "io_event list"

section \<open>Operations\<close>

definition empty_connection :: connection where
  "empty_connection =
     \<lparr>cid = 0, socket = 0, ip = [], port = 0, thread = 0, active = False\<rparr>"

text \<open>
  \<open>init_connections\<close> zeroes the array; the counter starts at 1 (its
  initialiser in \<open>src/main.c\<close>).
\<close>

definition init_connections :: registry where
  "init_connections =
     \<lparr>connections = replicate MAX_CONNECTIONS empty_connection,
      next_connection_id = 1, io = []\<rparr>"

definition emit :: "registry \<Rightarrow> io_event list \<Rightarrow> registry" where
  "emit r es = r\<lparr>io := io r @ es\<rparr>"

text \<open>
  \<open>add_connection sock ip port\<close>: the first inactive slot receives the next
  id, the socket and the endpoint, and a receiver thread is started for the
  slot. The outcome of \<open>pthread_create\<close> and the thread id it writes are
  inputs (\<open>created\<close>, \<open>t\<close>). On failure the slot is deactivated again, but
  the counter has already been incremented. The result is the C return value:
  the new id, or \<open>-1\<close>.
\<close>

definition add_connection ::
  "registry \<Rightarrow> fd \<Rightarrow> string \<Rightarrow> int \<Rightarrow> bool \<Rightarrow> tid \<Rightarrow> c_int \<times> registry" where
  "add_connection r sock ip' port' created t =
     (case first_index (\<lambda>c. \<not> active c) (connections r) 0 of
        None \<Rightarrow> (-1, emit r [Print Out_max_connections])
      | Some slot \<Rightarrow>
          (let new_id = next_connection_id r;
               c = \<lparr>cid = new_id, socket = sock, ip = ip', port = port',
                    thread = t, active = True\<rparr>;
               r1 = r\<lparr>connections := (connections r)[slot := c],
                      next_connection_id := new_id + 1\<rparr>
           in if created then (new_id, emit r1 [Spawn t slot])
              else (-1, emit (r1\<lparr>connections := (connections r)[slot := c\<lparr>active := False\<rparr>]\<rparr>)
                              [Print Out_thread_failed])))"

text \<open>
  The search that \<open>remove_connection\<close>, \<open>close_connection\<close>,
  \<open>find_connection_by_id\<close> and \<open>get_connection_by_id\<close> share: the first
  active slot carrying the id.
\<close>

definition find_connection_by_id :: "registry \<Rightarrow> c_int \<Rightarrow> nat option" where
  "find_connection_by_id r conn_id =
     first_index (\<lambda>c. active c \<and> cid c = conn_id) (connections r) 0"

text \<open>
  \<open>get_connection_by_id\<close> returns a pointer into the array; the model returns
  the slot the pointer designates. The caller dereferences it after the mutex
  is released (see the command layer).
\<close>

definition get_connection_by_id :: "registry \<Rightarrow> c_int \<Rightarrow> nat option" where
  "get_connection_by_id r conn_id =
     first_index (\<lambda>c. active c \<and> cid c = conn_id) (connections r) 0"

definition find_connection_by_address :: "registry \<Rightarrow> string \<Rightarrow> int \<Rightarrow> nat option" where
  "find_connection_by_address r ip' port' =
     first_index (\<lambda>c. active c \<and> ip c = ip' \<and> port c = port') (connections r) 0"

definition remove_connection :: "registry \<Rightarrow> c_int \<Rightarrow> registry" where
  "remove_connection r conn_id =
     (case first_index (\<lambda>c. active c \<and> cid c = conn_id) (connections r) 0 of
        None \<Rightarrow> r
      | Some i \<Rightarrow>
          (let c = connections r ! i
           in emit (r\<lparr>connections := (connections r)[i := c\<lparr>active := False\<rparr>]\<rparr>)
                   [Close (socket c)]))"

definition close_connection :: "registry \<Rightarrow> c_int \<Rightarrow> registry" where
  "close_connection r conn_id =
     (case first_index (\<lambda>c. active c \<and> cid c = conn_id) (connections r) 0 of
        None \<Rightarrow> r
      | Some i \<Rightarrow>
          (let c = connections r ! i
           in emit (r\<lparr>connections := (connections r)[i := c\<lparr>active := False\<rparr>]\<rparr>)
                   [Shutdown (socket c), Close (socket c)]))"

text \<open>The loop of \<open>close_all_connections\<close>, slot by slot.\<close>

fun close_all_loop :: "connection list \<Rightarrow> connection list \<times> io_event list" where
  "close_all_loop [] = ([], [])"
| "close_all_loop (c # cs) =
     (let (cs', es) = close_all_loop cs
      in if active c
         then (c\<lparr>active := False\<rparr> # cs', Shutdown (socket c) # Close (socket c) # es)
         else (c # cs', es))"

definition close_all_connections :: "registry \<Rightarrow> registry" where
  "close_all_connections r =
     (case close_all_loop (connections r) of
        (cs, es) \<Rightarrow> emit (r\<lparr>connections := cs\<rparr>) es)"

definition get_active_connection_count :: "registry \<Rightarrow> nat" where
  "get_active_connection_count r = length (filter active (connections r))"

text \<open>The rows \<open>print_connection_list\<close> prints, in slot order.\<close>

definition listing :: "registry \<Rightarrow> (c_int \<times> string \<times> int) list" where
  "listing r = map (\<lambda>c. (cid c, ip c, port c)) (filter active (connections r))"

definition print_connection_list :: "registry \<Rightarrow> registry" where
  "print_connection_list r =
     emit r (Print Out_list_header #
             map (\<lambda>(i, a, p). Print (Out_list_entry i a p)) (listing r) @
             (if listing r = [] then [Print Out_no_active] else []) @
             [Print Out_list_footer])"

section \<open>Abstraction and invariant\<close>

text \<open>
  The abstract registry of the specification is a finite map from link id to
  endpoint. \<open>endpoint_of\<close> reads it off the array the way the code's
  lookups do: the endpoint of the first active slot carrying the id.
\<close>

definition endpoint_of :: "connection list \<Rightarrow> c_int \<Rightarrow> (string \<times> int) option" where
  "endpoint_of cs k =
     map_option (\<lambda>i. (ip (cs ! i), port (cs ! i)))
       (first_index (\<lambda>c. active c \<and> cid c = k) cs 0)"

definition abs_registry :: "registry \<Rightarrow> c_int \<rightharpoonup> (string \<times> int)" where
  "abs_registry r = endpoint_of (connections r)"

definition wf_registry :: "registry \<Rightarrow> bool" where
  "wf_registry r \<longleftrightarrow>
     length (connections r) = MAX_CONNECTIONS \<and>
     0 < sint (next_connection_id r) \<and>
     (\<forall>c \<in> set (connections r).
        0 \<le> sint (cid c) \<and> sint (cid c) < sint (next_connection_id r) \<and>
        (active c \<longrightarrow> 0 < sint (cid c))) \<and>
     distinct (map cid (filter active (connections r)))"

section \<open>Serialised histories of registry calls\<close>

text \<open>
  Every registry function holds \<open>connections_mutex\<close> for its whole body, so
  any concurrent execution of the threads performs the registry calls one
  after the other. A history is a list of calls; \<open>reg_run\<close> collects the ids
  that \<open>add_connection\<close> returns and that its callers accept (\<open>!= -1\<close>).
\<close>

datatype reg_op =
    Op_add fd string int bool tid
  | Op_remove c_int
  | Op_close c_int
  | Op_close_all

fun reg_step :: "registry \<Rightarrow> reg_op \<Rightarrow> c_int option \<times> registry" where
  "reg_step r (Op_add sock a p created t) =
     (case add_connection r sock a p created t of
        (res, r') \<Rightarrow> (if res = -1 then None else Some res, r'))"
| "reg_step r (Op_remove k) = (None, remove_connection r k)"
| "reg_step r (Op_close k) = (None, close_connection r k)"
| "reg_step r Op_close_all = (None, close_all_connections r)"

fun reg_run :: "registry \<Rightarrow> reg_op list \<Rightarrow> c_int list \<times> registry" where
  "reg_run r [] = ([], r)"
| "reg_run r (op # ops) =
     (case reg_step r op of
        (res, r') \<Rightarrow>
          (case reg_run r' ops of
             (ids, r'') \<Rightarrow> (case res of None \<Rightarrow> ids | Some k \<Rightarrow> k # ids, r'')))"

section \<open>Lemmas\<close>

lemma endpoint_of_update_other:
  assumes "\<not> (active (cs ! i) \<and> cid (cs ! i) = k)" and "\<not> (active y \<and> cid y = k)"
  shows "endpoint_of (cs[i := y]) k = endpoint_of cs k"
proof -
  have same: "(active (cs ! i) \<and> cid (cs ! i) = k) = (active y \<and> cid y = k)"
    using assms by blast
  note eq = first_index_update_same [where P = "\<lambda>c. active c \<and> cid c = k", OF same]
  show ?thesis
  proof (cases "first_index (\<lambda>c. active c \<and> cid c = k) cs 0")
    case None
    then show ?thesis by (simp add: endpoint_of_def eq)
  next
    case (Some j)
    have "active (cs ! j) \<and> cid (cs ! j) = k" using first_index_Some_hit [OF Some] by simp
    with assms(1) have "j \<noteq> i" by blast
    with Some show ?thesis by (simp add: endpoint_of_def eq)
  qed
qed

lemma endpoint_of_None:
  "endpoint_of cs k = None \<longleftrightarrow> (\<forall>c \<in> set cs. \<not> (active c \<and> cid c = k))"
  by (simp add: endpoint_of_def first_index_None)

lemma endpoint_of_update_only:
  assumes "\<forall>c \<in> set cs. \<not> (active c \<and> cid c = cid y)" and "i < length cs" and "active y"
  shows "endpoint_of (cs[i := y]) (cid y) = Some (ip y, port y)"
  using first_index_update_only [where P = "\<lambda>c. active c \<and> cid c = cid y", OF assms(1,2)] assms(2,3)
  by (simp add: endpoint_of_def)

lemma active_cid_unique:
  "distinct (map cid (filter active cs)) \<Longrightarrow> i < length cs \<Longrightarrow> j < length cs \<Longrightarrow>
   active (cs ! i) \<Longrightarrow> active (cs ! j) \<Longrightarrow> cid (cs ! i) = cid (cs ! j) \<Longrightarrow> i = j"
proof (induction cs arbitrary: i j)
  case Nil
  then show ?case by simp
next
  case (Cons x xs)
  have other: "False" if "active x" "n < length xs" "active (xs ! n)" "cid (xs ! n) = cid x" for n
  proof -
    have "xs ! n \<in> set (filter active xs)" using that by simp
    then have "cid (xs ! n) \<in> set (map cid (filter active xs))" unfolding set_map by (rule imageI)
    then have "cid x \<in> set (map cid (filter active xs))" using that(4) by simp
    with Cons.prems(1) that(1) show False by simp
  qed
  show ?case
  proof (cases i)
    case 0
    then show ?thesis using Cons.prems other by (cases j) auto
  next
    case (Suc i')
    show ?thesis
    proof (cases j)
      case 0
      then show ?thesis using Cons.prems Suc other [of i'] by auto
    next
      case (Suc j')
      with \<open>i = Suc i'\<close> Cons.prems Cons.IH [of i' j'] show ?thesis
        by (auto split: if_splits)
    qed
  qed
qed

lemma deactivate_inactive [simp]: "\<not> active c \<Longrightarrow> c\<lparr>active := False\<rparr> = c"
  by (cases c) simp

lemma close_all_loop_eq:
  "close_all_loop cs =
     (map (\<lambda>c. c\<lparr>active := False\<rparr>) cs,
      concat (map (\<lambda>c. [Shutdown (socket c), Close (socket c)]) (filter active cs)))"
  by (induction cs) auto

lemma emit_simps [simp, reg_simps]:
  "connections (emit r es) = connections r"
  "next_connection_id (emit r es) = next_connection_id r"
  "io (emit r es) = io r @ es"
  by (simp_all add: emit_def)

lemma wf_init [wf_intros]: "wf_registry init_connections"
  by (simp add: wf_registry_def init_connections_def empty_connection_def)

lemma free_slot_None_iff:
  "first_index (\<lambda>c. \<not> active c) (connections r) 0 = None \<longleftrightarrow>
   get_active_connection_count r = length (connections r)"
proof -
  have "length (filter active (connections r)) = length (connections r) \<longleftrightarrow>
        (\<forall>c \<in> set (connections r). active c)"
    by (metis filter_True length_filter_less less_irrefl)
  then show ?thesis
    by (simp add: first_index_None get_active_connection_count_def)
qed

lemma wf_fresh_id:
  "wf_registry r \<Longrightarrow> c \<in> set (connections r) \<Longrightarrow> cid c \<noteq> next_connection_id r"
  by (auto simp: wf_registry_def)

text \<open>The effect of the successful branch of \<open>add_connection\<close>, spelled out once.\<close>

lemma add_connection_slot:
  assumes "first_index (\<lambda>c. \<not> active c) (connections r) 0 = Some slot"
  shows "add_connection r sock a p created t =
           (if created
            then (next_connection_id r,
                  emit (r\<lparr>connections := (connections r)[slot :=
                             \<lparr>cid = next_connection_id r, socket = sock, ip = a, port = p,
                              thread = t, active = True\<rparr>],
                          next_connection_id := next_connection_id r + 1\<rparr>) [Spawn t slot])
            else (-1,
                  emit (r\<lparr>connections := (connections r)[slot :=
                             \<lparr>cid = next_connection_id r, socket = sock, ip = a, port = p,
                              thread = t, active = False\<rparr>],
                          next_connection_id := next_connection_id r + 1\<rparr>)
                       [Print Out_thread_failed]))"
  using assms by (simp add: add_connection_def Let_def)

lemma add_connection_full:
  "first_index (\<lambda>c. \<not> active c) (connections r) 0 = None \<Longrightarrow>
   add_connection r sock a p created t = (-1, emit r [Print Out_max_connections])"
  by (simp add: add_connection_def)

lemma wf_add_connection [wf_intros]:
  assumes wf: "wf_registry r" and nowrap: "next_connection_id r \<noteq> INT_MAX"
  shows "wf_registry (snd (add_connection r sock a p created t))"
proof (cases "first_index (\<lambda>c. \<not> active c) (connections r) 0")
  case None
  with wf show ?thesis by (simp add: add_connection_full wf_registry_def emit_def)
next
  case (Some slot)
  let ?cs = "connections r" and ?n = "next_connection_id r"
  let ?new = "\<lparr>cid = ?n, socket = sock, ip = a, port = p, thread = t, active = True\<rparr>"
  have slot: "slot < length ?cs" "\<not> active (?cs ! slot)"
    using first_index_Some_bound [OF Some] first_index_Some_hit [OF Some] by auto
  have succ: "sint (?n + 1) = sint ?n + 1"
    using wf nowrap by (intro sint_succ_no_wrap) (auto simp: wf_registry_def)
  have bounds: "\<forall>c \<in> set (?cs[slot := y]).
        0 \<le> sint (cid c) \<and> sint (cid c) < sint (?n + 1) \<and> (active c \<longrightarrow> 0 < sint (cid c))"
    if "cid y = ?n" for y :: connection
    using wf that succ set_update_subset_insert [of ?cs slot y]
    by (fastforce simp: wf_registry_def)
  have fresh: "?n \<notin> cid ` set (filter active ?cs)"
    using wf_fresh_id [OF wf] by fastforce
  have d1: "distinct (map cid (filter active (?cs[slot := ?new])))"
    using distinct_filter_activate [of active ?cs slot ?new cid] slot fresh wf
    by (simp add: wf_registry_def)
  have d2: "distinct (map cid (filter active (?cs[slot := ?new\<lparr>active := False\<rparr>])))"
    using distinct_filter_deactivate [of active "?new\<lparr>active := False\<rparr>" cid ?cs slot] wf
    by (simp add: wf_registry_def)
  show ?thesis
    using wf succ bounds [of ?new] bounds [of "?new\<lparr>active := False\<rparr>"] d1 d2
    by (simp add: add_connection_slot [OF Some] wf_registry_def)
qed


text \<open>Deactivating one slot, as \<open>remove_connection\<close> and \<open>close_connection\<close> do.\<close>

lemma wf_deactivate:
  assumes wf: "wf_registry r" and i: "i < length (connections r)"
  shows "wf_registry (r\<lparr>connections := (connections r)[i := (connections r ! i)\<lparr>active := False\<rparr>]\<rparr>)"
proof -
  let ?cs = "connections r"
  have "?cs ! i \<in> set ?cs" using i by simp
  then have "\<forall>c \<in> set (?cs[i := (?cs ! i)\<lparr>active := False\<rparr>]).
        0 \<le> sint (cid c) \<and> sint (cid c) < sint (next_connection_id r) \<and> (active c \<longrightarrow> 0 < sint (cid c))"
    using wf set_update_subset_insert [of ?cs i "(?cs ! i)\<lparr>active := False\<rparr>"]
    by (fastforce simp: wf_registry_def)
  moreover have "distinct (map cid (filter active (?cs[i := (?cs ! i)\<lparr>active := False\<rparr>])))"
    using wf distinct_filter_deactivate [of active "(?cs ! i)\<lparr>active := False\<rparr>" cid ?cs i]
    by (simp add: wf_registry_def)
  ultimately show ?thesis using wf by (simp add: wf_registry_def)
qed

lemma wf_emit [simp]: "wf_registry (emit r es) = wf_registry r"
  by (simp add: wf_registry_def)

lemma wf_remove_connection [wf_intros]: "wf_registry r \<Longrightarrow> wf_registry (remove_connection r k)"
proof (cases "first_index (\<lambda>c. active c \<and> cid c = k) (connections r) 0")
  case (Some i)
  then have "i < length (connections r)" using first_index_Some_bound by fastforce
  moreover assume "wf_registry r"
  ultimately show ?thesis using Some wf_deactivate by (simp add: remove_connection_def Let_def)
qed (simp add: remove_connection_def)

lemma wf_close_connection [wf_intros]: "wf_registry r \<Longrightarrow> wf_registry (close_connection r k)"
proof (cases "first_index (\<lambda>c. active c \<and> cid c = k) (connections r) 0")
  case (Some i)
  then have "i < length (connections r)" using first_index_Some_bound by fastforce
  moreover assume "wf_registry r"
  ultimately show ?thesis using Some wf_deactivate by (simp add: close_connection_def Let_def)
qed (simp add: close_connection_def)

lemma wf_close_all_connections [wf_intros]: "wf_registry r \<Longrightarrow> wf_registry (close_all_connections r)"
  by (auto simp: close_all_connections_def close_all_loop_eq wf_registry_def filter_map o_def)



lemma endpoint_of_deactivate_hit:
  assumes d: "distinct (map cid (filter active cs))"
    and hit: "first_index (\<lambda>c. active c \<and> cid c = k) cs 0 = Some i"
  shows "endpoint_of (cs[i := (cs ! i)\<lparr>active := False\<rparr>]) = (endpoint_of cs)(k := None)"
proof
  fix k'
  have i: "i < length cs" "active (cs ! i)" "cid (cs ! i) = k"
    using first_index_Some_bound [OF hit] first_index_Some_hit [OF hit] by auto
  show "endpoint_of (cs[i := (cs ! i)\<lparr>active := False\<rparr>]) k' = ((endpoint_of cs)(k := None)) k'"
  proof (cases "k' = k")
    case True
    have "\<not> (active c \<and> cid c = k)" if "c \<in> set (cs[i := (cs ! i)\<lparr>active := False\<rparr>])" for c
    proof
      assume c: "active c \<and> cid c = k"
      from that obtain j where j: "j < length cs" "c = cs[i := (cs ! i)\<lparr>active := False\<rparr>] ! j"
        by (auto simp: in_set_conv_nth)
      with c have "j \<noteq> i" by auto
      with j c have "active (cs ! j)" "cid (cs ! j) = cid (cs ! i)" using i by auto
      with active_cid_unique [OF d i(1) j(1) i(2)] \<open>j \<noteq> i\<close> show False by simp
    qed
    with True show ?thesis by (simp add: endpoint_of_None)
  next
    case False
    with i show ?thesis by (simp add: endpoint_of_update_other)
  qed
qed

lemma abs_registry_remove:
  "wf_registry r \<Longrightarrow>
   abs_registry (remove_connection r k) = (abs_registry r)(k := None)"
proof (cases "first_index (\<lambda>c. active c \<and> cid c = k) (connections r) 0")
  case None
  then have "abs_registry r k = None" by (simp add: abs_registry_def endpoint_of_def)
  with None show ?thesis by (simp add: remove_connection_def fun_upd_idem)
next
  case (Some i)
  assume "wf_registry r"
  then have "distinct (map cid (filter active (connections r)))" by (simp add: wf_registry_def)
  from endpoint_of_deactivate_hit [OF this Some] Some show ?thesis
    by (simp add: remove_connection_def abs_registry_def Let_def)
qed

lemma abs_registry_close:
  "wf_registry r \<Longrightarrow>
   abs_registry (close_connection r k) = (abs_registry r)(k := None)"
proof (cases "first_index (\<lambda>c. active c \<and> cid c = k) (connections r) 0")
  case None
  then have "abs_registry r k = None" by (simp add: abs_registry_def endpoint_of_def)
  with None show ?thesis by (simp add: close_connection_def fun_upd_idem)
next
  case (Some i)
  assume "wf_registry r"
  then have "distinct (map cid (filter active (connections r)))" by (simp add: wf_registry_def)
  from endpoint_of_deactivate_hit [OF this Some] Some show ?thesis
    by (simp add: close_connection_def abs_registry_def Let_def)
qed

lemma abs_registry_find:
  "abs_registry r k = None \<longleftrightarrow> find_connection_by_id r k = None"
  by (simp add: abs_registry_def endpoint_of_def find_connection_by_id_def)

lemma abs_registry_close_all: "abs_registry (close_all_connections r) = Map.empty"
  by (simp add: abs_registry_def close_all_connections_def close_all_loop_eq
      endpoint_of_None fun_eq_iff)

lemma abs_registry_add:
  assumes wf: "wf_registry r"
    and slot: "first_index (\<lambda>c. \<not> active c) (connections r) 0 = Some s"
  shows "abs_registry (snd (add_connection r sock a p True t)) =
           (abs_registry r)(next_connection_id r \<mapsto> (a, p))"
proof
  fix k
  let ?cs = "connections r" and ?n = "next_connection_id r"
  let ?new = "\<lparr>cid = ?n, socket = sock, ip = a, port = p, thread = t, active = True\<rparr>"
  have s: "s < length ?cs" "\<not> active (?cs ! s)"
    using first_index_Some_bound [OF slot] first_index_Some_hit [OF slot] by auto
  have "\<forall>c \<in> set ?cs. \<not> (active c \<and> cid c = cid ?new)"
    using wf_fresh_id [OF wf] by auto
  from endpoint_of_update_only [OF this s(1)]
  have hit: "endpoint_of (?cs[s := ?new]) ?n = Some (a, p)" by simp
  show "abs_registry (snd (add_connection r sock a p True t)) k =
          ((abs_registry r)(?n \<mapsto> (a, p))) k"
    using hit s endpoint_of_update_other [of ?cs s k ?new]
    by (cases "k = ?n") (simp_all add: add_connection_slot [OF slot] abs_registry_def)
qed

lemma add_connection_counter:
  assumes "wf_registry r"
  shows "(fst (add_connection r sock a p created t) = -1 \<and>
          next_connection_id (snd (add_connection r sock a p created t)) \<in>
            {next_connection_id r, next_connection_id r + 1}) \<or>
         (fst (add_connection r sock a p created t) = next_connection_id r \<and>
          next_connection_id (snd (add_connection r sock a p created t)) = next_connection_id r + 1)"
  by (cases "first_index (\<lambda>c. \<not> active c) (connections r) 0")
     (simp_all add: add_connection_full add_connection_slot)

lemma wf_next_not_minus_one: "wf_registry r \<Longrightarrow> next_connection_id r \<noteq> -1"
  by (auto simp: wf_registry_def)

lemma reg_step_add_snd:
  "snd (reg_step r (Op_add sock a p created t)) = snd (add_connection r sock a p created t)"
  by (simp split: prod.split)

lemma reg_run_Cons_fst:
  "reg_step r op = (res, r') \<Longrightarrow>
   fst (reg_run r (op # ops)) =
     (case res of None \<Rightarrow> fst (reg_run r' ops) | Some k \<Rightarrow> k # fst (reg_run r' ops))"
  by (cases "reg_run r' ops") (simp split: option.split)

lemma reg_step_wf:
  assumes "wf_registry r" and "next_connection_id r \<noteq> INT_MAX"
  shows "wf_registry (snd (reg_step r op))"
proof (cases op)
  case (Op_add sock a p created t)
  then show ?thesis using wf_add_connection [OF assms] reg_step_add_snd by metis
qed (use assms(1) in \<open>simp_all add: wf_remove_connection wf_close_connection
       wf_close_all_connections\<close>)

lemma reg_step_counter:
  assumes wf: "wf_registry r" and nowrap: "next_connection_id r \<noteq> INT_MAX"
    and step: "reg_step r op = (res, r')"
  shows "sint (next_connection_id r) \<le> sint (next_connection_id r') \<and>
         sint (next_connection_id r') \<le> sint (next_connection_id r) + 1 \<and>
         (\<forall>k. res = Some k \<longrightarrow> k = next_connection_id r \<and>
                 sint (next_connection_id r') = sint (next_connection_id r) + 1)"
proof -
  have succ: "sint (next_connection_id r + 1) = sint (next_connection_id r) + 1"
    using wf nowrap by (intro sint_succ_no_wrap) (auto simp: wf_registry_def)
  show ?thesis
  proof (cases op)
    case (Op_add sock a p created t)
    with step have r': "r' = snd (add_connection r sock a p created t)"
      and res: "res = (if fst (add_connection r sock a p created t) = -1 then None
                       else Some (fst (add_connection r sock a p created t)))"
      by (auto split: prod.splits)
    from add_connection_counter [OF wf, of sock a p created t] wf_next_not_minus_one [OF wf]
    show ?thesis using r' res succ by (auto split: if_splits)
  qed (use step in \<open>auto simp: remove_connection_def close_connection_def
          close_all_connections_def Let_def split: option.splits prod.splits\<close>)
qed

lemma remove_connection_absent:
  "find_connection_by_id r k = None \<Longrightarrow> remove_connection r k = r"
  by (simp add: remove_connection_def find_connection_by_id_def)

lemma close_connection_absent:
  "find_connection_by_id r k = None \<Longrightarrow> close_connection r k = r"
  by (simp add: close_connection_def find_connection_by_id_def)

lemma find_after_remove:
  "wf_registry r \<Longrightarrow> find_connection_by_id (remove_connection r k) k = None"
  by (simp add: abs_registry_remove flip: abs_registry_find)

lemma find_after_close:
  "wf_registry r \<Longrightarrow> find_connection_by_id (close_connection r k) k = None"
  by (simp add: abs_registry_close flip: abs_registry_find)

lemma free_slot_exists:
  assumes "wf_registry r" and "get_active_connection_count r < MAX_CONNECTIONS"
  obtains s where "first_index (\<lambda>c. \<not> active c) (connections r) 0 = Some s"
    and "s < length (connections r)" and "\<not> active (connections r ! s)"
proof -
  from assms have "first_index (\<lambda>c. \<not> active c) (connections r) 0 \<noteq> None"
    by (simp add: free_slot_None_iff wf_registry_def)
  then obtain s where s: "first_index (\<lambda>c. \<not> active c) (connections r) 0 = Some s" by blast
  show ?thesis
    using that [OF s] first_index_Some_bound [OF s] first_index_Some_hit [OF s] by simp
qed

lemma reg_run_Cons_snd:
  "reg_step r op = (res, r') \<Longrightarrow> snd (reg_run r (op # ops)) = snd (reg_run r' ops)"
  by (cases "reg_run r' ops") simp

lemma first_index_Suc:
  "first_index P xs (Suc i) = map_option Suc (first_index P xs i)"
  by (induction xs arbitrary: i) auto

text \<open>The rows of the listing, read as a map, are the abstract registry.\<close>

lemma map_of_listing_rows:
  "map_of (map (\<lambda>c. (cid c, ip c, port c)) (filter active cs)) = endpoint_of cs"
proof
  fix k
  show "map_of (map (\<lambda>c. (cid c, ip c, port c)) (filter active cs)) k = endpoint_of cs k"
    by (induction cs) (auto simp: endpoint_of_def first_index_Suc option.map_comp o_def)
qed

lemma listing_abs: "map_of (listing r) = abs_registry r"
  by (simp add: listing_def abs_registry_def map_of_listing_rows)

lemma distinct_listing: "wf_registry r \<Longrightarrow> distinct (map fst (listing r))"
  by (simp add: listing_def wf_registry_def o_def)

section \<open>Properties\<close>

text \<open>
  C1. Link ids are never reused (spec invariant I3): along any serialised
  history of registry calls from a well-formed registry, the ids that
  \<open>add_connection\<close> hands out are strictly increasing and not below the
  counter's starting value, as long as the 32-bit counter does not reach
  \<open>INT_MAX\<close>.
\<close>

theorem run_ids_increasing:
  assumes "wf_registry r"
    and "sint (next_connection_id r) + int (length ops) < 2147483647"
  shows "sorted_wrt (\<lambda>a b. sint a < sint b) (fst (reg_run r ops)) \<and>
         (\<forall>k \<in> set (fst (reg_run r ops)). sint (next_connection_id r) \<le> sint k)"
  using assms
proof (induction ops arbitrary: r)
  case Nil
  then show ?case by simp
next
  case (Cons op ops)
  obtain res r' where step: "reg_step r op = (res, r')" by fastforce
  have nowrap: "next_connection_id r \<noteq> INT_MAX" using Cons.prems(2) by auto
  note cnt = reg_step_counter [OF Cons.prems(1) nowrap step]
  have wf': "wf_registry r'" using reg_step_wf [OF Cons.prems(1) nowrap, of op] step by simp
  have "sint (next_connection_id r') + int (length ops) < 2147483647"
    using Cons.prems(2) cnt by simp
  note IH = Cons.IH [OF wf' this]
  note run = reg_run_Cons_fst [OF step, of ops]
  show ?case
  proof (cases res)
    case None
    with run IH cnt show ?thesis by auto
  next
    case (Some k)
    with cnt have "k = next_connection_id r"
      and "sint (next_connection_id r') = sint (next_connection_id r) + 1" by auto
    with run Some IH show ?thesis by fastforce
  qed
qed


theorem run_ids_increasing_witness:
  "fst (reg_run init_connections
          [Op_add 3 ''10.0.0.1'' 5000 True 1, Op_add 4 ''10.0.0.2'' 5000 True 2,
           Op_remove 1, Op_add 5 ''10.0.0.3'' 5000 True 3]) = [1, 2, 3] \<and>
   sorted_wrt (\<lambda>a b. sint a < sint b) ([1, 2, 3] :: c_int list)"
proof -
  let ?ops = "[Op_add 3 ''10.0.0.1'' 5000 True 1, Op_add 4 ''10.0.0.2'' 5000 True 2,
               Op_remove 1, Op_add 5 ''10.0.0.3'' 5000 True 3]"
  have run: "fst (reg_run init_connections ?ops) = [1, 2, 3]" by code_simp
  have "sint (next_connection_id init_connections) + int (length ?ops) < 2147483647"
    by (simp add: init_connections_def)
  from run_ids_increasing [OF wf_init this] run show ?thesis by simp
qed

text \<open>
  C2. The registry invariant (table of \<open>MAX_CONNECTIONS\<close> slots, every id
  issued below the counter, active ids positive and pairwise distinct) holds
  after any serialised history of registry calls that does not drive the
  counter to \<open>INT_MAX\<close>.
\<close>

theorem registry_invariant_run:
  "wf_registry r \<Longrightarrow> sint (next_connection_id r) + int (length ops) < 2147483647 \<Longrightarrow>
   wf_registry (snd (reg_run r ops))"
proof (induction ops arbitrary: r)
  case Nil
  then show ?case by simp
next
  case (Cons op ops)
  obtain res r' where step: "reg_step r op = (res, r')" by fastforce
  have nowrap: "next_connection_id r \<noteq> INT_MAX" using Cons.prems(2) by auto
  have wf': "wf_registry r'" using reg_step_wf [OF Cons.prems(1) nowrap, of op] step by simp
  have "sint (next_connection_id r') + int (length ops) < 2147483647"
    using Cons.prems(2) reg_step_counter [OF Cons.prems(1) nowrap step] by simp
  with Cons.IH [OF wf'] reg_run_Cons_snd [OF step] show ?case by simp
qed

theorem registry_invariant_run_witness:
  "wf_registry (snd (reg_run init_connections
     [Op_add 3 ''10.0.0.1'' 5000 True 1, Op_add 4 ''10.0.0.2'' 5000 False 2, Op_close 1]))"
  by (rule registry_invariant_run [OF wf_init]) (simp add: init_connections_def)

text \<open>
  C3. A successful \<open>add_connection\<close> implements the abstract insert: when a
  slot is free and the receiver thread starts, it returns the counter's value
  as the new id, the abstract map gains exactly that id with the given
  endpoint, one more link is active, and the counter advances by one.
\<close>

theorem add_connection_inserts:
  assumes wf: "wf_registry r" and room: "get_active_connection_count r < MAX_CONNECTIONS"
    and add: "add_connection r sock a p True t = (k, r')"
  shows "k = next_connection_id r \<and>
         abs_registry r' = (abs_registry r)(k \<mapsto> (a, p)) \<and>
         get_active_connection_count r' = get_active_connection_count r + 1 \<and>
         next_connection_id r' = next_connection_id r + 1"
proof -
  obtain s where slot: "first_index (\<lambda>c. \<not> active c) (connections r) 0 = Some s"
    and s: "s < length (connections r)" "\<not> active (connections r ! s)"
    using free_slot_exists [OF wf room] by blast
  have r': "r' = snd (add_connection r sock a p True t)" using add by (metis snd_conv)
  have "k = fst (add_connection r sock a p True t)" using add by (metis fst_conv)
  then have k: "k = next_connection_id r" by (simp add: add_connection_slot [OF slot])
  have "abs_registry r' = (abs_registry r)(k \<mapsto> (a, p))"
    using abs_registry_add [OF wf slot] k r' by simp
  moreover have "get_active_connection_count r' = get_active_connection_count r + 1"
    using r' s filter_update_nth_True [of s "connections r" active]
    by (simp add: add_connection_slot [OF slot] get_active_connection_count_def)
  ultimately show ?thesis using k r' by (simp add: add_connection_slot [OF slot])
qed

theorem add_connection_inserts_witness:
  "fst (add_connection init_connections 3 ''10.0.0.1'' 5000 True 1) = 1 \<and>
   abs_registry (snd (add_connection init_connections 3 ''10.0.0.1'' 5000 True 1)) 1 =
     Some (''10.0.0.1'', 5000)"
proof -
  have room: "get_active_connection_count init_connections < MAX_CONNECTIONS"
    by (simp add: get_active_connection_count_def init_connections_def empty_connection_def
        MAX_CONNECTIONS_def)
  obtain k r' where add: "add_connection init_connections 3 ''10.0.0.1'' 5000 True 1 = (k, r')"
    by fastforce
  from add_connection_inserts [OF wf_init room add] have "k = 1" "abs_registry r' 1 = Some (''10.0.0.1'', 5000)"
    by (simp_all add: init_connections_def)
  with add show ?thesis by simp
qed

text \<open>
  C4. Capacity (spec invariant I1): on a registry whose \<open>MAX_CONNECTIONS\<close>
  slots are all active, \<open>add_connection\<close> returns \<open>-1\<close> and changes
  nothing but printing \<open>Maximum connections reached\<close>; the counter is not
  consumed.
\<close>

theorem add_connection_full_unchanged:
  assumes "wf_registry r" and "get_active_connection_count r = MAX_CONNECTIONS"
  shows "add_connection r sock a p created t = (-1, emit r [Print Out_max_connections])"
  using assms by (simp add: add_connection_full free_slot_None_iff wf_registry_def)

theorem add_connection_full_unchanged_witness:
  "add_connection (snd (reg_run init_connections
      (map (\<lambda>n. Op_add (int n) ''10.0.0.1'' (int n) True n) [1..<51])))
      99 ''10.0.0.2'' 7 True 99 =
   (-1, emit (snd (reg_run init_connections
      (map (\<lambda>n. Op_add (int n) ''10.0.0.1'' (int n) True n) [1..<51])))
      [Print Out_max_connections])"
proof -
  let ?r = "snd (reg_run init_connections
      (map (\<lambda>n. Op_add (int n) ''10.0.0.1'' (int n) True n) [1..<51]))"
  have wf: "wf_registry ?r" by code_simp
  have full: "get_active_connection_count ?r = MAX_CONNECTIONS" by code_simp
  show ?thesis by (rule add_connection_full_unchanged [OF wf full])
qed


text \<open>
  C5. When \<open>pthread_create\<close> fails, \<open>add_connection\<close> returns \<open>-1\<close> and
  leaves the abstract registry and the number of active links as they were;
  the counter value is consumed all the same and the failure is printed.
\<close>

theorem add_connection_thread_failure:
  assumes wf: "wf_registry r" and room: "get_active_connection_count r < MAX_CONNECTIONS"
    and add: "add_connection r sock a p False t = (k, r')"
  shows "k = -1 \<and> abs_registry r' = abs_registry r \<and>
         get_active_connection_count r' = get_active_connection_count r \<and>
         next_connection_id r' = next_connection_id r + 1 \<and>
         io r' = io r @ [Print Out_thread_failed]"
proof -
  obtain s where slot: "first_index (\<lambda>c. \<not> active c) (connections r) 0 = Some s"
    and s: "s < length (connections r)" "\<not> active (connections r ! s)"
    using free_slot_exists [OF wf room] by blast
  let ?dead = "\<lparr>cid = next_connection_id r, socket = sock, ip = a, port = p,
                thread = t, active = False\<rparr>"
  have k: "k = -1" and r': "r' = emit (r\<lparr>connections := (connections r)[s := ?dead],
                          next_connection_id := next_connection_id r + 1\<rparr>) [Print Out_thread_failed]"
    using add by (simp_all add: add_connection_slot [OF slot])
  have "endpoint_of ((connections r)[s := ?dead]) = endpoint_of (connections r)"
    using s by (simp add: fun_eq_iff endpoint_of_update_other)
  moreover have "filter active ((connections r)[s := ?dead]) = filter active (connections r)"
    using s by (simp add: filter_update_nth_skip)
  ultimately show ?thesis
    using k r' by (simp add: abs_registry_def get_active_connection_count_def)
qed

theorem add_connection_thread_failure_witness:
  "fst (add_connection init_connections 3 ''10.0.0.1'' 5000 False 1) = -1 \<and>
   abs_registry (snd (add_connection init_connections 3 ''10.0.0.1'' 5000 False 1)) =
     abs_registry init_connections"
proof -
  have room: "get_active_connection_count init_connections < MAX_CONNECTIONS"
    by (simp add: get_active_connection_count_def init_connections_def empty_connection_def
        MAX_CONNECTIONS_def)
  obtain k r' where add: "add_connection init_connections 3 ''10.0.0.1'' 5000 False 1 = (k, r')"
    by fastforce
  from add_connection_thread_failure [OF wf_init room add] add show ?thesis by simp
qed

text \<open>
  C6. \<open>remove_connection\<close> (the receiver's path) implements the abstract
  delete: afterwards the id is unknown and every other id keeps its endpoint;
  the socket of the removed link is closed once, and nothing is closed when
  the id is absent.
\<close>

theorem remove_connection_refines:
  assumes "wf_registry r"
  shows "abs_registry (remove_connection r k) = (abs_registry r)(k := None) \<and>
         io (remove_connection r k) =
           io r @ (case find_connection_by_id r k of None \<Rightarrow> []
                   | Some i \<Rightarrow> [Close (socket (connections r ! i))])"
  using abs_registry_remove [OF assms]
  by (simp add: remove_connection_def find_connection_by_id_def Let_def split: option.split)

theorem remove_connection_refines_witness:
  "abs_registry (remove_connection (snd (add_connection init_connections 3 ''10.0.0.1'' 5000 True 1)) 1) 1 = None \<and>
   io (remove_connection (snd (add_connection init_connections 3 ''10.0.0.1'' 5000 True 1)) 1) =
     [Spawn 1 0, Close 3]"
proof -
  let ?r = "snd (add_connection init_connections 3 ''10.0.0.1'' 5000 True 1)"
  have wf: "wf_registry ?r" by code_simp
  have io: "io ?r = [Spawn 1 0]" by code_simp
  have f: "find_connection_by_id ?r 1 = Some 0" by code_simp
  have s: "socket (connections ?r ! 0) = 3" by code_simp
  from remove_connection_refines [OF wf, of 1] io f s show ?thesis by simp
qed

text \<open>
  C7. \<open>close_connection\<close> (the operator's \<open>terminate\<close>) implements the same
  abstract delete and shuts down both directions before closing the socket.
\<close>

theorem close_connection_refines:
  assumes "wf_registry r"
  shows "abs_registry (close_connection r k) = (abs_registry r)(k := None) \<and>
         io (close_connection r k) =
           io r @ (case find_connection_by_id r k of None \<Rightarrow> []
                   | Some i \<Rightarrow> [Shutdown (socket (connections r ! i)),
                                Close (socket (connections r ! i))])"
  using abs_registry_close [OF assms]
  by (simp add: close_connection_def find_connection_by_id_def Let_def split: option.split)

theorem close_connection_refines_witness:
  "io (close_connection (snd (add_connection init_connections 3 ''10.0.0.1'' 5000 True 1)) 1) =
     [Spawn 1 0, Shutdown 3, Close 3]"
proof -
  let ?r = "snd (add_connection init_connections 3 ''10.0.0.1'' 5000 True 1)"
  have wf: "wf_registry ?r" by code_simp
  have io: "io ?r = [Spawn 1 0]" by code_simp
  have f: "find_connection_by_id ?r 1 = Some 0" by code_simp
  have s: "socket (connections ?r ! 0) = 3" by code_simp
  from close_connection_refines [OF wf, of 1] io f s show ?thesis by simp
qed

text \<open>
  C8. Termination is idempotent: a second \<open>remove_connection\<close> of the same id
  is a no-op, with no second \<open>close\<close> of the socket.
\<close>

theorem remove_connection_idempotent:
  "wf_registry r \<Longrightarrow> remove_connection (remove_connection r k) k = remove_connection r k"
  by (simp add: remove_connection_absent find_after_remove)

theorem remove_connection_idempotent_witness:
  "remove_connection (remove_connection (snd (add_connection init_connections 3 ''10.0.0.1'' 5000 True 1)) 1) 1 =
   remove_connection (snd (add_connection init_connections 3 ''10.0.0.1'' 5000 True 1)) 1"
proof -
  have wf: "wf_registry (snd (add_connection init_connections 3 ''10.0.0.1'' 5000 True 1))"
    by code_simp
  show ?thesis by (rule remove_connection_idempotent [OF wf])
qed

text \<open>
  C9. A peer close and an operator \<open>terminate\<close> of the same link close its
  socket once, in either order: whichever of \<open>close_connection\<close> and
  \<open>remove_connection\<close> runs second finds no active link and does nothing.
\<close>

theorem close_and_remove_once:
  assumes "wf_registry r"
  shows "remove_connection (close_connection r k) k = close_connection r k \<and>
         close_connection (remove_connection r k) k = remove_connection r k"
  using assms by (simp add: remove_connection_absent close_connection_absent
      find_after_remove find_after_close)

theorem close_and_remove_once_witness:
  "remove_connection (close_connection (snd (add_connection init_connections 3 ''10.0.0.1'' 5000 True 1)) 1) 1 =
   close_connection (snd (add_connection init_connections 3 ''10.0.0.1'' 5000 True 1)) 1"
proof -
  have wf: "wf_registry (snd (add_connection init_connections 3 ''10.0.0.1'' 5000 True 1))"
    by code_simp
  from close_and_remove_once [OF wf, of 1] show ?thesis by simp
qed

text \<open>
  C10. \<open>close_all_connections\<close> empties the abstract registry, shuts down and
  closes the socket of every active link exactly once in slot order, and is
  idempotent (a second call changes nothing).
\<close>

theorem close_all_connections_spec:
  "abs_registry (close_all_connections r) = Map.empty \<and>
   io (close_all_connections r) =
     io r @ concat (map (\<lambda>c. [Shutdown (socket c), Close (socket c)]) (filter active (connections r))) \<and>
   close_all_connections (close_all_connections r) = close_all_connections r"
proof -
  have "io (close_all_connections r) =
     io r @ concat (map (\<lambda>c. [Shutdown (socket c), Close (socket c)]) (filter active (connections r)))"
    by (simp add: close_all_connections_def close_all_loop_eq)
  moreover have "close_all_connections (close_all_connections r) = close_all_connections r"
    by (simp add: close_all_connections_def close_all_loop_eq emit_def filter_map o_def)
  ultimately show ?thesis using abs_registry_close_all by blast
qed


text \<open>
  C11. \<open>get_active_connection_count\<close> implements the size of the abstract
  registry: on a well-formed registry it counts exactly the ids the
  abstract map holds.
\<close>

theorem active_count_refines:
  assumes "wf_registry r"
  shows "get_active_connection_count r = card (dom (abs_registry r))"
proof -
  have "card (dom (abs_registry r)) = card (set (map fst (listing r)))"
    by (simp add: dom_map_of_conv_image_fst flip: listing_abs)
  also have "\<dots> = length (listing r)"
    using distinct_card [OF distinct_listing [OF assms]] by simp
  finally show ?thesis by (simp add: listing_def get_active_connection_count_def)
qed

theorem active_count_refines_witness:
  "get_active_connection_count (snd (reg_run init_connections
     [Op_add 3 ''10.0.0.1'' 5000 True 1, Op_add 4 ''10.0.0.2'' 5000 True 2, Op_remove 1])) =
   card (dom (abs_registry (snd (reg_run init_connections
     [Op_add 3 ''10.0.0.1'' 5000 True 1, Op_add 4 ''10.0.0.2'' 5000 True 2, Op_remove 1]))))"
proof -
  have wf: "wf_registry (snd (reg_run init_connections
     [Op_add 3 ''10.0.0.1'' 5000 True 1, Op_add 4 ''10.0.0.2'' 5000 True 2, Op_remove 1]))"
    by code_simp
  show ?thesis by (rule active_count_refines [OF wf])
qed

text \<open>
  C12. \<open>print_connection_list\<close> prints an enumeration of the abstract
  registry: on a well-formed registry its rows name each id once, and read
  as a map from id to endpoint they are the abstract registry.
\<close>

theorem listing_refines:
  assumes "wf_registry r"
  shows "distinct (map fst (listing r)) \<and> map_of (listing r) = abs_registry r"
  using assms by (simp add: distinct_listing listing_abs)

theorem listing_refines_witness:
  "distinct (map fst (listing (snd (reg_run init_connections
     [Op_add 3 ''10.0.0.1'' 5000 True 1, Op_add 4 ''10.0.0.2'' 5000 True 2, Op_remove 1])))) \<and>
   map_of (listing (snd (reg_run init_connections
     [Op_add 3 ''10.0.0.1'' 5000 True 1, Op_add 4 ''10.0.0.2'' 5000 True 2, Op_remove 1]))) =
   abs_registry (snd (reg_run init_connections
     [Op_add 3 ''10.0.0.1'' 5000 True 1, Op_add 4 ''10.0.0.2'' 5000 True 2, Op_remove 1]))"
proof -
  have wf: "wf_registry (snd (reg_run init_connections
     [Op_add 3 ''10.0.0.1'' 5000 True 1, Op_add 4 ''10.0.0.2'' 5000 True 2, Op_remove 1]))"
    by code_simp
  show ?thesis by (rule listing_refines [OF wf])
qed

text \<open>
  C13. The id counter is a 32-bit \<open>int\<close> with no overflow check: an insert
  made when it holds \<open>INT_MAX\<close> hands out \<open>INT_MAX\<close> and leaves the counter
  at \<open>INT_MIN\<close> (signed overflow, undefined in C; two's complement here).
\<close>

theorem add_connection_counter_wraps:
  assumes "first_index (\<lambda>c. \<not> active c) (connections r) 0 = Some s"
    and "next_connection_id r = INT_MAX"
  shows "fst (add_connection r sock a p True t) = INT_MAX \<and>
         sint (next_connection_id (snd (add_connection r sock a p True t))) = -2147483648"
  using assms by (simp add: add_connection_slot)

theorem add_connection_counter_wraps_witness:
  "sint (next_connection_id (snd (add_connection
     (init_connections\<lparr>next_connection_id := INT_MAX\<rparr>) 3 ''10.0.0.1'' 5000 True 1))) =
   -2147483648"
proof -
  have "first_index (\<lambda>c. \<not> active c)
          (connections (init_connections\<lparr>next_connection_id := INT_MAX\<rparr>)) 0 = Some 0"
    by code_simp
  from add_connection_counter_wraps [OF this] show ?thesis by simp
qed

text \<open>
  C14. When the wrapped counter reaches \<open>-1\<close>, a successful insert returns
  \<open>-1\<close>, the value its callers read as failure, although the slot is active
  and holds the socket: \<open>accept_connections_thread\<close> and \<open>cmd_connect\<close> then
  close a socket the registry still owns.
\<close>

theorem add_connection_minus_one_active:
  assumes "first_index (\<lambda>c. \<not> active c) (connections r) 0 = Some s"
    and "next_connection_id r = -1"
  shows "fst (add_connection r sock a p True t) = -1 \<and>
         active (connections (snd (add_connection r sock a p True t)) ! s) \<and>
         socket (connections (snd (add_connection r sock a p True t)) ! s) = sock"
proof -
  have "s < length (connections r)" using first_index_Some_bound [OF assms(1)] by simp
  with assms show ?thesis by (simp add: add_connection_slot)
qed

theorem add_connection_minus_one_active_witness:
  "fst (add_connection (init_connections\<lparr>next_connection_id := -1\<rparr>) 3 ''10.0.0.1'' 5000 True 1) = -1 \<and>
   active (connections (snd (add_connection
     (init_connections\<lparr>next_connection_id := -1\<rparr>) 3 ''10.0.0.1'' 5000 True 1)) ! 0)"
proof -
  have "first_index (\<lambda>c. \<not> active c)
          (connections (init_connections\<lparr>next_connection_id := -1\<rparr>)) 0 = Some 0"
    by code_simp
  from add_connection_minus_one_active [OF this] show ?thesis by simp
qed

end
