(* ===== verification/Validate.thy ===== *)
theory Validate
  imports Prelude
begin

text \<open>
  The address and port validators of \<open>src/socket.c\<close>. \<open>is_valid_port\<close> is
  the range check of the code. \<open>is_valid_ip\<close> returns whether
  \<open>inet_pton(AF_INET, ip, ...)\<close> returns 1; \<open>inet_pton\<close> is the C library's,
  not code of this repository, and is modelled from its POSIX contract in the
  shape of the GNU C library's \<open>inet_pton4\<close> loop: exactly four dotted decimal
  parts, each at most 255, no leading zero, nothing else. The model is used
  by the command layer and gives the bound that makes \<open>strcpy\<close> into the
  16-byte \<open>ip\<close> field of a \<open>Connection\<close> safe. Its inverse
  \<open>inet_ntop\<close>, which the acceptor uses to print a peer's address, is
  modelled from its contract as \<open>ntop4_str\<close> (four octets of the
  network-order address in decimal, dot-separated) and \<open>inet_ntop4\<close> (the
  same, or failure when it does not fit the buffer).
\<close>

definition is_valid_port :: "int \<Rightarrow> bool" where
  "is_valid_port port \<longleftrightarrow> 0 < port \<and> port \<le> 65535"

definition is_digit :: "char \<Rightarrow> bool" where
  "is_digit ch \<longleftrightarrow> 48 \<le> (of_char ch :: nat) \<and> (of_char ch :: nat) \<le> 57"
  \<comment> \<open>\<open>ch >= '0' && ch <= '9'\<close> on the character's code\<close>

definition digit_val :: "char \<Rightarrow> nat" where
  "digit_val ch = of_char ch - 48"

text \<open>
  The loop over the characters: \<open>saw\<close> is \<open>saw_digit\<close>, \<open>octets\<close> the number
  of parts begun, \<open>tmp\<close> the parts read so far (the last one is \<open>*tp\<close>).
\<close>

fun pton4_loop :: "string \<Rightarrow> bool \<Rightarrow> nat \<Rightarrow> nat list \<Rightarrow> nat list option" where
  "pton4_loop [] saw octets tmp = (if octets < 4 then None else Some tmp)"
| "pton4_loop (ch # rest) saw octets tmp =
     (if is_digit ch then
        (let cur = last tmp; new = cur * 10 + digit_val ch
         in if saw \<and> cur = 0 then None
            else if 255 < new then None
            else if \<not> saw then
              (if 4 < octets + 1 then None
               else pton4_loop rest True (octets + 1) (butlast tmp @ [new]))
            else pton4_loop rest True octets (butlast tmp @ [new]))
      else if ch = CHR ''.'' \<and> saw then
        (if octets = 4 then None else pton4_loop rest False octets (tmp @ [0]))
      else None)"

definition inet_pton4 :: "string \<Rightarrow> nat list option" where
  "inet_pton4 src = pton4_loop src False 0 [0]"

definition is_valid_ip :: "string \<Rightarrow> bool" where
  "is_valid_ip ip \<longleftrightarrow> inet_pton4 ip \<noteq> None"

text \<open>
  \<open>inet_ntop(AF_INET, ...)\<close>, the GNU \<open>inet_ntop4\<close>: the four bytes of the
  address in decimal, \<open>"%u.%u.%u.%u"\<close>, or \<open>NULL\<close> (\<open>None\<close>) when the text
  with its NUL does not fit the buffer. The address is the value of
  \<open>sin_addr\<close> read in network order, its first byte most significant.
  \<open>dec\<close> is the decimal notation \<open>printf\<close> writes.
\<close>

fun dec :: "nat \<Rightarrow> string" where
  "dec n = (if n < 10 then [char_of (48 + n)] else dec (n div 10) @ [char_of (48 + n mod 10)])"

declare dec.simps [simp del]

definition octet :: "32 word \<Rightarrow> nat \<Rightarrow> nat" where
  "octet w k = unat (take_bit 8 (drop_bit (8 * k) w))"

definition ntop4_str :: "32 word \<Rightarrow> string" where
  "ntop4_str w = dec (octet w 3) @ ''.'' @ dec (octet w 2) @ ''.'' @ dec (octet w 1) @ ''.'' @ dec (octet w 0)"

definition inet_ntop4 :: "32 word \<Rightarrow> nat \<Rightarrow> string option" where
  "inet_ntop4 w n = (let s = ntop4_str w in if length s < n then Some s else None)"


text \<open>
  How many more characters the loop can accept from a state: the digits the
  current part can still take (none after a leading zero or a third digit),
  and three digits and a dot for every part not begun.
\<close>

definition more_digits :: "nat \<Rightarrow> nat" where
  "more_digits cur = (if cur = 0 then 0 else if cur < 10 then 2 else if cur < 100 then 1 else 0)"

definition pton4_budget :: "bool \<Rightarrow> nat \<Rightarrow> nat \<Rightarrow> nat" where
  "pton4_budget saw octets cur =
     (if saw then more_digits cur + (4 - octets) * 4
      else if octets = 0 then 15 else (4 - octets) * 4 - 1)"

lemma digit_val_bound: "is_digit ch \<Longrightarrow> digit_val ch \<le> 9"
proof -
  assume "is_digit ch"
  then have "of_char ch \<le> (57::nat)" and "48 \<le> (of_char ch :: nat)"
    by (auto simp: is_digit_def)
  then show ?thesis by (simp add: digit_val_def)
qed

lemma pton4_loop_length:
  "pton4_loop cs saw octets tmp = Some r \<Longrightarrow> tmp \<noteq> [] \<Longrightarrow>
   (saw \<longrightarrow> 1 \<le> octets \<and> octets \<le> 4) \<Longrightarrow> (\<not> saw \<longrightarrow> octets < 4) \<Longrightarrow>
   length cs \<le> pton4_budget saw octets (last tmp)"
proof (induction cs saw octets tmp rule: pton4_loop.induct)
  case (1 saw octets tmp)
  then show ?case by simp
next
  case (2 ch rest saw octets tmp)
  show ?case
  proof (cases "is_digit ch")
    case True
    let ?new = "last tmp * 10 + digit_val ch"
    have d: "digit_val ch \<le> 9" using True by (rule digit_val_bound)
    show ?thesis
    proof (cases saw)
      case True
      with "2.prems" \<open>is_digit ch\<close> have ne: "last tmp \<noteq> 0" and le: "?new \<le> 255"
        and rec: "pton4_loop rest True octets (butlast tmp @ [?new]) = Some r"
        by (auto simp: Let_def split: if_splits)
      have "length rest \<le> pton4_budget True octets ?new"
        using "2.IH"(2) [OF \<open>is_digit ch\<close> refl refl] rec True ne le "2.prems"(3)
        by (simp add: Let_def)
      moreover have "Suc (more_digits ?new) \<le> more_digits (last tmp)"
        using ne le d by (auto simp: more_digits_def)
      ultimately show ?thesis using True by (simp add: pton4_budget_def)
    next
      case False
      with "2.prems" \<open>is_digit ch\<close> have le: "?new \<le> 255" and oc: "octets + 1 \<le> 4"
        and rec: "pton4_loop rest True (octets + 1) (butlast tmp @ [?new]) = Some r"
        by (auto simp: Let_def split: if_splits)
      have "length rest \<le> pton4_budget True (octets + 1) ?new"
        using "2.IH"(1) [OF \<open>is_digit ch\<close> refl refl] rec False le oc by (simp add: Let_def)
      moreover have "more_digits ?new \<le> 2" by (simp add: more_digits_def)
      ultimately show ?thesis using False oc "2.prems"(4) by (auto simp: pton4_budget_def)
    qed
  next
    case False
    with "2.prems" have dot: "ch = CHR ''.'' \<and> saw" and oc: "octets \<noteq> 4"
      and rec: "pton4_loop rest False octets (tmp @ [0]) = Some r"
      by (auto split: if_splits)
    have "length rest \<le> pton4_budget False octets 0"
      using "2.IH"(3) [OF False dot oc] rec "2.prems"(3,4) dot oc by simp
    then show ?thesis using dot oc "2.prems"(3) by (auto simp: pton4_budget_def)
  qed
qed


lemma dec_small: "n < 10 \<Longrightarrow> dec n = [char_of (48 + n)]"
  by (simp add: dec.simps)

lemma dec_big: "\<not> n < 10 \<Longrightarrow> dec n = dec (n div 10) @ [char_of (48 + n mod 10)]"
  by (subst dec.simps) simp

lemma octet_bound: "octet w k < 256"
proof -
  have "unat (take_bit 8 (drop_bit (8 * k) w)) < 2 ^ 8"
    by (simp only: unsigned_take_bit_eq take_bit_nat_less_exp)
  then show ?thesis by (simp add: octet_def)
qed

lemma dec_two: "10 \<le> n \<Longrightarrow> n < 100 \<Longrightarrow> dec n = [char_of (48 + n div 10), char_of (48 + n mod 10)]"
  by (simp add: dec_big dec_small)

lemma dec_three: "100 \<le> n \<Longrightarrow> n < 1000 \<Longrightarrow>
  dec n = [char_of (48 + n div 100), char_of (48 + n div 10 mod 10), char_of (48 + n mod 10)]"
proof -
  assume a: "100 \<le> n" "n < 1000"
  have "n div 10 div 10 = n div 100" by (simp add: div_mult2_eq)
  with a show ?thesis by (simp add: dec_big dec_small div_mult2_eq)
qed

lemma length_dec_octet: "n < 256 \<Longrightarrow> length (dec n) \<le> 3"
  by (cases "n < 10"; cases "n < 100") (simp_all add: dec_small dec_two dec_three)

lemma inet_ntop4_fits: "inet_ntop4 w INET_ADDRSTRLEN = Some (ntop4_str w)"
proof -
  have "length (ntop4_str w) \<le> 15"
    using length_dec_octet [OF octet_bound [of w 3]] length_dec_octet [OF octet_bound [of w 2]]
      length_dec_octet [OF octet_bound [of w 1]] length_dec_octet [OF octet_bound [of w 0]]
    by (simp add: ntop4_str_def)
  then show ?thesis by (simp add: inet_ntop4_def INET_ADDRSTRLEN_def)
qed


lemma digit_char: "d < 10 \<Longrightarrow> is_digit (char_of (48 + d)) \<and> digit_val (char_of (48 + d)) = d"
  by (simp add: is_digit_def digit_val_def of_char_of)

lemma pton4_dec:
  assumes n: "n < 256" and k: "k < 4"
  shows "pton4_loop (dec n @ rest) False k (tmp @ [0]) = pton4_loop rest True (Suc k) (tmp @ [n])"
proof (cases "n < 10")
  case True
  then show ?thesis using k by (simp add: dec_small digit_char)
next
  case f1: False
  show ?thesis
  proof (cases "n < 100")
    case True
    have d1: "n div 10 < 10" "n mod 10 < 10" "0 < n div 10" using True f1 by auto
    have e: "n div 10 * 10 + n mod 10 = n" by simp
    show ?thesis
      using True f1 k d1 n by (simp add: dec_two digit_char e)
  next
    case False
    have d: "n div 100 < 10" "n div 10 mod 10 < 10" "n mod 10 < 10" "0 < n div 100" "0 < n div 10"
      using False n by auto
    have "n div 10 div 10 = n div 100" by (simp add: div_mult2_eq)
    then have e1: "n div 100 * 10 + n div 10 mod 10 = n div 10"
      using div_mult_mod_eq [of "n div 10" 10] by simp
    have e2: "n div 10 * 10 + n mod 10 = n" by simp
    have b: "n div 10 \<le> 255" using n by simp
    show ?thesis
      using False f1 k d n b by (simp add: dec_three digit_char e1 e2)
  qed
qed

lemma pton4_dec0:
  "n < 256 \<Longrightarrow> pton4_loop (dec n @ rest) False 0 [0] = pton4_loop rest True 1 [n]"
  using pton4_dec [of n 0 rest "[]"] by simp

lemma pton4_ntop: "inet_pton4 (ntop4_str w) = Some [octet w 3, octet w 2, octet w 1, octet w 0]"
proof -
  note b = octet_bound [of w]
  have dot: "\<not> is_digit CHR ''.''" by (simp add: is_digit_def)
  have "inet_pton4 (ntop4_str w) =
        pton4_loop (''.'' @ dec (octet w 2) @ ''.'' @ dec (octet w 1) @ ''.'' @ dec (octet w 0))
          True 1 [octet w 3]"
    by (simp add: inet_pton4_def ntop4_str_def pton4_dec0 b)
  also have "\<dots> = pton4_loop (''.'' @ dec (octet w 1) @ ''.'' @ dec (octet w 0)) True 2
                     [octet w 3, octet w 2]"
    using pton4_dec [of "octet w 2" 1 _ "[octet w 3]"] b dot by (simp add: numeral_2_eq_2 numeral_3_eq_3)
  also have "\<dots> = pton4_loop (''.'' @ dec (octet w 0)) True 3 [octet w 3, octet w 2, octet w 1]"
    using pton4_dec [of "octet w 1" 2 _ "[octet w 3, octet w 2]"] b dot by (simp add: numeral_2_eq_2 numeral_3_eq_3)
  also have "\<dots> = pton4_loop [] True 4 [octet w 3, octet w 2, octet w 1, octet w 0]"
    using pton4_dec [of "octet w 0" 3 "[]" "[octet w 3, octet w 2, octet w 1]"] b dot by (simp add: numeral_2_eq_2 numeral_3_eq_3)
  also have "\<dots> = Some [octet w 3, octet w 2, octet w 1, octet w 0]" by simp
  finally show ?thesis .
qed

lemma is_valid_ip_length: "is_valid_ip ip \<Longrightarrow> length ip \<le> 15"
proof -
  assume "is_valid_ip ip"
  then obtain r where "pton4_loop ip False 0 [0] = Some r"
    by (auto simp: is_valid_ip_def inet_pton4_def)
  from pton4_loop_length [OF this] show ?thesis by (simp add: pton4_budget_def)
qed


section \<open>Properties\<close>

text \<open>
  C21. Every string \<open>is_valid_ip\<close> accepts has at most 15 characters, so it
  fits with its terminating NUL into the \<open>INET_ADDRSTRLEN\<close> = 16 bytes of the
  \<open>ip\<close> field that \<open>add_connection\<close> copies it into with \<open>strcpy\<close>.
\<close>

theorem is_valid_ip_fits_buffer:
  "is_valid_ip ip \<Longrightarrow> length ip + 1 \<le> INET_ADDRSTRLEN"
  using is_valid_ip_length by (fastforce simp: INET_ADDRSTRLEN_def)

theorem is_valid_ip_fits_buffer_witness:
  "is_valid_ip ''255.255.255.255'' \<and> length ''255.255.255.255'' + 1 \<le> INET_ADDRSTRLEN"
proof -
  have v: "is_valid_ip ''255.255.255.255''" by code_simp
  from is_valid_ip_fits_buffer [OF v] v show ?thesis by simp
qed

text \<open>
  C32. Round trip of the address the acceptor stores: \<open>inet_ntop\<close> of any
  IPv4 address fits the 16-byte \<open>client_ip\<close> buffer, so the call never fails
  (its result is not checked), and \<open>inet_pton\<close> reads the text back as the
  same four bytes, so the stored address is one \<open>is_valid_ip\<close> accepts.
\<close>

theorem ntop_pton_roundtrip:
  "inet_ntop4 w INET_ADDRSTRLEN = Some (ntop4_str w) \<and>
   inet_pton4 (ntop4_str w) = Some [octet w 3, octet w 2, octet w 1, octet w 0] \<and>
   is_valid_ip (ntop4_str w)"
  using inet_ntop4_fits pton4_ntop by (simp add: is_valid_ip_def)

end
