(* ===== verification/Parse.thy ===== *)
theory Parse
  imports Validate
begin

text \<open>
  The operator's command line, from \<open>stdin\<close> to a call of a \<open>cmd_*\<close>
  handler: \<open>fgets\<close> into the 256-byte buffer of \<open>main\<close>, the newline cut
  of \<open>src/main.c\<close>, \<open>trim_string\<close> of \<open>src/signal.c\<close>, and the parsing
  half of \<open>process_command\<close> in \<open>src/command.c\<close>, which splits the line
  with \<open>sscanf(command, "%s %s %[^\n]", ...)\<close> and converts ids and ports
  with \<open>atoi\<close>. \<open>fgets\<close>, \<open>sscanf\<close> and \<open>atoi\<close> are C library functions,
  modelled from their contracts: \<open>atoi\<close> as glibc's \<open>(int) strtol(s, NULL,
  10)\<close> on a 64-bit \<open>long\<close>, clamped to the \<open>long\<close> range and then truncated
  to 32 bits. The result of \<open>process_command\<close> is a \<open>parsed\<close> value; the
  thread model runs the handler it names. Characters are classified as in
  the C locale.
\<close>

section \<open>Characters and the command buffer\<close>

definition isspace :: "char \<Rightarrow> bool" where
  "isspace ch \<longleftrightarrow> (of_char ch :: nat) = 32 \<or> (9 \<le> (of_char ch :: nat) \<and> (of_char ch :: nat) \<le> 13)"
  \<comment> \<open>space, \<open>\t\<close>, \<open>\n\<close>, \<open>\v\<close>, \<open>\f\<close>, \<open>\r\<close>\<close>

abbreviation newline :: char where
  "newline \<equiv> CHR 0x0A"

text \<open>
  \<open>fgets(buf, n, stdin)\<close>: at most \<open>n - 1\<close> characters, up to and including a
  newline; \<open>NULL\<close> (here \<open>None\<close>) when the input is at its end.
\<close>

fun fgets_take :: "nat \<Rightarrow> string \<Rightarrow> string \<times> string" where
  "fgets_take 0 inp = ([], inp)"
| "fgets_take (Suc n) [] = ([], [])"
| "fgets_take (Suc n) (c # cs) =
     (if c = newline then ([c], cs) else (let (l, r) = fgets_take n cs in (c # l, r)))"

definition fgets :: "nat \<Rightarrow> string \<Rightarrow> (string \<times> string) option" where
  "fgets n inp = (if inp = [] then None else Some (fgets_take (n - 1) inp))"

text \<open>
  \<open>command[strcspn(command, "\n")] = '\0'\<close>: \<open>strcspn\<close> stops at the
  first newline or at the NUL that ends the string, and every later
  function reads the buffer as a C string, up to its first NUL.
\<close>

definition strip_newline :: "string \<Rightarrow> string" where
  "strip_newline l = takeWhile (\<lambda>c. c \<noteq> newline \<and> c \<noteq> CHR 0x00) l"

section \<open>\<open>trim_string\<close>\<close>

text \<open>
  The first loop: \<open>while (len > 0 && isspace(str[len - 1])) str[--len] = '\0';\<close>
  returns the length that remains.
\<close>

fun trim_len :: "string \<Rightarrow> nat \<Rightarrow> nat" where
  "trim_len s 0 = 0"
| "trim_len s (Suc n) = (if isspace (s ! n) then trim_len s n else Suc n)"

text \<open>The second loop: \<open>while (*start && isspace(*start)) start++;\<close>\<close>

fun skip_space :: "string \<Rightarrow> string" where
  "skip_space [] = []"
| "skip_space (c # cs) = (if isspace c then skip_space cs else c # cs)"

definition trim_string :: "string \<Rightarrow> string" where
  "trim_string s = skip_space (take (trim_len s (length s)) s)"

section \<open>\<open>sscanf\<close> and \<open>atoi\<close>\<close>

text \<open>
  \<open>sscanf(command, "%s %s %[^\n]", cmd, arg1, arg2)\<close>: the number of
  conversions and the three buffers (left empty, as \<open>memset\<close> leaves them,
  when not converted). \<open>%s\<close> skips white space and reads a non-empty word;
  the blank of the format skips white space, which the next \<open>%s\<close> would skip
  anyway; \<open>%[^\n]\<close> reads a non-empty run of characters other than newline.
  An input that ends before the first conversion gives \<open>EOF\<close>.
\<close>

definition sscanf_cmd :: "string \<Rightarrow> int \<times> string \<times> string \<times> string" where
  "sscanf_cmd s =
     (let s0 = skip_space s
      in if s0 = [] then (-1, [], [], [])
         else
           (let w0 = takeWhile (\<lambda>c. \<not> isspace c) s0;
                s1 = skip_space (dropWhile (\<lambda>c. \<not> isspace c) s0)
            in if s1 = [] then (1, w0, [], [])
               else
                 (let w1 = takeWhile (\<lambda>c. \<not> isspace c) s1;
                      s2 = skip_space (dropWhile (\<lambda>c. \<not> isspace c) s1)
                  in if s2 = [] \<or> hd s2 = newline then (2, w0, w1, [])
                     else (3, w0, w1, takeWhile (\<lambda>c. c \<noteq> newline) s2))))"

definition LONG_MAX :: int where
  "LONG_MAX = 2 ^ 63 - 1"

definition LONG_MIN :: int where
  "LONG_MIN = - (2 ^ 63)"

fun strtol_digits :: "string \<Rightarrow> int \<Rightarrow> int" where
  "strtol_digits [] acc = acc"
| "strtol_digits (c # cs) acc =
     (if is_digit c then strtol_digits cs (acc * 10 + int (digit_val c)) else acc)"

definition strtol10 :: "string \<Rightarrow> int" where
  "strtol10 s =
     (let s0 = skip_space s;
          (neg, ds) = (case s0 of
                         [] \<Rightarrow> (False, [])
                       | c # cs \<Rightarrow> if c = CHR ''-'' then (True, cs)
                                   else if c = CHR ''+'' then (False, cs) else (False, s0));
          v = strtol_digits ds 0
      in if neg then max LONG_MIN (- v) else min LONG_MAX v)"

definition atoi :: "string \<Rightarrow> c_int" where
  "atoi s = word_of_int (strtol10 s)"

section \<open>\<open>process_command\<close>\<close>

text \<open>A parsed command line, the argument of the \<open>cmd_*\<close> handlers.\<close>

datatype command =
    Cmd_list
  | Cmd_terminate c_int
  | Cmd_send c_int string
  | Cmd_connect string int
  | Cmd_exit

datatype parsed =
    P_empty
  | P_help
  | P_myip
  | P_myport
  | P_command command
  | P_usage_connect
  | P_usage_terminate
  | P_usage_send
  | P_unknown string

definition process_command :: "string \<Rightarrow> parsed" where
  "process_command line =
     (let command = trim_string line
      in if command = [] then P_empty
         else
           (case sscanf_cmd command of
              (args, cmd, arg1, arg2) \<Rightarrow>
                if cmd = ''help'' then P_help
                else if cmd = ''myip'' then P_myip
                else if cmd = ''myport'' then P_myport
                else if cmd = ''connect'' then
                  (if 3 \<le> args then P_command (Cmd_connect arg1 (sint (atoi arg2)))
                   else P_usage_connect)
                else if cmd = ''list'' then P_command Cmd_list
                else if cmd = ''terminate'' then
                  (if 2 \<le> args then P_command (Cmd_terminate (atoi arg1)) else P_usage_terminate)
                else if cmd = ''send'' then
                  (if 3 \<le> args then P_command (Cmd_send (atoi arg1) arg2) else P_usage_send)
                else if cmd = ''exit'' then P_command Cmd_exit
                else P_unknown cmd))"

section \<open>Lemmas\<close>

lemma skip_space_eq: "skip_space s = dropWhile isspace s"
  by (induction s) auto

lemma dropWhile_hd_keep: "xs \<noteq> [] \<Longrightarrow> \<not> P (hd xs) \<Longrightarrow> dropWhile P xs = xs"
  by (cases xs) auto

lemma trim_len_take:
  "n \<le> length s \<Longrightarrow> take (trim_len s n) s = rev (dropWhile isspace (rev (take n s)))"
proof (induction n)
  case 0
  then show ?case by simp
next
  case (Suc n)
  then have n: "n < length s" by simp
  have t: "take (Suc n) s = take n s @ [s ! n]" using n by (simp add: take_Suc_conv_app_nth)
  show ?case
  proof (cases "isspace (s ! n)")
    case True
    with Suc.IH n t show ?thesis by simp
  next
    case False
    with n t show ?thesis by simp
  qed
qed

lemma trim_string_strip:
  "trim_string s = dropWhile isspace (rev (dropWhile isspace (rev s)))"
  by (simp add: trim_string_def skip_space_eq trim_len_take)

lemma trim_string_id:
  assumes "xs \<noteq> []" "\<not> isspace (hd xs)" "\<not> isspace (last xs)"
  shows "trim_string xs = xs"
proof -
  have "dropWhile isspace (rev xs) = rev xs"
    using assms by (intro dropWhile_hd_keep) (simp_all add: hd_rev)
  then show ?thesis using assms by (simp add: trim_string_strip dropWhile_hd_keep)
qed

lemma length_trim_string: "length (trim_string s) \<le> length s"
proof -
  have "length (dropWhile isspace (rev (dropWhile isspace (rev s)))) \<le> length s"
    by (metis le_trans length_dropWhile_le length_rev)
  then show ?thesis by (simp add: trim_string_strip)
qed

lemma digit_not_space: "is_digit c \<Longrightarrow> \<not> isspace c"
  by (auto simp: is_digit_def isspace_def)

lemma dec_digits: "\<forall>c \<in> set (dec n). is_digit c"
proof (induction n rule: dec.induct)
  case (1 n)
  then show ?case by (cases "n < 10") (simp_all add: dec_small dec_big digit_char)
qed

lemma dec_not_Nil [simp]: "dec n \<noteq> []"
  by (cases "n < 10") (simp_all add: dec_small dec_big)

lemma dec_hd: "is_digit (hd (dec n))"
  using dec_digits [of n] by (cases "dec n") auto

lemma strtol_digits_append:
  "\<forall>c \<in> set xs. is_digit c \<Longrightarrow> strtol_digits (xs @ ys) acc = strtol_digits ys (strtol_digits xs acc)"
  by (induction xs arbitrary: acc) auto

lemma strtol_digits_dec: "strtol_digits (dec n) acc = acc * 10 ^ length (dec n) + int n"
proof (induction n arbitrary: acc rule: dec.induct)
  case (1 n)
  show ?case
  proof (cases "n < 10")
    case True
    then show ?thesis by (simp add: dec_small digit_char)
  next
    case False
    let ?c = "char_of (48 + n mod 10) :: char"
    have d: "dec n = dec (n div 10) @ [?c]" using False by (rule dec_big)
    have "strtol_digits (dec n) acc =
          strtol_digits [?c] (acc * 10 ^ length (dec (n div 10)) + int (n div 10))"
      using d "1.IH" [OF False] dec_digits [of "n div 10"] by (simp add: strtol_digits_append)
    also have "\<dots> = acc * 10 ^ length (dec n) + int n"
    proof -
      have "int n = int (n div 10) * 10 + int (n mod 10)"
        by (metis div_mult_mod_eq of_nat_add of_nat_mult of_nat_numeral)
      then show ?thesis using d by (simp add: digit_char algebra_simps)
    qed
    finally show ?thesis .
  qed
qed

lemma skip_space_digits: "xs \<noteq> [] \<Longrightarrow> is_digit (hd xs) \<Longrightarrow> skip_space xs = xs"
  by (cases xs) (auto simp: digit_not_space)

lemma atoi_dec: "int n \<le> LONG_MAX \<Longrightarrow> atoi (dec n) = of_nat n"
proof -
  assume le: "int n \<le> LONG_MAX"
  obtain c cs where dc: "dec n = c # cs" by (cases "dec n") auto
  have c: "is_digit c" using dec_hd [of n] dc by simp
  then have "c \<noteq> CHR ''-''" "c \<noteq> CHR ''+''" by (auto simp: is_digit_def)
  then have "strtol10 (dec n) = int n"
    using le dc c skip_space_digits [of "dec n"] strtol_digits_dec [of n 0]
    by (simp add: strtol10_def)
  then show ?thesis by (simp add: atoi_def)
qed

lemma sint_of_nat_small: "n < 2 ^ 31 \<Longrightarrow> sint (of_nat n :: c_int) = int n"
proof -
  assume n: "n < 2 ^ 31"
  have "sint (word_of_int (int n) :: c_int) = signed_take_bit 31 (int n)"
    by (simp only: sint_uint uint_word_of_int_eq) (simp add: signed_take_bit_take_bit)
  also have "\<dots> = int n" using n by (simp add: signed_take_bit_int_eq_self_iff)
  finally show ?thesis by simp
qed

lemma fgets_take_split: "fst (fgets_take n inp) @ snd (fgets_take n inp) = inp"
  by (induction n inp rule: fgets_take.induct) (auto split: prod.split)

lemma fgets_take_length: "length (fst (fgets_take n inp)) \<le> n"
  by (induction n inp rule: fgets_take.induct) (auto split: prod.split)

lemma sscanf_cmd_fields:
  "sscanf_cmd s = (k, w0, w1, w2) \<Longrightarrow>
   length w0 \<le> length s \<and> length w1 \<le> length s \<and> length w2 \<le> length s"
proof -
  have sk: "length (skip_space xs) \<le> length xs" for xs
    by (simp add: skip_space_eq length_dropWhile_le)
  have tw: "length (takeWhile P xs) \<le> length xs" for P and xs :: string
    by (rule length_takeWhile_le)
  have dw: "length (dropWhile P xs) \<le> length xs" for P and xs :: string
    by (rule length_dropWhile_le)
  assume "sscanf_cmd s = (k, w0, w1, w2)"
  then show ?thesis
    using sk tw dw
    by (simp add: sscanf_cmd_def Let_def split: if_splits) (meson le_trans)+
qed

lemma last_dropWhile: "dropWhile P xs \<noteq> [] \<Longrightarrow> last (dropWhile P xs) = last xs"
  by (induction xs) auto


lemma process_terminate_dec:
  "process_command (''terminate '' @ dec n) = P_command (Cmd_terminate (atoi (dec n)))"
proof -
  let ?l = "''terminate '' @ dec n"
  have ds: "\<forall>c \<in> set (dec n). \<not> isspace c" using dec_digits [of n] digit_not_space by blast
  have la: "\<not> isspace (last (dec n))" using ds by simp
  have h: "\<not> isspace (hd ?l)" by (simp add: isspace_def)
  have l: "\<not> isspace (last ?l)" using la by simp
  have tr: "trim_string ?l = ?l" by (rule trim_string_id [OF _ h l]) simp
  have sc: "sscanf_cmd ?l = (2, ''terminate'', dec n, [])"
    using ds dec_hd [of n] digit_not_space [of "hd (dec n)"]
    by (simp add: sscanf_cmd_def skip_space_eq takeWhile_append2 dropWhile_append2 isspace_def
        dropWhile_hd_keep dropWhile_eq_Nil_conv [THEN iffD2] takeWhile_eq_all_conv [THEN iffD2])
  show ?thesis using tr sc by (simp add: process_command_def)
qed


section \<open>Properties\<close>

text \<open>
  C22. \<open>trim_string\<close> removes exactly the white space at both ends: its two
  loops compute the two-sided strip, and trimming twice is trimming once.
\<close>

theorem trim_string_spec:
  "trim_string s = dropWhile isspace (rev (dropWhile isspace (rev s))) \<and>
   trim_string (trim_string s) = trim_string s"
proof
  show t: "trim_string s = dropWhile isspace (rev (dropWhile isspace (rev s)))"
    by (rule trim_string_strip)
  show "trim_string (trim_string s) = trim_string s"
  proof (cases "trim_string s = []")
    case True
    then show ?thesis by (simp add: trim_string_def)
  next
    case False
    let ?u = "dropWhile isspace (rev s)"
    have u: "?u \<noteq> []"
    proof
      assume "?u = []"
      with t False show False by simp
    qed
    have hd_u: "\<not> isspace (hd ?u)" using u by (simp add: hd_dropWhile)
    have "last (trim_string s) = last (rev ?u)" using False t by (simp add: last_dropWhile)
    then have l: "\<not> isspace (last (trim_string s))" using hd_u u by (simp add: last_rev)
    have h: "\<not> isspace (hd (trim_string s))" using False t by (simp add: hd_dropWhile)
    from trim_string_id [OF False h l] show ?thesis .
  qed
qed

text \<open>
  C23. Round trip of the \<open>send\<close> command: the line \<open>send <id> <message>\<close>,
  with the id in decimal and a message without newline or white space at its
  ends, reaches \<open>cmd_send\<close> with that id and exactly that message, inner
  blanks included.
\<close>

theorem process_send_roundtrip:
  assumes n: "int n \<le> LONG_MAX" and m: "msg \<noteq> []" "\<not> isspace (hd msg)" "\<not> isspace (last msg)"
    and nl: "newline \<notin> set msg"
  shows "process_command (''send '' @ dec n @ '' '' @ msg) = P_command (Cmd_send (of_nat n) msg)"
proof -
  let ?l = "''send '' @ dec n @ '' '' @ msg"
  have sp: "isspace CHR '' ''" by (simp add: isspace_def)
  have ds: "\<forall>c \<in> set (dec n). \<not> isspace c" using dec_digits [of n] digit_not_space by blast
  have tr: "trim_string ?l = ?l" using m by (intro trim_string_id) (simp_all add: isspace_def)
  have hdnl: "hd msg \<noteq> newline" using m nl by (cases msg) auto
  have tw: "takeWhile (\<lambda>c. c \<noteq> newline) msg = msg" using nl by (simp add: takeWhile_eq_all_conv) blast
  have sc: "sscanf_cmd ?l = (3, ''send'', dec n, msg)"
    using sp ds m hdnl tw dec_hd [of n] digit_not_space [of "hd (dec n)"]
    by (simp add: sscanf_cmd_def skip_space_eq takeWhile_append2 dropWhile_append2 isspace_def
        dropWhile_hd_keep)
  show ?thesis using tr sc atoi_dec [OF n] by (simp add: process_command_def)
qed

theorem process_send_roundtrip_witness:
  "process_command (''send '' @ dec 42 @ '' '' @ ''hello  world'') = P_command (Cmd_send 42 ''hello  world'')"
proof -
  have "int 42 \<le> LONG_MAX" by (simp add: LONG_MAX_def)
  moreover have "\<not> isspace (hd ''hello  world'')" "\<not> isspace (last ''hello  world'')"
    by (simp_all add: isspace_def)
  moreover have "newline \<notin> set ''hello  world''" by simp
  ultimately show ?thesis using process_send_roundtrip [of 42 "''hello  world''"] by simp
qed

text \<open>
  C24. The id the operator types after \<open>terminate\<close> reaches
  \<open>cmd_terminate\<close> reduced to a signed 32-bit value: \<open>atoi\<close> truncates,
  it does not reject, numbers outside the \<open>int\<close> range.
\<close>

theorem terminate_id_wraps:
  assumes "int n \<le> LONG_MAX"
  shows "\<exists>k. process_command (''terminate '' @ dec n) = P_command (Cmd_terminate k) \<and>
             sint k = (int n + 2 ^ 31) mod 2 ^ 32 - 2 ^ 31"
proof -
  have a: "atoi (dec n) = word_of_int (int n)" using assms by (simp add: atoi_dec)
  have "sint (word_of_int (int n) :: c_int) = (int n + 2 ^ 31) mod 2 ^ 32 - 2 ^ 31"
    by (simp only: int_word_sint) simp
  with a process_terminate_dec [of n] show ?thesis by auto
qed

theorem terminate_id_wraps_witness:
  "\<exists>k. process_command (''terminate '' @ dec 4294967297) = P_command (Cmd_terminate k) \<and> sint k = 1"
proof -
  have "int 4294967297 \<le> LONG_MAX" by (simp add: LONG_MAX_def)
  from terminate_id_wraps [OF this] show ?thesis by simp
qed
text \<open>
  C25. Round trip of the \<open>connect\<close> command: the line
  \<open>connect <ip> <port>\<close>, with an address word without white space and a
  port in decimal below \<open>2^31\<close>, reaches \<open>cmd_connect\<close> with that word and
  that port unchanged.
\<close>

theorem process_connect_roundtrip:
  assumes a: "a \<noteq> []" "\<forall>c \<in> set a. \<not> isspace c" and n: "n < 2 ^ 31"
  shows "process_command (''connect '' @ a @ '' '' @ dec n) = P_command (Cmd_connect a (int n))"
proof -
  let ?l = "''connect '' @ a @ '' '' @ dec n"
  have sp: "isspace CHR '' ''" by (simp add: isspace_def)
  have ds: "\<forall>c \<in> set (dec n). \<not> isspace c" using dec_digits [of n] digit_not_space by blast
  have tr: "trim_string ?l = ?l" using ds by (intro trim_string_id) (simp_all add: isspace_def)
  have ha: "\<not> isspace (hd a)" using a by simp
  have hd: "hd (dec n) \<noteq> newline" using dec_hd [of n] by (auto simp: is_digit_def)
  have tw: "takeWhile (\<lambda>c. c \<noteq> newline) (dec n) = dec n"
    using ds by simp (auto simp: isspace_def)
  have sc: "sscanf_cmd ?l = (3, ''connect'', a, dec n)"
    using sp ds a ha hd tw dec_hd [of n] digit_not_space [of "hd (dec n)"]
    by (simp add: sscanf_cmd_def skip_space_eq takeWhile_append2 dropWhile_append2 isspace_def
        dropWhile_hd_keep)
  have le: "int n \<le> LONG_MAX" using n by (simp add: LONG_MAX_def)
  show ?thesis using tr sc atoi_dec [OF le] sint_of_nat_small [OF n] by (simp add: process_command_def)
qed

theorem process_connect_roundtrip_witness:
  "process_command (''connect '' @ ''10.0.0.1'' @ '' '' @ dec 5000) =
   P_command (Cmd_connect ''10.0.0.1'' 5000)"
proof -
  have "\<forall>c \<in> set ''10.0.0.1''. \<not> isspace c" by (simp add: isspace_def)
  moreover have "(5000::nat) < 2 ^ 31" by simp
  ultimately show ?thesis using process_connect_roundtrip [of "''10.0.0.1''" 5000] by simp
qed

text \<open>
  C26. Memory safety of the command buffers: a line \<open>fgets\<close> returns loses no
  input and fits the 256-byte \<open>command\<close> buffer with its NUL, and every word
  \<open>sscanf\<close> copies out of it fits the 256-byte \<open>cmd\<close>, \<open>arg1\<close> and \<open>arg2\<close>.
\<close>

theorem command_fields_fit:
  assumes rd: "fgets MAX_COMMAND_LENGTH inp = Some (l, rest)"
    and sc: "sscanf_cmd (trim_string (strip_newline l)) = (k, w0, w1, w2)"
  shows "l @ rest = inp \<and> length l < MAX_COMMAND_LENGTH \<and>
         length w0 < MAX_COMMAND_LENGTH \<and> length w1 < MAX_COMMAND_LENGTH \<and>
         length w2 < MAX_COMMAND_LENGTH"
proof -
  have split: "l @ rest = inp" and len: "length l \<le> MAX_COMMAND_LENGTH - 1"
    using rd fgets_take_split [of "MAX_COMMAND_LENGTH - 1" inp]
      fgets_take_length [of "MAX_COMMAND_LENGTH - 1" inp]
    by (auto simp: fgets_def split: if_splits)
  have "length (trim_string (strip_newline l)) \<le> length l"
    using length_trim_string [of "strip_newline l"] length_takeWhile_le [of _ l]
    by (simp add: strip_newline_def) (meson le_trans)
  with sscanf_cmd_fields [OF sc] len split show ?thesis
    by (simp add: MAX_COMMAND_LENGTH_def)
qed

theorem command_fields_fit_witness:
  "fst (the (fgets MAX_COMMAND_LENGTH (''send 1 hi'' @ [newline] @ ''list''))) = ''send 1 hi'' @ [newline] \<and>
   length (''send 1 hi'' @ [newline]) < MAX_COMMAND_LENGTH"
proof -
  have rd: "fgets MAX_COMMAND_LENGTH (''send 1 hi'' @ [newline] @ ''list'') = Some (''send 1 hi'' @ [newline], ''list'')"
    by code_simp
  have sc: "sscanf_cmd (trim_string (strip_newline (''send 1 hi'' @ [newline]))) = (3, ''send'', ''1'', ''hi'')"
    by code_simp
  from command_fields_fit [OF rd sc] rd show ?thesis by simp
qed

end
