(* ===== verification/Socket.thy ===== *)
theory Socket
  imports Registry
begin

text \<open>
  The socket wrappers of \<open>src/socket.c\<close> that have more than one outcome:
  \<open>create_socket\<close>, \<open>setup_listening_socket\<close> and \<open>connect_to_peer\<close>. What
  the system calls return (\<open>socket\<close>, \<open>setsockopt\<close>, \<open>bind\<close>, \<open>listen\<close>,
  \<open>connect\<close>) is an argument; the wrapper's result is its C return value, the
  socket it leaves behind, and the lines it prints and the sockets it closes,
  in order. \<open>INVALID_SOCKET\<close> is \<open>-1\<close>.
\<close>

definition create_socket :: "fd \<Rightarrow> bool \<Rightarrow> fd \<times> io_event list" where
  "create_socket sk opt_ok =
     (if sk = -1 then (-1, [Print Out_socket_failed])
      else if \<not> opt_ok then (-1, [Print Out_setsockopt_failed, Close sk])
      else (sk, []))"

text \<open>
  \<open>setup_listening_socket(port)\<close>: the return value and the value left in
  the global \<open>listen_socket\<close>.
\<close>

definition setup_listening_socket ::
  "fd \<Rightarrow> bool \<Rightarrow> bool \<Rightarrow> bool \<Rightarrow> int \<Rightarrow> int \<times> fd \<times> io_event list" where
  "setup_listening_socket sk opt_ok bind_ok listen_ok pt =
     (case create_socket sk opt_ok of
        (ls, es) \<Rightarrow>
          if ls = -1 then (-1, ls, es)
          else if \<not> bind_ok then (-1, ls, es @ [Print (Out_bind_failed pt), Close ls])
          else if \<not> listen_ok then (-1, ls, es @ [Print Out_listen_failed, Close ls])
          else (0, ls, es @ [Print (Out_listening pt)]))"

text \<open>\<open>connect_to_peer(ip, port, &sock)\<close>: the return value and \<open>*sock\<close>.\<close>

definition connect_to_peer :: "fd \<Rightarrow> bool \<Rightarrow> bool \<Rightarrow> int \<times> fd \<times> io_event list" where
  "connect_to_peer sk opt_ok conn_ok =
     (case create_socket sk opt_ok of
        (s, es) \<Rightarrow>
          if s = -1 then (-1, s, es)
          else if conn_ok then (0, s, es)
          else (-1, s, es @ [Close s]))"

lemma connect_to_peer_result:
  "connect_to_peer sk opt_ok conn_ok =
     (if sk \<noteq> -1 \<and> opt_ok \<and> conn_ok then (0, sk, [])
      else (-1, snd (connect_to_peer sk opt_ok conn_ok)))"
  by (simp add: connect_to_peer_def create_socket_def)

text \<open>
  C35. The wrappers never leak the descriptor \<open>socket\<close> returned: either
  it comes back as the result of a successful call, with nothing closed, or
  the call returns \<open>-1\<close> and has closed it.
\<close>

theorem socket_closed_unless_kept:
  assumes "sk \<noteq> -1"
  shows "(case setup_listening_socket sk opt bnd lst p of
            (r, ls, es) \<Rightarrow> if r = 0 then ls = sk \<and> Close sk \<notin> set es
                          else r = -1 \<and> Close sk \<in> set es) \<and>
         (case connect_to_peer sk opt conn of
            (r, s, es) \<Rightarrow> if r = 0 then s = sk \<and> es = [] else r = -1 \<and> Close sk \<in> set es)"
  using assms
  by (simp add: setup_listening_socket_def connect_to_peer_def create_socket_def)

theorem socket_closed_unless_kept_witness:
  "(3::int) \<noteq> -1 \<and>
   setup_listening_socket 3 True False True 4000 = (-1, 3, [Print (Out_bind_failed 4000), Close 3]) \<and>
   (case setup_listening_socket 3 True False True 4000 of
      (r, ls, es) \<Rightarrow> if r = 0 then ls = 3 \<and> Close 3 \<notin> set es else r = -1 \<and> Close 3 \<in> set es) \<and>
   (case connect_to_peer 3 True False of
      (r, s, es) \<Rightarrow> if r = 0 then s = 3 \<and> es = [] else r = -1 \<and> Close 3 \<in> set es)"
  using socket_closed_unless_kept [of 3 True False True 4000 False]
  by (simp add: setup_listening_socket_def create_socket_def)

end
