(* ===== verification/Threads.thy ===== *)
theory Threads
  imports Registry Parse Socket
begin

text \<open>
  The threads of the program and how they share the registry. The acceptor
  (\<open>accept_connections_thread\<close>), one receiver per started slot
  (\<open>handle_peer_messages_thread\<close>) and the main thread running the command
  handlers of \<open>src/command.c\<close> each have a program counter; a step is one
  thread's atomic action, named by an \<open>event\<close> that also carries what the
  environment answers (the result of \<open>accept\<close>, \<open>recv\<close>, \<open>connect\<close>,
  \<open>send\<close>, \<open>pthread_create\<close>). Every registry call is one step, as the mutex
  makes it; every read or write of shared state outside the mutex is a step
  of its own, so that any interleaving of the C threads is a list of events.
  A signal is an event too: the handler of \<open>src/signal.c\<close> runs between
  any two steps. \<open>sys_step\<close> is executable: a schedule is run by \<open>code_simp\<close>.
\<close>

section \<open>State\<close>

text \<open>
  A receiver's position in \<open>handle_peer_messages_thread(slot)\<close>: at the
  \<open>while (running)\<close> test, holding the mutex at the \<open>active\<close> test, or blocked
  in \<open>recv\<close> with the snapshot it copied out of the slot.
\<close>

datatype rcv_pc =
    R_absent
  | R_loop nat
  | R_lock nat
  | R_recv nat fd string int c_int
  | R_exit

datatype acc_pc = A_loop | A_accept | A_exit

text \<open>
  The main thread: at the \<open>while (running)\<close> test of its loop (\<open>M_idle\<close>),
  blocked in \<open>fgets\<close> (\<open>M_read\<close>), between the registry calls of one
  command, ended by \<open>exit(0)\<close> in \<open>cmd_exit\<close> (\<open>M_exited\<close>), waiting in
  \<open>pthread_join\<close> for the acceptor after the loop (\<open>M_join\<close>), or returned
  from \<open>main\<close> (\<open>M_done\<close>).
\<close>

datatype main_pc =
    M_idle
  | M_read
  | M_terminate c_int
  | M_send nat c_int string
  | M_connect string int
  | M_exit_close
  | M_exit_listen
  | M_exited
  | M_join
  | M_done

record sys =
  reg :: registry
  running :: bool
  local_ip :: string
  listen_port :: int
  listen_socket :: fd
  acc :: acc_pc
  rcv :: "tid \<Rightarrow> rcv_pc"
  main :: main_pc

datatype recv_result = Recv_data string | Recv_eof | Recv_again | Recv_error

text \<open>
  \<open>receive_message(sock, buffer, buffer_size)\<close> is \<open>recv\<close> into
  \<open>buffer_size - 1\<close> bytes: the results it can return. A positive count is
  at least one and at most \<open>buffer_size - 1\<close> bytes.
\<close>

definition receive_message :: "nat \<Rightarrow> recv_result \<Rightarrow> bool" where
  "receive_message buffer_size res \<longleftrightarrow>
     (case res of Recv_data b \<Rightarrow> b \<noteq> [] \<and> length b \<le> buffer_size - 1 | _ \<Rightarrow> True)"

text \<open>
  What the environment answers to \<open>cmd_connect\<close>: the descriptor \<open>socket\<close>
  returns, whether \<open>setsockopt\<close> and \<open>connect\<close> succeed (the arguments of
  \<open>connect_to_peer\<close>), whether \<open>pthread_create\<close> starts the receiver, and
  the thread id it gets.
\<close>

datatype dial = Dial (d_sock: fd) (d_sockopt: bool) (d_connect: bool) (d_thread: bool) (d_tid: tid)

datatype event =
    Ev_acc_loop
  | Ev_accept_fail
  | Ev_accept fd "32 word" "16 word" bool tid
  | Ev_rcv_loop tid
  | Ev_rcv_lock tid
  | Ev_rcv_result tid recv_result
  | Ev_main_loop
  | Ev_line "string option"
  | Ev_term_close
  | Ev_send_done bool
  | Ev_dial dial
  | Ev_exit_step
  | Ev_join
  | Ev_signal int

section \<open>Startup\<close>

text \<open>
  The state when \<open>main\<close> enters its command loop: registry initialised,
  \<open>running = 1\<close>, local address and listening socket set up, acceptor started.
\<close>

definition init_sys :: "string \<Rightarrow> int \<Rightarrow> fd \<Rightarrow> sys" where
  "init_sys lip lport lsock =
     \<lparr>reg = init_connections, running = True, local_ip = lip, listen_port = lport,
      listen_socket = lsock, acc = A_loop, rcv = (\<lambda>_. R_absent), main = M_idle\<rparr>"

definition sys_emit :: "sys \<Rightarrow> io_event list \<Rightarrow> sys" where
  "sys_emit s es = s\<lparr>reg := emit (reg s) es\<rparr>"

text \<open>
  \<open>add_connection\<close> together with the thread it starts: a receiver for the
  slot the call filled, at the top of its loop.
\<close>

definition add_spawn :: "sys \<Rightarrow> fd \<Rightarrow> string \<Rightarrow> int \<Rightarrow> bool \<Rightarrow> tid \<Rightarrow> c_int \<times> sys" where
  "add_spawn s sock a p created t =
     (case add_connection (reg s) sock a p created t of
        (res, r') \<Rightarrow>
          (res, s\<lparr>reg := r',
                  rcv := (case first_index (\<lambda>c. \<not> active c) (connections (reg s)) 0 of
                            Some slot \<Rightarrow> if created then (rcv s)(t := R_loop slot) else rcv s
                          | None \<Rightarrow> rcv s)\<rparr>))"

section \<open>The acceptor\<close>

text \<open>The test \<open>while (running)\<close> at the top of the acceptor's loop.\<close>

definition acc_loop :: "sys \<Rightarrow> sys" where
  [simp]: "acc_loop s = s\<lparr>acc := (if running s then A_accept else A_exit)\<rparr>"

definition accept_failed :: "sys \<Rightarrow> sys" where
  "accept_failed s =
     (sys_emit s (if running s then [Print Out_accept_failed] else []))\<lparr>acc := A_loop\<rparr>"

text \<open>
  An accepted connection: the peer's address as \<open>accept\<close> filled it in
  and its port after \<open>ntohs\<close>. The address text is what \<open>inet_ntop\<close>
  writes into \<open>client_ip\<close>; the call always succeeds (\<open>inet_ntop4_fits\<close>),
  which is why the code can ignore its result.
\<close>

definition accept_new :: "sys \<Rightarrow> fd \<Rightarrow> 32 word \<Rightarrow> 16 word \<Rightarrow> bool \<Rightarrow> tid \<Rightarrow> sys" where
  "accept_new s sock addr pt created t =
     (let a = ntop4_str addr; p = int (unat pt)
      in case add_spawn s sock a p created t of
           (res, s') \<Rightarrow>
             (sys_emit s' (if res \<noteq> -1 then [Print (Out_new_connection a p res)]
                           else [Close sock]))\<lparr>acc := A_loop\<rparr>)"

section \<open>The receivers\<close>

text \<open>
  \<open>receiver_check\<close> is the locked part of the loop body: leave if the slot is
  inactive, otherwise copy socket, address, port and id out of the slot.
\<close>

text \<open>
  The receiver for slot \<open>i\<close> (the \<open>int\<close> its argument points to) at the
  test \<open>while (running)\<close> of its loop.
\<close>

definition rcv_loop :: "sys \<Rightarrow> tid \<Rightarrow> nat \<Rightarrow> sys" where
  [simp]: "rcv_loop s t i = s\<lparr>rcv := (rcv s)(t := (if running s then R_lock i else R_exit))\<rparr>"

definition receiver_check :: "sys \<Rightarrow> tid \<Rightarrow> nat \<Rightarrow> sys" where
  "receiver_check s t i =
     (let c = connections (reg s) ! i
      in if \<not> active c then s\<lparr>rcv := (rcv s)(t := R_exit)\<rparr>
         else s\<lparr>rcv := (rcv s)(t := R_recv i (socket c) (ip c) (port c) (cid c))\<rparr>)"

text \<open>
  What the receiver does with the result of \<open>receive_message\<close>: print the
  chunk and loop; or print and \<open>remove_connection\<close> the id it copied, and
  return; \<open>EAGAIN\<close> loops.
\<close>

definition receiver_recv :: "sys \<Rightarrow> tid \<Rightarrow> nat \<Rightarrow> string \<Rightarrow> int \<Rightarrow> c_int \<Rightarrow> recv_result \<Rightarrow> sys" where
  "receiver_recv s t i a p k res =
     (case res of
        Recv_data b \<Rightarrow>
          (sys_emit s [Print (Out_message a p (takeWhile (\<lambda>c. c \<noteq> CHR 0x00) b))])
            \<lparr>rcv := (rcv s)(t := R_loop i)\<rparr>
      | Recv_again \<Rightarrow> s\<lparr>rcv := (rcv s)(t := R_loop i)\<rparr>
      | Recv_eof \<Rightarrow>
          s\<lparr>reg := remove_connection (emit (reg s) [Print (Out_peer_closed a p k)]) k,
            rcv := (rcv s)(t := R_exit)\<rparr>
      | Recv_error \<Rightarrow>
          s\<lparr>reg := remove_connection (emit (reg s) [Print (Out_connection_lost a p k)]) k,
            rcv := (rcv s)(t := R_exit)\<rparr>)"

section \<open>The command handlers\<close>

text \<open>
  The first registry call of each handler, from the idle main thread.
  \<open>cmd_connect\<close> validates and checks for a duplicate, then dials outside the
  mutex; \<open>cmd_terminate\<close> looks the id up, then closes it in a second call;
  \<open>cmd_send\<close> obtains a pointer to the slot, then writes through it after the
  mutex is released; \<open>cmd_exit\<close> clears \<open>running\<close> first.
\<close>

definition cmd_list :: "sys \<Rightarrow> sys" where
  "cmd_list s = s\<lparr>reg := print_connection_list (reg s)\<rparr>"

definition cmd_terminate :: "sys \<Rightarrow> c_int \<Rightarrow> sys" where
  "cmd_terminate s k =
     (case find_connection_by_id (reg s) k of
        None \<Rightarrow> sys_emit s [Print (Out_not_found k)]
      | Some _ \<Rightarrow> s\<lparr>main := M_terminate k\<rparr>)"

definition cmd_send :: "sys \<Rightarrow> c_int \<Rightarrow> string \<Rightarrow> sys" where
  "cmd_send s k msg =
     (if MAX_MESSAGE_LENGTH < length msg then sys_emit s [Print Out_too_long]
      else case get_connection_by_id (reg s) k of
        None \<Rightarrow> sys_emit s [Print (Out_not_found k)]
      | Some slot \<Rightarrow> s\<lparr>main := M_send slot k msg\<rparr>)"

definition cmd_connect :: "sys \<Rightarrow> string \<Rightarrow> int \<Rightarrow> sys" where
  "cmd_connect s a p =
     (if \<not> is_valid_ip a then sys_emit s [Print Out_invalid_ip]
      else if \<not> is_valid_port p then sys_emit s [Print Out_invalid_port]
      else if a = local_ip s \<and> p = listen_port s then sys_emit s [Print Out_self_connect]
      else case find_connection_by_address (reg s) a p of
        Some _ \<Rightarrow> sys_emit s [Print (Out_already_connected a p)]
      | None \<Rightarrow> s\<lparr>main := M_connect a p\<rparr>)"

definition cmd_exit :: "sys \<Rightarrow> sys" where
  "cmd_exit s = (sys_emit s [Print Out_shutting_down])\<lparr>running := False, main := M_exit_close\<rparr>"

fun command_start :: "sys \<Rightarrow> command \<Rightarrow> sys" where
  "command_start s Cmd_list = cmd_list s"
| "command_start s (Cmd_terminate k) = cmd_terminate s k"
| "command_start s (Cmd_send k msg) = cmd_send s k msg"
| "command_start s (Cmd_connect a p) = cmd_connect s a p"
| "command_start s Cmd_exit = cmd_exit s"

text \<open>
  One pass of the body of the loop of \<open>main\<close> on a line \<open>fgets\<close> returned:
  the newline cut, then \<open>process_command\<close>, which prints for \<open>help\<close>,
  \<open>myip\<close>, \<open>myport\<close>, a usage error or an unknown word, and otherwise runs
  the handler. The main thread is back at the loop test unless the handler
  has a second step.
\<close>

text \<open>\<open>cmd_help\<close>, \<open>cmd_myip\<close> and \<open>cmd_myport\<close> only print.\<close>

definition cmd_help :: "sys \<Rightarrow> sys" where
  [simp]: "cmd_help s = sys_emit s [Print Out_help]"

definition cmd_myip :: "sys \<Rightarrow> sys" where
  [simp]: "cmd_myip s = sys_emit s [Print (Out_myip (local_ip s))]"

definition cmd_myport :: "sys \<Rightarrow> sys" where
  [simp]: "cmd_myport s = sys_emit s [Print (Out_myport (listen_port s))]"

definition main_line :: "sys \<Rightarrow> string \<Rightarrow> sys" where
  "main_line s l =
     (let s0 = s\<lparr>main := M_idle\<rparr>
      in case process_command (strip_newline l) of
           P_empty \<Rightarrow> s0
         | P_help \<Rightarrow> cmd_help s0
         | P_myip \<Rightarrow> cmd_myip s0
         | P_myport \<Rightarrow> cmd_myport s0
         | P_command c \<Rightarrow> command_start s0 c
         | P_usage_connect \<Rightarrow> sys_emit s0 [Print Out_usage_connect]
         | P_usage_terminate \<Rightarrow> sys_emit s0 [Print Out_usage_terminate]
         | P_usage_send \<Rightarrow> sys_emit s0 [Print Out_usage_send]
         | P_unknown w \<Rightarrow> sys_emit s0 [Print (Out_unknown w)])"

definition terminate_close :: "sys \<Rightarrow> c_int \<Rightarrow> sys" where
  "terminate_close s k =
     s\<lparr>reg := emit (close_connection (reg s) k) [Print (Out_terminated k)], main := M_idle\<rparr>"

text \<open>
  The write of \<open>cmd_send\<close>: \<open>conn->socket\<close> is read from the slot now, not
  when the pointer was obtained.
\<close>

definition send_done :: "sys \<Rightarrow> nat \<Rightarrow> c_int \<Rightarrow> string \<Rightarrow> bool \<Rightarrow> sys" where
  "send_done s slot k msg ok =
     (let sock = socket (connections (reg s) ! slot)
      in if ok then (sys_emit s [Send sock msg, Print (Out_sent k)])\<lparr>main := M_idle\<rparr>
         else s\<lparr>reg := remove_connection (emit (reg s) [Send sock msg, Print Out_send_failed]) k,
                main := M_idle\<rparr>)"

definition dial_added :: "sys \<Rightarrow> string \<Rightarrow> int \<Rightarrow> fd \<Rightarrow> bool \<Rightarrow> tid \<Rightarrow> sys" where
  "dial_added s a p sock created t =
     (case add_spawn s sock a p created t of
        (res, s') \<Rightarrow>
          (sys_emit s' (if res \<noteq> -1 then [Print (Out_connected a p res)] else [Close sock]))
            \<lparr>main := M_idle\<rparr>)"

definition dial_ok :: "dial \<Rightarrow> bool" where
  "dial_ok d \<longleftrightarrow> \<not> fst (connect_to_peer (d_sock d) (d_sockopt d) (d_connect d)) < 0"

definition connect_done :: "sys \<Rightarrow> string \<Rightarrow> int \<Rightarrow> dial \<Rightarrow> sys" where
  "connect_done s a p d =
     (case connect_to_peer (d_sock d) (d_sockopt d) (d_connect d) of
        (r, sock, es) \<Rightarrow>
          if r < 0 then (sys_emit s (es @ [Print (Out_connect_failed a p)]))\<lparr>main := M_idle\<rparr>
          else dial_added s a p sock (d_thread d) (d_tid d))"

text \<open>The rest of \<open>cmd_exit\<close>: close every connection, then the listening socket.\<close>

definition exit_close_all :: "sys \<Rightarrow> sys" where
  "exit_close_all s = s\<lparr>reg := close_all_connections (reg s), main := M_exit_listen\<rparr>"

definition exit_close_listen :: "sys \<Rightarrow> sys" where
  "exit_close_listen s =
     (sys_emit s ((if listen_socket s \<noteq> -1 then [Close (listen_socket s)] else []) @
                  [Print Out_goodbye]))
       \<lparr>main := M_exited\<rparr>"

text \<open>
  The \<open>SIGTERM\<close> case of \<open>signal_handler\<close> (\<open>src/signal.c\<close>): it clears
  \<open>running\<close> after printing its message.
\<close>

definition sigterm :: "sys \<Rightarrow> sys" where
  "sigterm s = (sys_emit s [Print Out_sigterm])\<lparr>running := False\<rparr>"

section \<open>Signals\<close>

text \<open>
  \<open>print_prompt\<close> of \<open>src/signal.c\<close>, which the \<open>SIGINT\<close> case of the
  handler calls.
\<close>

definition print_prompt :: "io_event list" where
  [simp]: "print_prompt = [Print Out_prompt]"

text \<open>Signal numbers of Linux.\<close>

definition SIGHUP :: int where "SIGHUP = 1"
definition SIGINT :: int where "SIGINT = 2"
definition SIGPIPE :: int where "SIGPIPE = 13"
definition SIGTERM :: int where "SIGTERM = 15"

datatype disposition = Sig_default | Sig_ignore | Sig_handler

definition setup_signal_handlers :: "int \<Rightarrow> disposition" where
  "setup_signal_handlers sig =
     (if sig = SIGINT \<or> sig = SIGTERM \<or> sig = SIGHUP then Sig_handler
      else if sig = SIGPIPE then Sig_ignore
      else Sig_default)"

definition signal_handler :: "sys \<Rightarrow> int \<Rightarrow> sys" where
  "signal_handler s sig =
     (if sig = SIGINT then sys_emit s ([Print Out_interrupt, Print Out_use_exit] @ print_prompt)
      else if sig = SIGTERM then sigterm s
      else if sig = SIGHUP then sys_emit s [Print Out_hangup]
      else if sig = SIGPIPE then s
      else sys_emit s [Print (Out_signal sig)])"

text \<open>
  A signal arriving after startup: the handler runs, the signal is dropped,
  or the kernel's default action for it applies (\<open>Inr\<close>), which the
  program does not control and the thread model has no step for. The
  handler runs between two steps of the other threads.
\<close>

definition deliver_signal :: "sys \<Rightarrow> int \<Rightarrow> sys + int" where
  "deliver_signal s sig =
     (case setup_signal_handlers sig of
        Sig_handler \<Rightarrow> Inl (signal_handler s sig)
      | Sig_ignore \<Rightarrow> Inl s
      | Sig_default \<Rightarrow> Inr sig)"

section \<open>Steps\<close>

text \<open>
  One step of the thread an event names, or \<open>None\<close> when that thread cannot
  take that step. A thread started by \<open>pthread_create\<close> gets an id no thread
  has had (\<open>R_absent\<close>).
\<close>

fun thread_step :: "sys \<Rightarrow> event \<Rightarrow> sys option" where
  "thread_step s Ev_acc_loop = (if acc s = A_loop then Some (acc_loop s) else None)"
| "thread_step s Ev_accept_fail =
     (if acc s = A_accept then Some (accept_failed s) else None)"
| "thread_step s (Ev_accept sock a p created t) =
     (if acc s = A_accept \<and> rcv s t = R_absent then Some (accept_new s sock a p created t)
      else None)"
| "thread_step s (Ev_rcv_loop t) =
     (case rcv s t of
        R_loop i \<Rightarrow> Some (rcv_loop s t i)
      | _ \<Rightarrow> None)"
| "thread_step s (Ev_rcv_lock t) =
     (case rcv s t of R_lock i \<Rightarrow> Some (receiver_check s t i) | _ \<Rightarrow> None)"
| "thread_step s (Ev_rcv_result t res) =
     (case rcv s t of
        R_recv i sock a p k \<Rightarrow>
          if receive_message BUFFER_SIZE res then Some (receiver_recv s t i a p k res) else None
      | _ \<Rightarrow> None)"
| "thread_step s Ev_main_loop =
     (if main s = M_idle then Some (s\<lparr>main := (if running s then M_read else M_join)\<rparr>) else None)"
| "thread_step s (Ev_line l) =
     (if main s = M_read then
        (case l of
           None \<Rightarrow> Some (s\<lparr>main := M_idle\<rparr>)
         | Some line \<Rightarrow> if length line < MAX_COMMAND_LENGTH then Some (main_line s line) else None)
      else None)"
| "thread_step s Ev_join =
     (if main s = M_join \<and> acc s = A_exit then Some (s\<lparr>main := M_done\<rparr>) else None)"
| "thread_step s Ev_term_close =
     (case main s of M_terminate k \<Rightarrow> Some (terminate_close s k) | _ \<Rightarrow> None)"
| "thread_step s (Ev_send_done ok) =
     (case main s of M_send slot k msg \<Rightarrow> Some (send_done s slot k msg ok) | _ \<Rightarrow> None)"
| "thread_step s (Ev_dial dial) =
     (case main s of
        M_connect a p \<Rightarrow>
          if dial_ok dial
          then (if rcv s (d_tid dial) = R_absent then Some (connect_done s a p dial) else None)
          else Some (connect_done s a p dial)
      | _ \<Rightarrow> None)"
| "thread_step s Ev_exit_step =
     (case main s of
        M_exit_close \<Rightarrow> Some (exit_close_all s)
      | M_exit_listen \<Rightarrow> Some (exit_close_listen s)
      | _ \<Rightarrow> None)"
| "thread_step s (Ev_signal sig) =
     (case deliver_signal s sig of Inl s' \<Rightarrow> Some s' | Inr _ \<Rightarrow> None)"

text \<open>
  \<open>exit(0)\<close> at the end of \<open>cmd_exit\<close>, and the return from \<open>main\<close>, end
  every thread of the process.
\<close>

definition process_exited :: "sys \<Rightarrow> bool" where
  "process_exited s \<longleftrightarrow> main s = M_exited \<or> main s = M_done"

definition sys_step :: "sys \<Rightarrow> event \<Rightarrow> sys option" where
  "sys_step s e = (if process_exited s then None else thread_step s e)"

text \<open>Running a schedule: the events in order, failing at the first that is not enabled.\<close>

fun sys_run :: "sys \<Rightarrow> event list \<Rightarrow> sys option" where
  "sys_run s [] = Some s"
| "sys_run s (e # es) = (case sys_step s e of None \<Rightarrow> None | Some s' \<Rightarrow> sys_run s' es)"

text \<open>States reachable in \<open>n\<close> steps from startup.\<close>

inductive reach :: "nat \<Rightarrow> sys \<Rightarrow> bool" where
  start: "reach 0 (init_sys lip lport lsock)"
| step: "reach n s \<Longrightarrow> sys_step s e = Some s' \<Longrightarrow> reach (Suc n) s'"

section \<open>Invariant\<close>

text \<open>
  The receiver that \<open>add_connection\<close> started for the link now in slot \<open>i\<close>
  (its id is the slot's \<open>thread\<close> field) is alive, works on slot \<open>i\<close>, and
  if it holds a snapshot, the snapshot is of this link.
\<close>

definition owner_ok :: "sys \<Rightarrow> nat \<Rightarrow> bool" where
  "owner_ok s i =
     (let c = connections (reg s) ! i
      in rcv s (thread c) = R_loop i \<or> rcv s (thread c) = R_lock i \<or>
         rcv s (thread c) = R_recv i (socket c) (ip c) (port c) (cid c))"

definition receivers_own :: "sys \<Rightarrow> bool" where
  "receivers_own s \<longleftrightarrow>
     (\<forall>i < length (connections (reg s)). active (connections (reg s) ! i) \<longrightarrow> owner_ok s i)"

text \<open>
  A registry call that can only turn slots off: every slot active afterwards
  was active before with the same contents.
\<close>

definition deactivates :: "registry \<Rightarrow> registry \<Rightarrow> bool" where
  "deactivates r r' \<longleftrightarrow>
     length (connections r') = length (connections r) \<and>
     (\<forall>i < length (connections r). active (connections r' ! i) \<longrightarrow>
        connections r' ! i = connections r ! i)"

definition sys_inv :: "nat \<Rightarrow> sys \<Rightarrow> bool" where
  "sys_inv n s \<longleftrightarrow>
     wf_registry (reg s) \<and> sint (next_connection_id (reg s)) \<le> 1 + int n \<and>
     (running s \<longrightarrow> receivers_own s)"


text \<open>
  The address stored with a link fits what the code reserves for it: an IP
  string shorter than \<open>INET_ADDRSTRLEN\<close> (the \<open>ip\<close> field is
  \<open>char[INET_ADDRSTRLEN]\<close>, filled with \<open>strcpy\<close>) and a port in the
  range of \<open>sin_port\<close>.
\<close>

abbreviation peer_addr :: "connection \<Rightarrow> string \<times> int" where
  "peer_addr c \<equiv> (ip c, port c)"

definition peer_addrs :: "registry \<Rightarrow> (string \<times> int) list" where
  "peer_addrs r = map peer_addr (connections r)"

definition addr_fits :: "string \<Rightarrow> int \<Rightarrow> bool" where
  "addr_fits a p \<longleftrightarrow> length a < INET_ADDRSTRLEN \<and> 0 \<le> p \<and> p \<le> 65535"

definition addrs_fit :: "sys \<Rightarrow> bool" where
  "addrs_fit s \<longleftrightarrow>
     (\<forall>(a, p) \<in> set (peer_addrs (reg s)). addr_fits a p) \<and>
     (case main s of M_connect a p \<Rightarrow> addr_fits a p | _ \<Rightarrow> True)"

section \<open>Lemmas on the registry calls the threads make\<close>

lemma deactivates_refl [simp]: "deactivates r r"
  by (simp add: deactivates_def)

lemma deactivates_emit [simp]: "deactivates r (emit r es)"
  by (simp add: deactivates_def)

lemma deactivates_emit_left [simp]: "deactivates (emit r es) r' = deactivates r r'"
  by (simp add: deactivates_def)

lemma deactivates_emit_right [simp]: "deactivates r (emit r' es) = deactivates r r'"
  by (simp add: deactivates_def)

lemma deactivates_slot:
  "i < length (connections r) \<Longrightarrow>
   deactivates r (r\<lparr>connections := (connections r)[i := (connections r ! i)\<lparr>active := False\<rparr>]\<rparr>)"
  by (auto simp: deactivates_def nth_list_update)

lemma deactivates_remove: "deactivates r (remove_connection r k)"
  using first_index_Some_bound [of "\<lambda>c. active c \<and> cid c = k" "connections r" 0]
  by (auto simp: remove_connection_def Let_def deactivates_slot simp del: deactivates_emit_right
      split: option.split intro: deactivates_emit_right [THEN iffD2] deactivates_slot)

lemma deactivates_close: "deactivates r (close_connection r k)"
  using first_index_Some_bound [of "\<lambda>c. active c \<and> cid c = k" "connections r" 0]
  by (auto simp: close_connection_def Let_def simp del: deactivates_emit_right
      split: option.split intro: deactivates_emit_right [THEN iffD2] deactivates_slot)

lemma deactivates_close_all: "deactivates r (close_all_connections r)"
  by (simp add: deactivates_def close_all_connections_def close_all_loop_eq)

lemma deactivates_print: "deactivates r (print_connection_list r)"
  by (simp add: print_connection_list_def)

lemma next_id_unchanged [simp]:
  "next_connection_id (remove_connection r k) = next_connection_id r"
  "next_connection_id (close_connection r k) = next_connection_id r"
  "next_connection_id (close_all_connections r) = next_connection_id r"
  "next_connection_id (print_connection_list r) = next_connection_id r"
  by (simp_all add: remove_connection_def close_connection_def close_all_connections_def
      print_connection_list_def Let_def split: option.split prod.split)

lemma removed_inactive:
  assumes "wf_registry r" and "j < length (connections r)" and "cid (connections r ! j) = k"
  shows "\<not> active (connections (remove_connection r k) ! j)"
proof
  assume act: "active (connections (remove_connection r k) ! j)"
  have d: "deactivates r (remove_connection r k)" by (rule deactivates_remove)
  then have same: "connections (remove_connection r k) ! j = connections r ! j"
    and len: "j < length (connections (remove_connection r k))"
    using act assms(2) by (auto simp: deactivates_def)
  have "find_connection_by_id (remove_connection r k) k = None"
    using assms(1) by (rule find_after_remove)
  then have "\<forall>c \<in> set (connections (remove_connection r k)). \<not> (active c \<and> cid c = k)"
    by (simp add: find_connection_by_id_def first_index_None)
  with len act same assms(3) show False by (metis nth_mem)
qed


section \<open>Lemmas on single steps\<close>

lemmas command_defs = cmd_list_def cmd_terminate_def cmd_send_def cmd_connect_def cmd_exit_def
  exit_close_all_def exit_close_listen_def sigterm_def

lemmas signal_defs = SIGHUP_def SIGINT_def SIGPIPE_def SIGTERM_def

text \<open>A signal the program survives only prints, and clears \<open>running\<close> on \<open>SIGTERM\<close>.\<close>

lemma deliver_signal_Inl:
  "deliver_signal s sig = Inl s' \<Longrightarrow>
   \<exists>es. s' = (sys_emit s es)\<lparr>running := running s \<and> sig \<noteq> SIGTERM\<rparr>"
  by (auto simp: deliver_signal_def setup_signal_handlers_def signal_handler_def sigterm_def
      sys_emit_def emit_def signal_defs split: if_splits intro: exI [of _ "[]"])

lemma owner_ok_rcv_not_absent:
  "owner_ok s i \<Longrightarrow> rcv s (thread (connections (reg s) ! i)) \<noteq> R_absent"
  by (auto simp: owner_ok_def Let_def)

lemma receivers_own_passive:
  assumes "receivers_own s" and "deactivates (reg s) (reg s')" and "rcv s' = rcv s"
  shows "receivers_own s'"
  using assms by (auto simp: receivers_own_def deactivates_def owner_ok_def Let_def)

lemma receivers_own_move:
  assumes own: "receivers_own s" and d: "deactivates (reg s) (reg s')"
    and r: "rcv s' = (rcv s)(t := x)"
    and mine: "\<And>i. i < length (connections (reg s)) \<Longrightarrow> active (connections (reg s') ! i) \<Longrightarrow>
                 thread (connections (reg s) ! i) = t \<Longrightarrow> owner_ok s' i"
  shows "receivers_own s'"
  unfolding receivers_own_def
proof (intro allI impI)
  fix i assume i: "i < length (connections (reg s'))" and a: "active (connections (reg s') ! i)"
  have i0: "i < length (connections (reg s))" and same: "connections (reg s') ! i = connections (reg s) ! i"
    using d i a by (auto simp: deactivates_def)
  show "owner_ok s' i"
  proof (cases "thread (connections (reg s) ! i) = t")
    case True
    with mine [OF i0 a] show ?thesis .
  next
    case False
    have "owner_ok s i" using own i0 a same by (simp add: receivers_own_def)
    with False same r show ?thesis by (simp add: owner_ok_def Let_def)
  qed
qed

text \<open>The owner of an active slot works on that slot only.\<close>

lemma owner_slot:
  assumes "receivers_own s" and "j < length (connections (reg s))"
    and "active (connections (reg s) ! j)" and "thread (connections (reg s) ! j) = t"
  shows "rcv s t = R_loop j \<or> rcv s t = R_lock j \<or>
         rcv s t = R_recv j (socket (connections (reg s) ! j)) (ip (connections (reg s) ! j))
                       (port (connections (reg s) ! j)) (cid (connections (reg s) ! j))"
  using assms by (auto simp: receivers_own_def owner_ok_def Let_def)

lemma add_spawn_own:
  assumes own: "receivers_own s" and fresh: "rcv s t = R_absent"
  shows "receivers_own (snd (add_spawn s sock a p created t))"
proof (cases "first_index (\<lambda>c. \<not> active c) (connections (reg s)) 0")
  case None
  then show ?thesis using own
    by (simp add: add_spawn_def add_connection_full receivers_own_def owner_ok_def)
next
  case (Some slot)
  let ?cs = "connections (reg s)"
  have sl: "slot < length ?cs" using first_index_Some_bound [OF Some] by simp
  have other: "thread (?cs ! i) \<noteq> t" if "i < length ?cs" "active (?cs ! i)" for i
    using owner_ok_rcv_not_absent [of s i] own that fresh by (auto simp: receivers_own_def)
  show ?thesis
    unfolding receivers_own_def
  proof (intro allI impI)
    fix i
    assume i: "i < length (connections (reg (snd (add_spawn s sock a p created t))))"
      and act: "active (connections (reg (snd (add_spawn s sock a p created t))) ! i)"
    show "owner_ok (snd (add_spawn s sock a p created t)) i"
    proof (cases "i = slot")
      case True
      with act sl Some show ?thesis
        by (auto simp: add_spawn_def add_connection_slot owner_ok_def split: if_splits)
    next
      case False
      with i act sl Some have i0: "i < length ?cs" and a0: "active (?cs ! i)"
        by (auto simp: add_spawn_def add_connection_slot split: if_splits)
      have "owner_ok s i" using own i0 a0 by (simp add: receivers_own_def)
      with False sl Some other [OF i0 a0] show ?thesis
        by (auto simp: add_spawn_def add_connection_slot owner_ok_def Let_def)
    qed
  qed
qed


lemma receivers_own_sys_emit [simp]: "receivers_own (sys_emit s es) = receivers_own s"
  by (simp add: receivers_own_def sys_emit_def owner_ok_def)

lemma receivers_own_running [simp]: "receivers_own (s\<lparr>running := b\<rparr>) = receivers_own s"
  by (simp add: receivers_own_def owner_ok_def)

lemma receivers_own_acc_main [simp]:
  "receivers_own (s\<lparr>acc := x\<rparr>) = receivers_own s"
  "receivers_own (s\<lparr>main := y\<rparr>) = receivers_own s"
  by (simp_all add: receivers_own_def owner_ok_def)

lemma sys_step_thread: "sys_step s e = Some s' \<Longrightarrow> thread_step s e = Some s'"
  by (simp add: sys_step_def split: if_splits)

lemma command_start_table:
  "connections (reg (command_start s c)) = connections (reg s) \<and>
   next_connection_id (reg (command_start s c)) = next_connection_id (reg s) \<and>
   rcv (command_start s c) = rcv s"
  by (cases c) (simp_all add: command_defs sys_emit_def print_connection_list_def split: option.split)

lemma main_line_table:
  "connections (reg (main_line s l)) = connections (reg s) \<and>
   next_connection_id (reg (main_line s l)) = next_connection_id (reg s) \<and>
   rcv (main_line s l) = rcv s"
  using command_start_table [of "s\<lparr>main := M_idle\<rparr>"]
  by (simp add: main_line_def Let_def sys_emit_def split: parsed.split)

lemma wf_main_line [simp]: "wf_registry (reg (main_line s l)) = wf_registry (reg s)"
  using main_line_table [of s l] by (simp add: wf_registry_def)

lemma next_main_line [simp]:
  "next_connection_id (reg (main_line s l)) = next_connection_id (reg s)"
  using main_line_table [of s l] by simp

lemma receivers_own_main_line [simp]: "receivers_own (main_line s l) = receivers_own s"
  using main_line_table [of s l] by (simp add: receivers_own_def owner_ok_def)

lemma command_start_running:
  "running (command_start s c) \<longleftrightarrow> running s \<and> c \<noteq> Cmd_exit"
  by (cases c) (simp_all add: command_defs sys_emit_def split: option.split)

lemma main_line_running: "running (main_line s l) \<Longrightarrow> running s"
  by (auto simp: main_line_def Let_def sys_emit_def command_start_running split: parsed.splits)

lemma step_running:
  "thread_step s e = Some s' \<Longrightarrow> running s' \<Longrightarrow> running s"
  by (cases e)
     (auto simp: accept_failed_def accept_new_def add_spawn_def receiver_check_def
        receiver_recv_def terminate_close_def send_done_def connect_done_def dial_added_def
        sys_emit_def Let_def command_defs
        split: if_splits rcv_pc.splits main_pc.splits option.splits prod.splits
        recv_result.splits sum.splits dest: main_line_running deliver_signal_Inl)

lemma add_spawn_reg:
  assumes "wf_registry (reg s)" and "next_connection_id (reg s) \<noteq> INT_MAX"
  shows "wf_registry (reg (snd (add_spawn s sock a p created t))) \<and>
         sint (next_connection_id (reg (snd (add_spawn s sock a p created t)))) \<le>
           sint (next_connection_id (reg s)) + 1"
proof -
  have succ: "sint (next_connection_id (reg s) + 1) = sint (next_connection_id (reg s)) + 1"
    using assms by (intro sint_succ_no_wrap) (auto simp: wf_registry_def)
  have r: "reg (snd (add_spawn s sock a p created t)) = snd (add_connection (reg s) sock a p created t)"
    by (simp add: add_spawn_def split: prod.split)
  show ?thesis
    using wf_add_connection [OF assms, of sock a p created t]
      add_connection_counter [OF assms(1), of sock a p created t] succ
    by (auto simp: r)
qed


lemma wf_print [simp]: "wf_registry (print_connection_list r) = wf_registry r"
  by (simp add: print_connection_list_def)

lemma reg_accept_new:
  "\<exists>es. reg (accept_new s sock addr pt created t) =
        emit (reg (snd (add_spawn s sock (ntop4_str addr) (int (unat pt)) created t))) es"
  by (auto simp: accept_new_def sys_emit_def Let_def split: prod.split)

lemma connect_done_eq:
  "connect_done s a p d =
     (if dial_ok d then dial_added s a p (d_sock d) (d_thread d) (d_tid d)
      else (sys_emit s (snd (snd (connect_to_peer (d_sock d) (d_sockopt d) (d_connect d)))
                        @ [Print (Out_connect_failed a p)]))\<lparr>main := M_idle\<rparr>)"
  by (simp add: connect_done_def dial_ok_def connect_to_peer_def create_socket_def)

lemma connect_failed_reg:
  "\<not> dial_ok d \<Longrightarrow> \<exists>es. reg (connect_done s a p d) = emit (reg s) es"
  by (auto simp: connect_done_eq sys_emit_def)

lemma reg_dial_added:
  "\<exists>es. reg (dial_added s a p sock created t) = emit (reg (snd (add_spawn s sock a p created t))) es"
  by (auto simp: dial_added_def sys_emit_def split: prod.split)

lemma step_reg_inv:
  assumes step: "thread_step s e = Some s'" and wf: "wf_registry (reg s)"
    and nw: "next_connection_id (reg s) \<noteq> INT_MAX"
  shows "wf_registry (reg s') \<and>
         sint (next_connection_id (reg s')) \<le> sint (next_connection_id (reg s)) + 1"
proof (cases e)
  case (Ev_accept sock a p created t)
  with step have "s' = accept_new s sock a p created t" by (simp split: if_splits)
  with reg_accept_new [of s sock a p created t]
    add_spawn_reg [OF wf nw, of sock "ntop4_str a" "int (unat p)" created t]
  show ?thesis by auto
next
  case (Ev_dial d)
  from step Ev_dial obtain a p where s': "s' = connect_done s a p d"
    by (auto split: main_pc.splits if_splits)
  show ?thesis
  proof (cases "dial_ok d")
    case False
    with s' connect_failed_reg [of d s a p] wf show ?thesis by auto
  next
    case True
    obtain es where "reg (dial_added s a p (d_sock d) (d_thread d) (d_tid d)) =
                       emit (reg (snd (add_spawn s (d_sock d) a p (d_thread d) (d_tid d)))) es"
      using reg_dial_added by blast
    with s' True add_spawn_reg [OF wf nw, of "d_sock d" a p "d_thread d" "d_tid d"]
    show ?thesis by (simp add: connect_done_eq)
  qed
next
  case (Ev_line l)
  with step wf show ?thesis by (auto split: if_splits option.splits)
qed (use step wf in \<open>auto simp: command_defs accept_failed_def receiver_check_def receiver_recv_def
       terminate_close_def send_done_def sys_emit_def wf_remove_connection wf_close_connection
       wf_close_all_connections Let_def
       split: if_splits rcv_pc.splits main_pc.splits recv_result.splits sum.splits
       dest!: deliver_signal_Inl\<close>)


lemma receivers_own_accept_new:
  "receivers_own (accept_new s sock addr pt created t) =
   receivers_own (snd (add_spawn s sock (ntop4_str addr) (int (unat pt)) created t))"
  by (simp add: accept_new_def Let_def split: prod.split)

lemma receivers_own_dial_added:
  "receivers_own (dial_added s a p sock created t) =
   receivers_own (snd (add_spawn s sock a p created t))"
  by (simp add: dial_added_def split: prod.split)

lemma deactivates_remove_emit: "deactivates r (remove_connection (emit r es) k)"
  using deactivates_remove [of "emit r es" k] by simp

lemma receivers_own_reg_passive:
  "receivers_own s \<Longrightarrow> deactivates (reg s) r' \<Longrightarrow> receivers_own (s\<lparr>reg := r'\<rparr>)"
  by (rule receivers_own_passive) simp_all

lemma step_receivers_own:
  assumes step: "thread_step s e = Some s'" and wf: "wf_registry (reg s)"
    and own: "receivers_own s" and run': "running s'"
  shows "receivers_own s'"
proof (cases e)
  case (Ev_accept sock a p created t)
  with step have "s' = accept_new s sock a p created t" and "rcv s t = R_absent"
    by (simp_all split: if_splits)
  with add_spawn_own [OF own] show ?thesis by (simp add: receivers_own_accept_new)
next
  case (Ev_dial d)
  from step Ev_dial obtain a p where s': "s' = connect_done s a p d"
    and fresh: "dial_ok d \<Longrightarrow> rcv s (d_tid d) = R_absent"
    by (auto split: main_pc.splits if_splits)
  show ?thesis
  proof (cases "dial_ok d")
    case False
    with s' own show ?thesis by (simp add: connect_done_eq)
  next
    case True
    with s' add_spawn_own [OF own fresh [OF True]] show ?thesis
      by (simp add: connect_done_eq receivers_own_dial_added)
  qed
next
  case (Ev_rcv_loop t)
  with step obtain i where ri: "rcv s t = R_loop i"
    and s': "s' = s\<lparr>rcv := (rcv s)(t := (if running s then R_lock i else R_exit))\<rparr>"
    by (auto split: rcv_pc.splits)
  with run' have s'': "s' = s\<lparr>rcv := (rcv s)(t := R_lock i)\<rparr>" by auto
  show ?thesis
  proof (rule receivers_own_move [OF own _ _])
    show "deactivates (reg s) (reg s')" using s'' by simp
    show "rcv s' = (rcv s)(t := R_lock i)" using s'' by simp
  next
    fix j assume j: "j < length (connections (reg s))" "active (connections (reg s') ! j)"
      "thread (connections (reg s) ! j) = t"
    have a0: "active (connections (reg s) ! j)" using j s'' by simp
    from owner_slot [OF own j(1) a0 j(3)] ri have "j = i" by auto
    with j(3) s'' show "owner_ok s' j" by (simp add: owner_ok_def Let_def)
  qed
next
  case (Ev_rcv_lock t)
  with step obtain i where ri: "rcv s t = R_lock i" and s': "s' = receiver_check s t i"
    by (auto split: rcv_pc.splits)
  let ?c = "connections (reg s) ! i"
  show ?thesis
  proof (rule receivers_own_move [OF own _ _])
    show "deactivates (reg s) (reg s')" using s' by (simp add: receiver_check_def Let_def)
    show "rcv s' = (rcv s)(t := (if active ?c then R_recv i (socket ?c) (ip ?c) (port ?c) (cid ?c)
                                 else R_exit))"
      using s' by (simp add: receiver_check_def Let_def)
  next
    fix j assume j: "j < length (connections (reg s))" "active (connections (reg s') ! j)"
      "thread (connections (reg s) ! j) = t"
    have regs: "reg s' = reg s" using s' by (simp add: receiver_check_def Let_def)
    with j have a0: "active (connections (reg s) ! j)" by simp
    from owner_slot [OF own j(1) a0 j(3)] ri have "j = i" by auto
    with a0 j(3) s' show "owner_ok s' j"
      by (simp add: owner_ok_def receiver_check_def Let_def)
  qed
next
  case (Ev_rcv_result t res)
  with step obtain i sk a p k where ri: "rcv s t = R_recv i sk a p k"
    and s': "s' = receiver_recv s t i a p k res"
    by (auto split: rcv_pc.splits if_splits)
  show ?thesis
  proof (cases res)
    case (Recv_data b)
    show ?thesis
    proof (rule receivers_own_move [OF own _ _])
      show "deactivates (reg s) (reg s')" using s' Recv_data
        by (simp add: receiver_recv_def sys_emit_def)
      show "rcv s' = (rcv s)(t := R_loop i)" using s' Recv_data
        by (simp add: receiver_recv_def sys_emit_def)
    next
      fix j assume j: "j < length (connections (reg s))" "active (connections (reg s') ! j)"
        "thread (connections (reg s) ! j) = t"
      have "connections (reg s') = connections (reg s)" using s' Recv_data
        by (simp add: receiver_recv_def sys_emit_def)
      with owner_slot [OF own j(1)] j ri s' Recv_data show "owner_ok s' j"
        by (auto simp: owner_ok_def Let_def receiver_recv_def sys_emit_def)
    qed
  next
    case Recv_again
    show ?thesis
    proof (rule receivers_own_move [OF own _ _])
      show "deactivates (reg s) (reg s')" using s' Recv_again by (simp add: receiver_recv_def)
      show "rcv s' = (rcv s)(t := R_loop i)" using s' Recv_again by (simp add: receiver_recv_def)
    next
      fix j assume j: "j < length (connections (reg s))" "active (connections (reg s') ! j)"
        "thread (connections (reg s) ! j) = t"
      with owner_slot [OF own j(1)] ri s' Recv_again show "owner_ok s' j"
        by (auto simp: owner_ok_def Let_def receiver_recv_def)
    qed
  next
    case Recv_eof
    then have ex: "\<exists>es. reg s' = remove_connection (emit (reg s) es) k \<and> rcv s' = (rcv s)(t := R_exit)"
      using s' by (auto simp: receiver_recv_def)
    then obtain es where r': "reg s' = remove_connection (emit (reg s) es) k"
      and rc: "rcv s' = (rcv s)(t := R_exit)" by blast
    show ?thesis
    proof (rule receivers_own_move [OF own _ rc])
      show "deactivates (reg s) (reg s')" using r' deactivates_remove [of "emit (reg s) es" k] by simp
    next
      fix j assume j: "j < length (connections (reg s))" "active (connections (reg s') ! j)"
        "thread (connections (reg s) ! j) = t"
      have d: "deactivates (reg s) (reg s')" using r' deactivates_remove [of "emit (reg s) es" k] by simp
      with j have a0: "active (connections (reg s) ! j)" by (auto simp: deactivates_def)
      with owner_slot [OF own j(1) a0 j(3)] ri have "k = cid (connections (reg s) ! j)" by auto
      with removed_inactive [of "emit (reg s) es" j k] wf j(1) r' j(2) show "owner_ok s' j"
        by simp
    qed
  next
    case Recv_error
    then have ex: "\<exists>es. reg s' = remove_connection (emit (reg s) es) k \<and> rcv s' = (rcv s)(t := R_exit)"
      using s' by (auto simp: receiver_recv_def)
    then obtain es where r': "reg s' = remove_connection (emit (reg s) es) k"
      and rc: "rcv s' = (rcv s)(t := R_exit)" by blast
    show ?thesis
    proof (rule receivers_own_move [OF own _ rc])
      show "deactivates (reg s) (reg s')" using r' deactivates_remove [of "emit (reg s) es" k] by simp
    next
      fix j assume j: "j < length (connections (reg s))" "active (connections (reg s') ! j)"
        "thread (connections (reg s) ! j) = t"
      have d: "deactivates (reg s) (reg s')" using r' deactivates_remove [of "emit (reg s) es" k] by simp
      with j have a0: "active (connections (reg s) ! j)" by (auto simp: deactivates_def)
      with owner_slot [OF own j(1) a0 j(3)] ri have "k = cid (connections (reg s) ! j)" by auto
      with removed_inactive [of "emit (reg s) es" j k] wf j(1) r' j(2) show "owner_ok s' j"
        by simp
    qed
  qed
next
  case (Ev_line l)
  with step own show ?thesis by (auto split: if_splits option.splits)
next
  case Ev_term_close
  with step own show ?thesis
    by (auto simp: terminate_close_def deactivates_close receivers_own_reg_passive
        split: main_pc.splits)
next
  case (Ev_send_done ok)
  with step own show ?thesis
    by (auto simp: send_done_def sys_emit_def deactivates_remove_emit receivers_own_reg_passive Let_def
        split: main_pc.splits)
next
  case Ev_exit_step
  with step own show ?thesis
    by (auto simp: command_defs sys_emit_def deactivates_close_all receivers_own_reg_passive
        split: main_pc.splits)
qed (use step own run' in \<open>auto simp: accept_failed_def split: if_splits sum.splits dest!: deliver_signal_Inl\<close>)

lemma sys_run_reach:
  "reach n s \<Longrightarrow> sys_run s es = Some s' \<Longrightarrow> reach (n + length es) s'"
proof (induction es arbitrary: n s)
  case Nil
  then show ?case by simp
next
  case (Cons e es)
  from Cons.prems(2) obtain s1 where e: "sys_step s e = Some s1" and rest: "sys_run s1 es = Some s'"
    by (auto split: option.splits)
  have "reach (Suc n) s1" using Cons.prems(1) e by (rule reach.step)
  from Cons.IH [OF this rest] show ?case by simp
qed

lemma receivers_own_init: "receivers_own (init_sys lip lport lsock)"
  by (simp add: receivers_own_def init_sys_def init_connections_def empty_connection_def)

lemma reach_sys_inv:
  "reach n s \<Longrightarrow> n < 2147483646 \<Longrightarrow> sys_inv n s"
proof (induction rule: reach.induct)
  case (start lip lport lsock)
  show ?case
    using wf_init receivers_own_init
    by (simp add: sys_inv_def init_sys_def init_connections_def)
next
  case (step n s e s')
  then have inv: "sys_inv n s" by simp
  then have wf: "wf_registry (reg s)" and cnt: "sint (next_connection_id (reg s)) \<le> 1 + int n"
    and own: "running s \<longrightarrow> receivers_own s"
    by (simp_all add: sys_inv_def)
  have nw: "next_connection_id (reg s) \<noteq> INT_MAX" using cnt step.prems by auto
  have ts: "thread_step s e = Some s'" using step.hyps(2) by (rule sys_step_thread)
  note r = step_reg_inv [OF ts wf nw]
  have "running s' \<longrightarrow> receivers_own s'"
    using own step_running [OF ts] step_receivers_own [OF ts wf] by blast
  with r cnt show ?case by (simp add: sys_inv_def)
qed


lemma sys_run_init_reach:
  "sys_run (init_sys lip lport lsock) es = Some s \<Longrightarrow> reach (length es) s"
  using sys_run_reach [OF reach.start] by fastforce

lemma map_option_Some_obtain:
  "map_option f x = Some v \<Longrightarrow> (\<And>s. x = Some s \<Longrightarrow> f s = v \<Longrightarrow> P) \<Longrightarrow> P"
  by (cases x) auto

section \<open>The address invariant\<close>

lemma addr_list_deactivate:
  "i < length cs \<Longrightarrow> map peer_addr (cs[i := (cs ! i)\<lparr>active := False\<rparr>]) = map peer_addr cs"
proof -
  assume i: "i < length cs"
  then have "(map peer_addr cs)[i := peer_addr (cs ! i)] = map peer_addr cs"
    by (simp add: list_update_same_conv)
  then show ?thesis by (simp add: map_update)
qed

lemma peer_addrs_remove [simp]: "peer_addrs (remove_connection r k) = peer_addrs r"
  unfolding peer_addrs_def
  using first_index_Some_bound [of "\<lambda>c. active c \<and> cid c = k" "connections r" 0]
  by (auto simp: remove_connection_def Let_def addr_list_deactivate split: option.split)

lemma peer_addrs_close [simp]: "peer_addrs (close_connection r k) = peer_addrs r"
  unfolding peer_addrs_def
  using first_index_Some_bound [of "\<lambda>c. active c \<and> cid c = k" "connections r" 0]
  by (auto simp: close_connection_def Let_def addr_list_deactivate split: option.split)

lemma peer_addrs_close_all [simp]: "peer_addrs (close_all_connections r) = peer_addrs r"
  by (simp add: peer_addrs_def close_all_connections_def close_all_loop_eq)

lemma peer_addrs_print [simp]: "peer_addrs (print_connection_list r) = peer_addrs r"
  by (simp add: peer_addrs_def print_connection_list_def)

lemma peer_addrs_emit [simp]: "peer_addrs (emit r es) = peer_addrs r"
  by (simp add: peer_addrs_def)

lemma peer_addrs_add:
  "set (peer_addrs (snd (add_connection r sock a p created t))) \<subseteq> insert (a, p) (set (peer_addrs r))"
proof (cases "first_index (\<lambda>c. \<not> active c) (connections r) 0")
  case None
  then show ?thesis by (auto simp: peer_addrs_def add_connection_full)
next
  case (Some slot)
  have "peer_addrs (snd (add_connection r sock a p created t)) = (peer_addrs r)[slot := (a, p)]"
    by (simp add: peer_addrs_def add_connection_slot [OF Some] map_update)
  then show ?thesis by (metis set_update_subset_insert)
qed

lemma ntop4_str_fits: "length (ntop4_str w) < INET_ADDRSTRLEN"
  using inet_ntop4_fits [of w] by (simp add: inet_ntop4_def Let_def split: if_splits)

lemma accept_addr_fits: "addr_fits (ntop4_str w) (int (unat (pt :: 16 word)))"
  using ntop4_str_fits [of w] unat16_bound [of pt] by (simp add: addr_fits_def)

lemma valid_addr_fits: "is_valid_ip a \<Longrightarrow> is_valid_port p \<Longrightarrow> addr_fits a p"
  by (auto simp: addr_fits_def is_valid_port_def INET_ADDRSTRLEN_def dest!: is_valid_ip_length)

lemma main_line_connect:
  "main (main_line s l) = M_connect a p \<Longrightarrow> is_valid_ip a \<and> is_valid_port p"
proof (cases "process_command (strip_newline l)")
  case (P_command c)
  then show "main (main_line s l) = M_connect a p \<Longrightarrow> is_valid_ip a \<and> is_valid_port p"
    by (cases c) (auto simp: main_line_def Let_def command_defs sys_emit_def split: option.splits if_splits)
qed (auto simp: main_line_def Let_def sys_emit_def)

lemma reg_add_spawn:
  "reg (snd (add_spawn s sock a p created t)) = snd (add_connection (reg s) sock a p created t)"
  by (simp add: add_spawn_def split: prod.split)

lemma addrs_fit_add_spawn:
  assumes fit: "addrs_fit s" and new: "addr_fits a p"
    and r: "reg s' = emit (reg (snd (add_spawn s sock a p created t))) es"
    and m: "main s' = main s \<or> main s' = M_idle"
  shows "addrs_fit s'"
proof -
  have "set (peer_addrs (reg s')) \<subseteq> insert (a, p) (set (peer_addrs (reg s)))"
    using r peer_addrs_add [of "reg s" sock a p created t] by (simp add: reg_add_spawn)
  then have "\<forall>(b, q) \<in> set (peer_addrs (reg s')). addr_fits b q"
    using fit new by (auto simp: addrs_fit_def)
  moreover have "case main s' of M_connect a p \<Rightarrow> addr_fits a p | _ \<Rightarrow> True"
    using m fit by (auto simp: addrs_fit_def)
  ultimately show ?thesis by (simp add: addrs_fit_def)
qed

lemma step_addrs_fit:
  assumes step: "thread_step s e = Some s'" and fit: "addrs_fit s"
  shows "addrs_fit s'"
proof (cases e)
  case (Ev_accept sock addr pt created t)
  with step have s': "s' = accept_new s sock addr pt created t" by (simp split: if_splits)
  obtain es where r: "reg s' = emit (reg (snd (add_spawn s sock (ntop4_str addr) (int (unat pt)) created t))) es"
    using reg_accept_new [of s sock addr pt created t] s' by blast
  have m: "main s' = main s"
    using s' by (simp add: accept_new_def Let_def add_spawn_def sys_emit_def split: prod.split)
  show ?thesis by (rule addrs_fit_add_spawn [OF fit accept_addr_fits r]) (simp add: m)
next
  case (Ev_dial d)
  from step Ev_dial obtain a p where m: "main s = M_connect a p" and s': "s' = connect_done s a p d"
    by (auto split: main_pc.splits if_splits)
  have la: "addr_fits a p" using fit m by (simp add: addrs_fit_def)
  have mi: "main s' = M_idle" using s'
    by (simp add: connect_done_eq dial_added_def sys_emit_def split: prod.split)
  show ?thesis
  proof (cases "dial_ok d")
    case False
    with s' mi fit show ?thesis by (simp add: addrs_fit_def connect_done_eq sys_emit_def)
  next
    case True
    obtain es where "reg (dial_added s a p (d_sock d) (d_thread d) (d_tid d)) =
                       emit (reg (snd (add_spawn s (d_sock d) a p (d_thread d) (d_tid d)))) es"
      using reg_dial_added by blast
    with s' mi True show ?thesis
      by (intro addrs_fit_add_spawn [OF fit la]) (simp_all add: connect_done_eq)
  qed
next
  case (Ev_line l)
  show ?thesis
  proof (cases l)
    case None
    with step Ev_line fit show ?thesis by (auto simp: addrs_fit_def split: if_splits)
  next
    case (Some line)
    with step Ev_line have s': "s' = main_line s line" by (simp split: if_splits)
    have "case main s' of M_connect a p \<Rightarrow> addr_fits a p | _ \<Rightarrow> True"
      using s' main_line_connect [of s line] valid_addr_fits by (auto split: main_pc.split)
    with s' fit main_line_table [of s line] show ?thesis by (simp add: addrs_fit_def peer_addrs_def)
  qed
qed (use step fit in \<open>auto simp: addrs_fit_def accept_failed_def receiver_check_def
       receiver_recv_def terminate_close_def send_done_def sys_emit_def command_defs Let_def
       split: if_splits rcv_pc.splits main_pc.splits recv_result.splits sum.splits
       dest!: deliver_signal_Inl\<close>)

lemma reach_addrs_fit: "reach n s \<Longrightarrow> addrs_fit s"
proof (induction rule: reach.induct)
  case (start lip lport lsock)
  show ?case
    by (simp add: addrs_fit_def addr_fits_def peer_addrs_def init_sys_def init_connections_def
        empty_connection_def INET_ADDRSTRLEN_def)
next
  case (step n s e s')
  from step_addrs_fit [OF sys_step_thread [OF step.hyps(2)] step.IH] show ?case .
qed

section \<open>Properties\<close>

text \<open>
  C15. While the program runs, every active link has the receiver thread
  \<open>add_connection\<close> started for it (the slot's \<open>thread\<close>) alive and working
  on that slot, and when that receiver holds a snapshot it is of this link:
  in every state reachable in fewer than \<open>2^31 - 2\<close> steps.
\<close>

theorem reach_receivers_own:
  assumes "reach n s" and "n < 2147483646" and "running s"
    and "i < length (connections (reg s))" and "active (connections (reg s) ! i)"
  shows "owner_ok s i"
  using reach_sys_inv [OF assms(1,2)] assms(3-5) by (simp add: sys_inv_def receivers_own_def)

theorem reach_receivers_own_witness:
  "\<exists>s. reach 2 s \<and> running s \<and> active (connections (reg s) ! 0) \<and> owner_ok s 0"
proof -
  have "map_option (\<lambda>s. (running s, 0 < length (connections (reg s)), active (connections (reg s) ! 0)))
          (sys_run (init_sys ''10.0.0.9'' 4000 3) [Ev_acc_loop, Ev_accept 5 0x0A000001 6000 True 1]) =
        Some (True, True, True)"
    by code_simp
  then obtain s where run: "sys_run (init_sys ''10.0.0.9'' 4000 3)
      [Ev_acc_loop, Ev_accept 5 0x0A000001 6000 True 1] = Some s"
    and p: "running s" "0 < length (connections (reg s))" "active (connections (reg s) ! 0)"
    by (rule map_option_Some_obtain) auto
  have r: "reach 2 s" using sys_run_init_reach [OF run] by (simp add: eval_nat_numeral)
  from reach_receivers_own [OF r _ p] r p show ?thesis by auto
qed

text \<open>
  C16. Under any interleaving of the threads, the active links carry
  pairwise distinct positive ids and the table keeps its 50 slots, in every
  state reachable in fewer than \<open>2^31 - 2\<close> steps.
\<close>

theorem reach_ids_distinct:
  assumes "reach n s" and "n < 2147483646"
  shows "distinct (map cid (filter active (connections (reg s)))) \<and>
         (\<forall>c \<in> set (connections (reg s)). active c \<longrightarrow> 0 < sint (cid c)) \<and>
         length (connections (reg s)) = MAX_CONNECTIONS"
  using reach_sys_inv [OF assms] by (simp add: sys_inv_def wf_registry_def)

theorem reach_ids_distinct_witness:
  "\<exists>s. reach 4 s \<and> map cid (filter active (connections (reg s))) = [1, 2]"
proof -
  have "map_option (\<lambda>s. map cid (filter active (connections (reg s))))
          (sys_run (init_sys ''10.0.0.9'' 4000 3)
             [Ev_acc_loop, Ev_accept 5 0x0A000001 6000 True 1,
              Ev_acc_loop, Ev_accept 6 0x0A000002 6001 True 2]) = Some [1, 2]"
    by code_simp
  then obtain s where run: "sys_run (init_sys ''10.0.0.9'' 4000 3)
             [Ev_acc_loop, Ev_accept 5 0x0A000001 6000 True 1,
              Ev_acc_loop, Ev_accept 6 0x0A000002 6001 True 2] = Some s"
    and ids: "map cid (filter active (connections (reg s))) = [1, 2]"
    by (rule map_option_Some_obtain)
  have r: "reach 4 s" using sys_run_init_reach [OF run] by (simp add: eval_nat_numeral)
  from reach_ids_distinct [OF r] r ids show ?thesis by auto
qed

text \<open>
  C17. A receiver is bound to a slot, not to a link. If its \<open>recv\<close> returns
  data and, before it loops, the link is terminated and an accepted
  connection reuses the slot, the old receiver takes the new link's snapshot:
  two receiver threads then read the same socket.
\<close>

theorem receivers_share_socket:
  "\<exists>s. reach 14 s \<and> thread (connections (reg s) ! 0) = 2 \<and>
       rcv s 1 = R_recv 0 6 ''10.0.0.2'' 6001 2 \<and> rcv s 2 = R_recv 0 6 ''10.0.0.2'' 6001 2"
proof -
  let ?es = "[Ev_acc_loop, Ev_accept 5 0x0A000001 6000 True 1,
              Ev_rcv_loop 1, Ev_rcv_lock 1, Ev_rcv_result 1 (Recv_data ''hi''),
              Ev_main_loop, Ev_line (Some ''terminate 1''), Ev_term_close,
              Ev_acc_loop, Ev_accept 6 0x0A000002 6001 True 2,
              Ev_rcv_loop 1, Ev_rcv_lock 1, Ev_rcv_loop 2, Ev_rcv_lock 2]"
  have "map_option (\<lambda>s. (thread (connections (reg s) ! 0), rcv s 1, rcv s 2))
          (sys_run (init_sys ''10.0.0.9'' 4000 3) ?es) =
        Some (2, R_recv 0 6 ''10.0.0.2'' 6001 2, R_recv 0 6 ''10.0.0.2'' 6001 2)"
    by code_simp
  then obtain s where run: "sys_run (init_sys ''10.0.0.9'' 4000 3) ?es = Some s"
    and p: "(thread (connections (reg s) ! 0), rcv s 1, rcv s 2) =
            (2, R_recv 0 6 ''10.0.0.2'' 6001 2, R_recv 0 6 ''10.0.0.2'' 6001 2)"
    by (rule map_option_Some_obtain)
  have "reach (length ?es) s" by (rule sys_run_init_reach [OF run])
  with p show ?thesis by (intro exI [of _ s]) (simp add: eval_nat_numeral)
qed

text \<open>
  C18. \<open>cmd_send\<close> writes through the pointer \<open>get_connection_by_id\<close>
  returned after the mutex is released. If the peer of link 1 closes and an
  accepted connection takes its slot in between, the message goes to the new
  peer's socket while the operator is told it was sent to connection 1.
\<close>

theorem send_through_reused_slot:
  "\<exists>s. reach 10 s \<and>
       drop 6 (io (reg s)) = [Send 6 ''hello'', Print (Out_sent 1)] \<and>
       listing (reg s) = [(2, ''10.0.0.2'', 6001)] \<and> socket (connections (reg s) ! 0) = 6"
proof -
  let ?es = "[Ev_acc_loop, Ev_accept 5 0x0A000001 6000 True 1,
              Ev_main_loop, Ev_line (Some ''send 1 hello''),
              Ev_rcv_loop 1, Ev_rcv_lock 1, Ev_rcv_result 1 Recv_eof,
              Ev_acc_loop, Ev_accept 6 0x0A000002 6001 True 2,
              Ev_send_done True]"
  have "map_option (\<lambda>s. (drop 6 (io (reg s)), listing (reg s), socket (connections (reg s) ! 0)))
          (sys_run (init_sys ''10.0.0.9'' 4000 3) ?es) =
        Some ([Send 6 ''hello'', Print (Out_sent 1)], [(2, ''10.0.0.2'', 6001)], 6)"
    by code_simp
  then obtain s where run: "sys_run (init_sys ''10.0.0.9'' 4000 3) ?es = Some s"
    and p: "(drop 6 (io (reg s)), listing (reg s), socket (connections (reg s) ! 0)) =
            ([Send 6 ''hello'', Print (Out_sent 1)], [(2, ''10.0.0.2'', 6001)], 6)"
    by (rule map_option_Some_obtain)
  have "reach (length ?es) s" by (rule sys_run_init_reach [OF run])
  with p show ?thesis by (intro exI [of _ s]) (simp add: eval_nat_numeral)
qed

text \<open>
  C19. The duplicate check of \<open>cmd_connect\<close> and its \<open>add_connection\<close> are two
  critical sections, and the acceptor inserts without any check: an inbound
  connection from the same endpoint accepted while the main thread dials
  leaves two active links to one endpoint (spec invariant I2).
\<close>

theorem duplicate_endpoint_reachable:
  "\<exists>s. reach 5 s \<and> listing (reg s) = [(1, ''10.0.0.1'', 5000), (2, ''10.0.0.1'', 5000)]"
proof -
  let ?es = "[Ev_main_loop, Ev_line (Some ''connect 10.0.0.1 5000''), Ev_acc_loop,
              Ev_accept 5 0x0A000001 5000 True 1, Ev_dial (Dial 6 True True True 2)]"
  have "map_option (\<lambda>s. listing (reg s)) (sys_run (init_sys ''10.0.0.9'' 4000 3) ?es) =
        Some [(1, ''10.0.0.1'', 5000), (2, ''10.0.0.1'', 5000)]"
    by code_simp
  then obtain s where run: "sys_run (init_sys ''10.0.0.9'' 4000 3) ?es = Some s"
    and p: "listing (reg s) = [(1, ''10.0.0.1'', 5000), (2, ''10.0.0.1'', 5000)]"
    by (rule map_option_Some_obtain)
  have "reach (length ?es) s" by (rule sys_run_init_reach [OF run])
  with p show ?thesis by (intro exI [of _ s]) (simp add: eval_nat_numeral)
qed

text \<open>
  C20. \<open>cmd_exit\<close> closes all connections before it closes the listening
  socket, so a connection the acceptor had already accepted is inserted after
  \<open>close_all_connections\<close> and is still active when the exit sequence ends.
\<close>

theorem link_added_after_close_all:
  "\<exists>s. reach 6 s \<and> main s = M_exited \<and> \<not> running s \<and>
       listing (reg s) = [(1, ''10.0.0.1'', 6000)]"
proof -
  let ?es = "[Ev_acc_loop, Ev_main_loop, Ev_line (Some ''exit''), Ev_exit_step,
              Ev_accept 5 0x0A000001 6000 True 1, Ev_exit_step]"
  have "map_option (\<lambda>s. (main s, running s, listing (reg s)))
          (sys_run (init_sys ''10.0.0.9'' 4000 3) ?es) =
        Some (M_exited, False, [(1, ''10.0.0.1'', 6000)])"
    by code_simp
  then obtain s where run: "sys_run (init_sys ''10.0.0.9'' 4000 3) ?es = Some s"
    and p: "(main s, running s, listing (reg s)) = (M_exited, False, [(1, ''10.0.0.1'', 6000)])"
    by (rule map_option_Some_obtain)
  have "reach (length ?es) s" by (rule sys_run_init_reach [OF run])
  with p show ?thesis by (intro exI [of _ s]) (simp add: eval_nat_numeral)
qed

text \<open>
  C27. The \<open>SIGTERM\<close> path of shutdown differs from \<open>exit\<close>: the handler
  only clears \<open>running\<close>, the main loop ends, and \<open>main\<close> joins the
  acceptor and returns without \<open>close_all_connections\<close> and without
  closing the listening socket, so links are still active when the process
  ends (the spec has shutdown force every handle closed). The join itself
  waits until the acceptor's blocked \<open>accept\<close> returns.
\<close>

theorem sigterm_exit_leaves_links_open:
  "\<exists>s. reach 6 s \<and> main s = M_done \<and> listen_socket s = 3 \<and> Close 3 \<notin> set (io (reg s)) \<and>
       listing (reg s) = [(1, ''10.0.0.1'', 6000)]"
proof -
  let ?es = "[Ev_acc_loop, Ev_accept 5 0x0A000001 6000 True 1, Ev_signal SIGTERM,
              Ev_main_loop, Ev_acc_loop, Ev_join]"
  have "map_option (\<lambda>s. (main s, listen_socket s, Close 3 \<in> set (io (reg s)), listing (reg s)))
          (sys_run (init_sys ''10.0.0.9'' 4000 3) ?es) =
        Some (M_done, 3, False, [(1, ''10.0.0.1'', 6000)])"
    by code_simp
  then obtain s where run: "sys_run (init_sys ''10.0.0.9'' 4000 3) ?es = Some s"
    and p: "(main s, listen_socket s, Close 3 \<in> set (io (reg s)), listing (reg s)) =
            (M_done, 3, False, [(1, ''10.0.0.1'', 6000)])"
    by (rule map_option_Some_obtain)
  have "reach (length ?es) s" by (rule sys_run_init_reach [OF run])
  with p show ?thesis by (intro exI [of _ s]) (simp add: eval_nat_numeral)
qed

text \<open>
  C33. In every reachable state, the IP string of every slot, with its
  terminating NUL, fits the \<open>INET_ADDRSTRLEN\<close> bytes of the \<open>ip\<close> field:
  the acceptor stores what \<open>inet_ntop\<close> printed, \<open>cmd_connect\<close> only
  dials addresses \<open>is_valid_ip\<close> accepted, so the \<open>strcpy\<close> in
  \<open>add_connection\<close> never writes past the field.
\<close>

theorem reach_ip_fits_buffer:
  assumes "reach n s" and "c \<in> set (connections (reg s))"
  shows "length (ip c) + 1 \<le> INET_ADDRSTRLEN"
  using reach_addrs_fit [OF assms(1)] assms(2) by (force simp: addrs_fit_def addr_fits_def peer_addrs_def)

theorem reach_ip_fits_buffer_witness:
  "\<exists>s. reach 2 s \<and> connections (reg s) ! 0 \<in> set (connections (reg s)) \<and>
       ip (connections (reg s) ! 0) = ''10.0.0.1'' \<and>
       length (ip (connections (reg s) ! 0)) + 1 \<le> INET_ADDRSTRLEN"
proof -
  have "map_option (\<lambda>s. (0 < length (connections (reg s)), ip (connections (reg s) ! 0)))
          (sys_run (init_sys ''10.0.0.9'' 4000 3) [Ev_acc_loop, Ev_accept 5 0x0A000001 6000 True 1]) =
        Some (True, ''10.0.0.1'')"
    by code_simp
  then obtain s where run: "sys_run (init_sys ''10.0.0.9'' 4000 3)
      [Ev_acc_loop, Ev_accept 5 0x0A000001 6000 True 1] = Some s"
    and p: "(0 < length (connections (reg s)), ip (connections (reg s) ! 0)) = (True, ''10.0.0.1'')"
    by (rule map_option_Some_obtain)
  have r: "reach 2 s" using sys_run_init_reach [OF run] by (simp add: eval_nat_numeral)
  have m: "connections (reg s) ! 0 \<in> set (connections (reg s))" using p by simp
  from reach_ip_fits_buffer [OF r m] r m p show ?thesis by auto
qed

text \<open>
  C34. In every reachable state, the port of every slot is a 16-bit value:
  an accepted peer's port is \<open>ntohs\<close> of \<open>sin_port\<close>, a dialled one passed
  \<open>is_valid_port\<close>.
\<close>

theorem reach_port_in_range:
  assumes "reach n s" and "c \<in> set (connections (reg s))"
  shows "port c \<in> {0..65535}"
  using reach_addrs_fit [OF assms(1)] assms(2) by (force simp: addrs_fit_def addr_fits_def peer_addrs_def)

theorem reach_port_in_range_witness:
  "\<exists>s. reach 2 s \<and> connections (reg s) ! 0 \<in> set (connections (reg s)) \<and>
       port (connections (reg s) ! 0) = 6000 \<and> port (connections (reg s) ! 0) \<in> {0..65535}"
proof -
  have "map_option (\<lambda>s. (0 < length (connections (reg s)), port (connections (reg s) ! 0)))
          (sys_run (init_sys ''10.0.0.9'' 4000 3) [Ev_acc_loop, Ev_accept 5 0x0A000001 6000 True 1]) =
        Some (True, 6000)"
    by code_simp
  then obtain s where run: "sys_run (init_sys ''10.0.0.9'' 4000 3)
      [Ev_acc_loop, Ev_accept 5 0x0A000001 6000 True 1] = Some s"
    and p: "(0 < length (connections (reg s)), port (connections (reg s) ! 0)) = (True, 6000)"
    by (rule map_option_Some_obtain)
  have r: "reach 2 s" using sys_run_init_reach [OF run] by (simp add: eval_nat_numeral)
  have m: "connections (reg s) ! 0 \<in> set (connections (reg s))" using p by simp
  from reach_port_in_range [OF r m] r m p show ?thesis by auto
qed

end
