(* ===== verification/MainLoop.thy ===== *)
theory MainLoop
  imports Threads
begin

text \<open>
  The main thread alone, as the loop of \<open>main\<close> in \<open>src/main.c\<close> runs it
  over the whole of its standard input: \<open>while (running)\<close>, \<open>fgets\<close> of at
  most 255 characters, and the command the line names, completed by its
  second step. What the other threads and the network do is fixed by a
  \<open>world\<close>: the outcome of \<open>connect\<close> and of \<open>send\<close>. The loop does not end
  by itself, so it is a \<open>partial_function (option)\<close>: \<open>None\<close> is a loop that
  never returns. \<open>main_fuel\<close> is the same loop with a step bound, used to
  evaluate concrete inputs; whatever it returns the loop returns.
\<close>

record world =
  w_dial :: "sys \<Rightarrow> string \<Rightarrow> int \<Rightarrow> dial"
  w_send :: "sys \<Rightarrow> fd \<Rightarrow> string \<Rightarrow> bool"

text \<open>
  The next step of the main thread and the input left after it: a \<open>fgets\<close>
  at the read, the world's answer where the handler waits for the network.
\<close>

definition main_event :: "world \<Rightarrow> sys \<Rightarrow> string \<Rightarrow> event \<times> string" where
  "main_event w s inp =
     (case main s of
        M_idle \<Rightarrow> (Ev_main_loop, inp)
      | M_read \<Rightarrow>
          (case fgets MAX_COMMAND_LENGTH inp of
             None \<Rightarrow> (Ev_line None, inp)
           | Some (l, rest) \<Rightarrow> (Ev_line (Some l), rest))
      | M_terminate k \<Rightarrow> (Ev_term_close, inp)
      | M_send slot k msg \<Rightarrow> (Ev_send_done (w_send w s (socket (connections (reg s) ! slot)) msg), inp)
      | M_connect a p \<Rightarrow> (Ev_dial (w_dial w s a p), inp)
      | M_exit_close \<Rightarrow> (Ev_exit_step, inp)
      | M_exit_listen \<Rightarrow> (Ev_exit_step, inp)
      | M_exited \<Rightarrow> (Ev_join, inp)
      | M_join \<Rightarrow> (Ev_join, inp)
      | M_done \<Rightarrow> (Ev_join, inp))"

text \<open>
  The loop. A step that is not enabled (\<open>pthread_join\<close> while the acceptor
  runs) leaves the state as it is, so a main thread blocked for good is a loop
  that does not return.
\<close>

partial_function (option) main_loop :: "world \<Rightarrow> sys \<Rightarrow> string \<Rightarrow> sys option" where
  "main_loop w s inp =
     (if process_exited s then Some s
      else
        (case main_event w s inp of
           (e, inp') \<Rightarrow>
             (case sys_step s e of
                Some s' \<Rightarrow> main_loop w s' inp'
              | None \<Rightarrow> main_loop w s inp')))"

fun main_fuel :: "nat \<Rightarrow> world \<Rightarrow> sys \<Rightarrow> string \<Rightarrow> sys option" where
  "main_fuel 0 w s inp = None"
| "main_fuel (Suc n) w s inp =
     (if process_exited s then Some s
      else
        (case main_event w s inp of
           (e, inp') \<Rightarrow>
             (case sys_step s e of
                Some s' \<Rightarrow> main_fuel n w s' inp'
              | None \<Rightarrow> main_fuel n w s inp')))"

text \<open>
  A world in which a thread \<open>pthread_create\<close> starts for a dialled link
  never has the id of a live thread.
\<close>

definition fresh_world :: "world \<Rightarrow> bool" where
  "fresh_world w \<longleftrightarrow>
     (\<forall>s a p. dial_ok (w_dial w s a p) \<longrightarrow> rcv s (d_tid (w_dial w s a p)) = R_absent)"

definition world0 :: world where
  "world0 = \<lparr>w_dial = (\<lambda>_ _ _. Dial (-1) True True True 0), w_send = (\<lambda>_ _ _. True)\<rparr>"

section \<open>Lemmas\<close>

lemma main_fuel_sound: "main_fuel n w s inp = Some s' \<Longrightarrow> main_loop w s inp = Some s'"
proof (induction n arbitrary: s inp)
  case 0
  then show ?case by simp
next
  case (Suc n)
  show ?case
  proof (cases "process_exited s")
    case True
    with Suc.prems show ?thesis by (simp add: main_loop.simps)
  next
    case False
    obtain e inp' where ev: "main_event w s inp = (e, inp')" by fastforce
    show ?thesis
    proof (cases "sys_step s e")
      case None
      with Suc.prems False ev have "main_fuel n w s inp' = Some s'" by simp
      with Suc.IH None False ev show ?thesis by (subst main_loop.simps) simp
    next
      case (Some s1)
      with Suc.prems False ev have "main_fuel n w s1 inp' = Some s'" by simp
      with Suc.IH Some False ev show ?thesis by (subst main_loop.simps) simp
    qed
  qed
qed


lemma main_loop_step:
  "\<not> process_exited s \<Longrightarrow> main_event w s inp = (e, inp') \<Longrightarrow> sys_step s e = Some s' \<Longrightarrow>
   main_loop w s inp = main_loop w s' inp'"
  by (subst main_loop.simps) simp

lemma fgets_take_line:
  "length l < n \<Longrightarrow> newline \<notin> set l \<Longrightarrow> fgets_take n (l @ newline # inp) = (l @ [newline], inp)"
proof (induction l arbitrary: n)
  case Nil
  then show ?case by (cases n) auto
next
  case (Cons c l)
  then show ?case by (cases n) auto
qed

lemma fgets_line:
  "length l < 255 \<Longrightarrow> newline \<notin> set l \<Longrightarrow>
   fgets MAX_COMMAND_LENGTH (l @ newline # inp) = Some (l @ [newline], inp)"
  by (simp add: fgets_def MAX_COMMAND_LENGTH_def fgets_take_line)

lemma fgets_take_long:
  "n \<le> length l \<Longrightarrow> newline \<notin> set (take n l) \<Longrightarrow> fgets_take n (l @ r) = (take n l, drop n l @ r)"
proof (induction l arbitrary: n)
  case Nil
  then show ?case by simp
next
  case (Cons c l)
  then show ?case by (cases n) auto
qed

lemma fgets_long:
  "255 \<le> length l \<Longrightarrow> newline \<notin> set l \<Longrightarrow>
   fgets MAX_COMMAND_LENGTH (l @ newline # inp) = Some (take 255 l, drop 255 l @ newline # inp)"
  using fgets_take_long [of 255 l "newline # inp"] in_set_takeD [of newline 255 l]
  by (auto simp: fgets_def MAX_COMMAND_LENGTH_def)

lemma main_loop_idle:
  "main s = M_idle \<Longrightarrow> running s \<Longrightarrow> main_loop w s inp = main_loop w (s\<lparr>main := M_read\<rparr>) inp"
  by (rule main_loop_step [of s w inp Ev_main_loop])
     (simp_all add: process_exited_def main_event_def sys_step_def)

lemma main_loop_read:
  "main s = M_read \<Longrightarrow> fgets MAX_COMMAND_LENGTH inp = Some (l, rest) \<Longrightarrow>
   length l < MAX_COMMAND_LENGTH \<Longrightarrow> main_loop w s inp = main_loop w (main_line s l) rest"
  by (rule main_loop_step [of s w inp "Ev_line (Some l)"])
     (simp_all add: process_exited_def main_event_def sys_step_def)

lemma main_line_next:
  "main (main_line s l) = M_idle \<and> running (main_line s l) = running s \<or>
   (\<exists>k. main (main_line s l) = M_terminate k \<and> running (main_line s l) = running s) \<or>
   (\<exists>slot k msg. main (main_line s l) = M_send slot k msg \<and> running (main_line s l) = running s) \<or>
   (\<exists>a p. main (main_line s l) = M_connect a p \<and> running (main_line s l) = running s) \<or>
   main (main_line s l) = M_exit_close"
proof (cases "process_command (strip_newline l)")
  case (P_command c)
  then show ?thesis
    by (cases c) (auto simp: main_line_def Let_def command_defs sys_emit_def split: option.split)
qed (auto simp: main_line_def Let_def sys_emit_def)

lemma main_loop_second:
  assumes fw: "fresh_world w"
    and m: "main s = M_terminate k \<or> main s = M_send slot k msg \<or> main s = M_connect a p"
  shows "\<exists>s'. main s' = M_idle \<and> running s' = running s \<and> main_loop w s inp = main_loop w s' inp"
proof -
  have np: "\<not> process_exited s" using m by (auto simp: process_exited_def)
  from m consider (t) "main s = M_terminate k" | (sd) "main s = M_send slot k msg"
    | (c) "main s = M_connect a p" by blast
  then show ?thesis
  proof cases
    case t
    then show ?thesis
      using main_loop_step [OF np, of w inp Ev_term_close inp "terminate_close s k"]
      by (intro exI [of _ "terminate_close s k"])
         (simp add: main_event_def sys_step_def np terminate_close_def)
  next
    case sd
    let ?ok = "w_send w s (socket (connections (reg s) ! slot)) msg"
    show ?thesis
      using sd main_loop_step [OF np, of w inp "Ev_send_done ?ok" inp "send_done s slot k msg ?ok"]
      by (intro exI [of _ "send_done s slot k msg ?ok"])
         (simp add: main_event_def sys_step_def np send_done_def sys_emit_def Let_def)
  next
    case c
    let ?d = "w_dial w s a p"
    have st: "sys_step s (Ev_dial ?d) = Some (connect_done s a p ?d)"
      using c np fw by (auto simp: sys_step_def fresh_world_def)
    have "main (connect_done s a p ?d) = M_idle \<and> running (connect_done s a p ?d) = running s"
      by (auto simp: connect_done_eq dial_added_def add_spawn_def sys_emit_def split: prod.split)
    with c main_loop_step [OF np _ st, of w inp inp] show ?thesis
      by (intro exI [of _ "connect_done s a p ?d"]) (simp add: main_event_def)
  qed
qed

lemma main_loop_exit_seq:
  assumes "main s = M_exit_close"
  shows "\<exists>s'. main s' = M_exited \<and> main_loop w s inp = Some s'"
proof -
  let ?s1 = "exit_close_all s"
  let ?s2 = "exit_close_listen ?s1"
  have np: "\<not> process_exited s" using assms by (simp add: process_exited_def)
  have m1: "main ?s1 = M_exit_listen" by (simp add: exit_close_all_def)
  have np1: "\<not> process_exited ?s1" using m1 by (simp add: process_exited_def)
  have m2: "main ?s2 = M_exited" by (simp add: exit_close_listen_def sys_emit_def)
  have "main_loop w s inp = main_loop w ?s1 inp"
    by (rule main_loop_step [OF np]) (simp add: assms main_event_def sys_step_def np)+
  also have "\<dots> = main_loop w ?s2 inp"
    by (rule main_loop_step [OF np1]) (simp add: m1 main_event_def sys_step_def np1)+
  also have "\<dots> = Some ?s2" using m2 by (subst main_loop.simps) (simp add: process_exited_def)
  finally show ?thesis using m2 by blast
qed

lemma main_loop_line:
  assumes idle: "main s = M_idle" and run: "running s" and fw: "fresh_world w"
    and l: "length l < 255" "newline \<notin> set l"
  shows "(\<exists>s'. main s' = M_idle \<and> running s' \<and> main_loop w s (l @ newline # inp) = main_loop w s' inp) \<or>
         (\<exists>s'. main s' = M_exited \<and> main_loop w s (l @ newline # inp) = Some s')"
proof -
  let ?s1 = "s\<lparr>main := M_read\<rparr>"
  let ?s2 = "main_line ?s1 (l @ [newline])"
  have np: "\<not> process_exited s" using idle by (simp add: process_exited_def)
  have np1: "\<not> process_exited ?s1" by (simp add: process_exited_def)
  have f: "fgets MAX_COMMAND_LENGTH (l @ newline # inp) = Some (l @ [newline], inp)"
    using l by (rule fgets_line)
  have len: "length (l @ [newline]) < MAX_COMMAND_LENGTH" using l by (simp add: MAX_COMMAND_LENGTH_def)
  have "main_loop w s (l @ newline # inp) = main_loop w ?s1 (l @ newline # inp)"
    using idle run by (rule main_loop_idle)
  also have "\<dots> = main_loop w ?s2 inp"
    by (rule main_loop_read [OF _ f len]) simp
  finally have eq: "main_loop w s (l @ newline # inp) = main_loop w ?s2 inp" .
  have r1: "running ?s1" using run by simp
  from main_line_next [of ?s1 "l @ [newline]"] show ?thesis
  proof (elim disjE exE conjE)
    assume "main ?s2 = M_idle" "running ?s2 = running ?s1"
    with eq r1 show ?thesis by blast
  next
    fix k assume "main ?s2 = M_terminate k" "running ?s2 = running ?s1"
    with main_loop_second [OF fw, where s = ?s2 and k = k] eq r1 show ?thesis by fastforce
  next
    fix slot k msg assume "main ?s2 = M_send slot k msg" "running ?s2 = running ?s1"
    with main_loop_second [OF fw, where s = ?s2 and slot = slot and k = k and msg = msg] eq r1 show ?thesis by fastforce
  next
    fix a p assume "main ?s2 = M_connect a p" "running ?s2 = running ?s1"
    with main_loop_second [OF fw, where s = ?s2 and a = a and p = p] eq r1 show ?thesis by fastforce
  next
    assume "main ?s2 = M_exit_close"
    with main_loop_exit_seq [of ?s2 w inp] eq show ?thesis by auto
  qed
qed

lemma main_line_exit: "main (main_line s (''exit'' @ [newline])) = M_exit_close"
proof -
  have p: "process_command (strip_newline (''exit'' @ [newline])) = P_command Cmd_exit" by code_simp
  show ?thesis by (simp only: main_line_def Let_def p) (simp add: cmd_exit_def sys_emit_def)
qed

lemma main_loop_exit_lines:
  assumes "main s = M_idle" and "running s" and "fresh_world w"
    and "\<forall>l \<in> set ls. length l < 255 \<and> newline \<notin> set l"
  shows "\<exists>s'. main_loop w s (concat (map (\<lambda>l. l @ [newline]) ls) @ ''exit'' @ newline # rest) = Some s' \<and>
              main s' = M_exited"
  using assms
proof (induction ls arbitrary: s)
  case Nil
  let ?s1 = "s\<lparr>main := M_read\<rparr>"
  let ?s2 = "main_line ?s1 (''exit'' @ [newline])"
  have np: "\<not> process_exited s" using Nil.prems(1) by (simp add: process_exited_def)
  have np1: "\<not> process_exited ?s1" by (simp add: process_exited_def)
  have m2: "main ?s2 = M_exit_close"
    by (rule main_line_exit)
  have f: "fgets MAX_COMMAND_LENGTH (''exit'' @ newline # rest) = Some (''exit'' @ [newline], rest)"
    by (rule fgets_line) simp_all
  have len: "length (''exit'' @ [newline]) < MAX_COMMAND_LENGTH" by (simp add: MAX_COMMAND_LENGTH_def)
  have "main_loop w s (''exit'' @ newline # rest) = main_loop w ?s1 (''exit'' @ newline # rest)"
    using Nil.prems(1,2) by (rule main_loop_idle)
  also have "\<dots> = main_loop w ?s2 rest"
    by (rule main_loop_read [OF _ f len]) simp
  finally show ?case using main_loop_exit_seq [OF m2, of w rest] by auto
next
  case (Cons l ls)
  have l: "length l < 255" "newline \<notin> set l" using Cons.prems(4) by auto
  let ?rest = "concat (map (\<lambda>l. l @ [newline]) ls) @ ''exit'' @ newline # rest"
  from main_loop_line [OF Cons.prems(1-3) l, of ?rest] show ?case
  proof (elim disjE exE conjE)
    fix s' assume "main s' = M_idle" "running s'" "main_loop w s (l @ newline # ?rest) = main_loop w s' ?rest"
    with Cons.IH [of s'] Cons.prems(3,4) show ?thesis by simp
  next
    fix s' assume "main s' = M_exited" "main_loop w s (l @ newline # ?rest) = Some s'"
    then show ?thesis by auto
  qed
qed

section \<open>Properties\<close>

text \<open>
  C29. At the end of the input \<open>fgets\<close> returns \<open>NULL\<close> at once, and the loop
  tests \<open>running\<close> again: a running main thread never returns once
  standard input is exhausted, and spins without blocking.
\<close>

theorem main_loop_eof_spins:
  assumes "running s" and "main s = M_idle"
  shows "main_loop w s [] = None"
proof (rule ccontr)
  assume "main_loop w s [] \<noteq> None"
  then obtain y where y: "main_loop w s [] = Some y" by blast
  have "inp = [] \<longrightarrow> running s \<longrightarrow> main s = M_idle \<or> main s = M_read \<longrightarrow> False"
    if "main_loop w s inp = Some y" for w s inp y
  proof (rule main_loop.raw_induct
      [where P = "\<lambda>w s inp y. inp = [] \<longrightarrow> running s \<longrightarrow> main s = M_idle \<or> main s = M_read \<longrightarrow> False",
       OF _ that])
    fix f :: "world \<Rightarrow> sys \<Rightarrow> string \<Rightarrow> sys option" and w s inp y
    assume IH: "\<And>w' s' inp' y'. f w' s' inp' = Some y' \<Longrightarrow>
                  inp' = [] \<longrightarrow> running s' \<longrightarrow> main s' = M_idle \<or> main s' = M_read \<longrightarrow> False"
      and unf: "(if process_exited s then Some s
                 else case main_event w s inp of
                   (e, inp') \<Rightarrow> (case sys_step s e of None \<Rightarrow> f w s inp' | Some s' \<Rightarrow> f w s' inp')) = Some y"
    show "inp = [] \<longrightarrow> running s \<longrightarrow> main s = M_idle \<or> main s = M_read \<longrightarrow> False"
    proof (intro impI)
      assume e: "inp = []" and r: "running s" and m: "main s = M_idle \<or> main s = M_read"
      have np: "\<not> process_exited s" using m by (auto simp: process_exited_def)
      from m show False
      proof
        assume "main s = M_idle"
        then have "main_event w s inp = (Ev_main_loop, inp)"
          and "sys_step s Ev_main_loop = Some (s\<lparr>main := M_read\<rparr>)"
          using r np by (simp_all add: main_event_def sys_step_def)
        with unf np have "f w (s\<lparr>main := M_read\<rparr>) inp = Some y" by simp
        from IH [OF this] e r show False by simp
      next
        assume "main s = M_read"
        then have "main_event w s inp = (Ev_line None, inp)"
          and "sys_step s (Ev_line None) = Some (s\<lparr>main := M_idle\<rparr>)"
          using e np by (simp_all add: main_event_def sys_step_def fgets_def)
        with unf np have "f w (s\<lparr>main := M_idle\<rparr>) inp = Some y" by simp
        from IH [OF this] e r show False by simp
      qed
    qed
  qed
  with y assms show False by simp
qed


theorem main_loop_eof_spins_witness:
  "main_loop world0 (init_sys ''10.0.0.9'' 4000 3) [] = None"
  by (rule main_loop_eof_spins) (simp_all add: init_sys_def)

text \<open>
  C30. The loop returns on the operator's \<open>exit\<close>: from the loop test, with
  any sequence of command lines of at most 254 characters before the line
  \<open>exit\<close>, the main thread finishes every command and \<open>cmd_exit\<close> ends the
  process, whatever the network answers.
\<close>

theorem main_loop_exit_returns:
  assumes "main s = M_idle" and "running s" and "fresh_world w"
    and "\<forall>l \<in> set ls. length l < 255 \<and> newline \<notin> set l"
  shows "\<exists>s'. main_loop w s (concat (map (\<lambda>l. l @ [newline]) ls) @ ''exit'' @ newline # rest) = Some s' \<and>
              main s' = M_exited"
  using assms by (rule main_loop_exit_lines)

theorem main_loop_exit_returns_witness:
  "\<exists>s'. main_loop world0 (init_sys ''10.0.0.9'' 4000 3)
          (concat (map (\<lambda>l. l @ [newline]) [''list'', ''connect 10.0.0.1 5000'', ''send 1 hi''])
           @ ''exit'' @ newline # []) = Some s' \<and> main s' = M_exited"
proof -
  have fw: "fresh_world world0" by (simp add: fresh_world_def world0_def dial_ok_def connect_to_peer_def create_socket_def)
  have "\<forall>l \<in> set [''list'', ''connect 10.0.0.1 5000'', ''send 1 hi'']. length l < 255 \<and> newline \<notin> set l"
    by simp
  from main_loop_exit_returns [of "init_sys ''10.0.0.9'' 4000 3" world0, OF _ _ fw this]
  show ?thesis by (simp add: init_sys_def)
qed

text \<open>
  C31. \<open>fgets\<close> cuts a line of 255 characters or more: the main thread
  handles its first 255 characters as one command and then reads the rest of
  the same line, with its newline, as the next command, instead of
  discarding it.
\<close>

theorem long_line_split:
  assumes "main s = M_idle" and "running s" and "255 \<le> length l" and "newline \<notin> set l"
  shows "main_loop w s (l @ newline # inp) =
         main_loop w (main_line (s\<lparr>main := M_read\<rparr>) (take 255 l)) (drop 255 l @ newline # inp)"
proof -
  have "main_loop w s (l @ newline # inp) = main_loop w (s\<lparr>main := M_read\<rparr>) (l @ newline # inp)"
    using assms(1,2) by (rule main_loop_idle)
  also have "\<dots> = main_loop w (main_line (s\<lparr>main := M_read\<rparr>) (take 255 l)) (drop 255 l @ newline # inp)"
    by (rule main_loop_read [OF _ fgets_long [OF assms(3,4)]]) (simp_all add: MAX_COMMAND_LENGTH_def)
  finally show ?thesis .
qed

theorem long_line_split_witness:
  "main_loop world0 (init_sys ''10.0.0.9'' 4000 3) (replicate 300 (CHR ''x'') @ newline # []) =
   main_loop world0 (main_line ((init_sys ''10.0.0.9'' 4000 3)\<lparr>main := M_read\<rparr>) (replicate 255 (CHR ''x'')))
     (replicate 45 (CHR ''x'') @ newline # [])"
proof -
  have "main (init_sys ''10.0.0.9'' 4000 3) = M_idle" "running (init_sys ''10.0.0.9'' 4000 3)"
    by (simp_all add: init_sys_def)
  moreover have "255 \<le> length (replicate 300 (CHR ''x''))" "newline \<notin> set (replicate 300 (CHR ''x''))"
    by simp_all
  ultimately show ?thesis
    using long_line_split [of "init_sys ''10.0.0.9'' 4000 3" "replicate 300 (CHR ''x'')" world0 "[]"]
    by simp
qed

end
