(* ===== verification/Startup.thy ===== *)
theory Startup
  imports MainLoop
begin

text \<open>
  The program around the main loop. \<open>main\<close> in \<open>src/main.c\<close> checks its
  argument, parses the port with \<open>atoi\<close>, installs the signal handlers,
  reads the local address (\<open>get_local_ip\<close>), opens the listening socket
  (\<open>setup_listening_socket\<close>) and starts the acceptor; only then does the
  loop of \<open>MainLoop\<close> run. \<open>main_start\<close> is that startup, with every early
  \<open>return 1\<close> a value \<open>Inl (1, output)\<close> and a successful start the output
  and the initial state of \<open>Threads\<close>; \<open>p2p_main\<close> composes it with the
  loop; the signal handler it installs is part of \<open>Threads\<close>. The string utilities of \<open>src/signal.c\<close> that
  \<open>Parse\<close> does not already hold close the theory.
\<close>

section \<open>Terminal output\<close>

text \<open>
  The fixed screens of \<open>src/signal.c\<close>, each one output line of the
  model (the colour codes are not modelled).
\<close>

definition print_banner :: "io_event list" where
  [simp]: "print_banner = [Print Out_banner]"

definition print_startup_info :: "string \<Rightarrow> int \<Rightarrow> io_event list" where
  [simp]: "print_startup_info lip lport = [Print (Out_startup lip lport)]"

section \<open>The local address\<close>

text \<open>
  The list \<open>getifaddrs\<close> returns: each interface's name and its address,
  \<open>NULL\<close> or of a family; \<open>getnameinfo\<close> with \<open>NI_NUMERICHOST\<close> prints an
  IPv4 address as \<open>inet_ntop\<close> does. \<open>lip\<close> is the value of the global
  \<open>local_ip\<close> before the call.
\<close>

datatype sockaddr = Sa_inet "32 word" | Sa_other

type_synonym ifaddr = "string \<times> sockaddr option"

fun scan_ifaddrs :: "ifaddr list \<Rightarrow> string \<Rightarrow> string" where
  "scan_ifaddrs [] lip = lip"
| "scan_ifaddrs ((n, None) # ifs) lip = scan_ifaddrs ifs lip"
| "scan_ifaddrs ((n, Some Sa_other) # ifs) lip = scan_ifaddrs ifs lip"
| "scan_ifaddrs ((n, Some (Sa_inet w)) # ifs) lip =
     (if n \<noteq> ''lo'' then ntop4_str w else scan_ifaddrs ifs lip)"

definition get_local_ip :: "ifaddr list option \<Rightarrow> string \<Rightarrow> string" where
  "get_local_ip ifa lip = (case ifa of None \<Rightarrow> ''127.0.0.1'' | Some ifs \<Rightarrow> scan_ifaddrs ifs lip)"

section \<open>Startup\<close>

text \<open>What the system answers during startup.\<close>

record boot =
  b_ifaddrs :: "ifaddr list option"
  b_socket :: fd
  b_sockopt :: bool
  b_bind :: bool
  b_listen :: bool
  b_acceptor :: bool

text \<open>
  \<open>main\<close> up to the loop. \<open>argv\<close> includes the program name; with no
  arguments at all \<open>argv[0]\<close> is \<open>NULL\<close>, which glibc's \<open>printf\<close> prints as
  \<open>(null)\<close>. \<open>local_ip\<close> starts as the empty string (a zeroed global).
\<close>

definition main_start :: "string list \<Rightarrow> boot \<Rightarrow> (int \<times> io_event list) + (io_event list \<times> sys)" where
  "main_start argv b =
     (if length argv \<noteq> 2
      then Inl (1, [Print (Out_usage_main (case argv of [] \<Rightarrow> ''(null)'' | p # _ \<Rightarrow> p))])
      else
        let port = sint (atoi (argv ! 1))
        in if \<not> is_valid_port port then Inl (1, [Print Out_invalid_port])
           else
             let lip = get_local_ip (b_ifaddrs b) ''''
             in case setup_listening_socket (b_socket b) (b_sockopt b) (b_bind b) (b_listen b) port of
                  (r, ls, es) \<Rightarrow>
                    if r < 0 then Inl (1, es @ [Print Out_setup_failed])
                    else if \<not> b_acceptor b then Inl (1, es @ [Print Out_acceptor_failed])
                    else Inr (es @ print_banner @ print_startup_info lip port,
                              init_sys lip port ls))"

text \<open>
  The whole program: its exit status and output, or \<open>None\<close> when the loop
  never returns. The loop returns only once the process has exited, by
  \<open>exit(0)\<close> in \<open>cmd_exit\<close> or after \<open>pthread_join\<close>; either way the status
  is 0.
\<close>

definition p2p_main :: "string list \<Rightarrow> boot \<Rightarrow> world \<Rightarrow> string \<Rightarrow> (int \<times> io_event list) option" where
  "p2p_main argv b w inp =
     (case main_start argv b of
        Inl r \<Rightarrow> Some r
      | Inr (es, s) \<Rightarrow> map_option (\<lambda>s'. (0, es @ io (reg s'))) (main_loop w s inp))"

section \<open>String utilities\<close>

text \<open>\<open>tolower\<close> and \<open>toupper\<close> in the C locale.\<close>

definition c_tolower :: "char \<Rightarrow> char" where
  "c_tolower c = (let n = of_char c :: nat in if 65 \<le> n \<and> n \<le> 90 then char_of (n + 32) else c)"

definition c_toupper :: "char \<Rightarrow> char" where
  "c_toupper c = (let n = of_char c :: nat in if 97 \<le> n \<and> n \<le> 122 then char_of (n - 32) else c)"

text \<open>A \<open>NULL\<close> argument is \<open>None\<close>; the loop rewrites the string in place.\<close>

definition str_to_lower :: "string option \<Rightarrow> string option" where
  "str_to_lower str = map_option (map c_tolower) str"

definition str_to_upper :: "string option \<Rightarrow> string option" where
  "str_to_upper str = map_option (map c_toupper) str"

fun empty_scan :: "string \<Rightarrow> bool" where
  "empty_scan [] = True"
| "empty_scan (c # cs) = (if \<not> isspace c then False else empty_scan cs)"

definition is_empty_string :: "string option \<Rightarrow> bool" where
  "is_empty_string str = (case str of None \<Rightarrow> True | Some s \<Rightarrow> empty_scan s)"

section \<open>Lemmas\<close>

lemma scan_ifaddrs_fits:
  "length lip < INET_ADDRSTRLEN \<Longrightarrow> length (scan_ifaddrs ifs lip) < INET_ADDRSTRLEN"
  by (induction ifs lip rule: scan_ifaddrs.induct) (simp_all add: ntop4_str_fits)

lemma get_local_ip_fits:
  "length lip < INET_ADDRSTRLEN \<Longrightarrow> length (get_local_ip ifa lip) < INET_ADDRSTRLEN"
  by (simp add: get_local_ip_def scan_ifaddrs_fits split: option.split) (simp add: INET_ADDRSTRLEN_def)

lemma main_start_ok:
  assumes "length argv = 2" and "is_valid_port (sint (atoi (argv ! 1)))"
    and "b_socket b \<noteq> -1" and "b_sockopt b" and "b_bind b" and "b_listen b" and "b_acceptor b"
  shows "main_start argv b =
           Inr ([Print (Out_listening (sint (atoi (argv ! 1)))), Print Out_banner,
                 Print (Out_startup (get_local_ip (b_ifaddrs b) []) (sint (atoi (argv ! 1))))],
                init_sys (get_local_ip (b_ifaddrs b) []) (sint (atoi (argv ! 1))) (b_socket b))"
  using assms by (simp add: main_start_def Let_def setup_listening_socket_def create_socket_def)

lemma main_start_Inr_cond:
  assumes "main_start argv b = Inr (es, s)"
  shows "length argv = 2 \<and> is_valid_port (sint (atoi (argv ! 1))) \<and>
         b_socket b \<noteq> -1 \<and> b_sockopt b \<and> b_bind b \<and> b_listen b \<and> b_acceptor b"
  using assms
  by (simp add: main_start_def Let_def setup_listening_socket_def create_socket_def split: if_split_asm)

lemma main_start_Inr:
  "main_start argv b = Inr (es, s) \<longleftrightarrow>
     length argv = 2 \<and> is_valid_port (sint (atoi (argv ! 1))) \<and>
     b_socket b \<noteq> -1 \<and> b_sockopt b \<and> b_bind b \<and> b_listen b \<and> b_acceptor b \<and>
     es = [Print (Out_listening (sint (atoi (argv ! 1)))), Print Out_banner,
           Print (Out_startup (get_local_ip (b_ifaddrs b) []) (sint (atoi (argv ! 1))))] \<and>
     s = init_sys (get_local_ip (b_ifaddrs b) []) (sint (atoi (argv ! 1))) (b_socket b)"
proof
  assume h: "main_start argv b = Inr (es, s)"
  from main_start_Inr_cond [OF h] have c:
    "length argv = 2" "is_valid_port (sint (atoi (argv ! 1)))" "b_socket b \<noteq> -1" "b_sockopt b"
    "b_bind b" "b_listen b" "b_acceptor b" by simp_all
  from h main_start_ok [OF c] c show "length argv = 2 \<and> is_valid_port (sint (atoi (argv ! 1))) \<and>
     b_socket b \<noteq> -1 \<and> b_sockopt b \<and> b_bind b \<and> b_listen b \<and> b_acceptor b \<and>
     es = [Print (Out_listening (sint (atoi (argv ! 1)))), Print Out_banner,
           Print (Out_startup (get_local_ip (b_ifaddrs b) []) (sint (atoi (argv ! 1))))] \<and>
     s = init_sys (get_local_ip (b_ifaddrs b) []) (sint (atoi (argv ! 1))) (b_socket b)"
    by simp
next
  assume "length argv = 2 \<and> is_valid_port (sint (atoi (argv ! 1))) \<and>
     b_socket b \<noteq> -1 \<and> b_sockopt b \<and> b_bind b \<and> b_listen b \<and> b_acceptor b \<and>
     es = [Print (Out_listening (sint (atoi (argv ! 1)))), Print Out_banner,
           Print (Out_startup (get_local_ip (b_ifaddrs b) []) (sint (atoi (argv ! 1))))] \<and>
     s = init_sys (get_local_ip (b_ifaddrs b) []) (sint (atoi (argv ! 1))) (b_socket b)"
  then show "main_start argv b = Inr (es, s)" using main_start_ok by simp
qed

lemma empty_scan_all: "empty_scan s \<longleftrightarrow> (\<forall>c \<in> set s. isspace c)"
  by (induction s) auto

lemma dropWhile_all_Nil:
  assumes all: "\<forall>x \<in> set (dropWhile P xs). P x"
  shows "dropWhile P xs = []"
proof (rule ccontr)
  assume n: "dropWhile P xs \<noteq> []"
  then have "P (hd (dropWhile P xs))" using all hd_in_set by blast
  with hd_dropWhile [OF n] show False by contradiction
qed

lemma trim_string_Nil: "trim_string s = [] \<longleftrightarrow> (\<forall>c \<in> set s. isspace c)"
proof
  assume "trim_string s = []"
  then have "\<forall>c \<in> set (rev (dropWhile isspace (rev s))). isspace c"
    by (simp add: trim_string_strip)
  then have "dropWhile isspace (rev s) = []" by (intro dropWhile_all_Nil) simp
  then show "\<forall>c \<in> set s. isspace c" by simp
next
  assume "\<forall>c \<in> set s. isspace c"
  then have d: "dropWhile isspace (rev s) = []" by (simp only: dropWhile_eq_Nil_conv set_rev)
  show "trim_string s = []" unfolding trim_string_strip d by simp
qed

lemma main_start_Inl_status:
  "main_start argv b = Inl (c, es) \<Longrightarrow> c = 1"
  by (simp add: main_start_def Let_def split: if_splits prod.splits)

text \<open>The scan, declaratively: the first IPv4 address of an interface not named \<open>lo\<close>.\<close>

lemma scan_ifaddrs_first:
  "scan_ifaddrs ifs lip =
     (case [w. (n, Some (Sa_inet w)) \<leftarrow> ifs, n \<noteq> ''lo''] of [] \<Rightarrow> lip | w # _ \<Rightarrow> ntop4_str w)"
  by (induction ifs lip rule: scan_ifaddrs.induct) simp_all

section \<open>Properties\<close>

text \<open>
  C36. \<open>main\<close> stops before the loop, always with status 1, exactly when
  the argument count is not one, the port is outside 1..65535 after
  \<open>atoi\<close>, one of \<open>socket\<close>, \<open>setsockopt\<close>, \<open>bind\<close>, \<open>listen\<close> fails, or
  the acceptor thread cannot be created; otherwise it enters the loop.
\<close>

theorem main_start_fails:
  "(case main_start argv b of
      Inl (c, es) \<Rightarrow>
        c = 1 \<and>
        \<not> (length argv = 2 \<and> is_valid_port (sint (atoi (argv ! 1))) \<and>
           b_socket b \<noteq> -1 \<and> b_sockopt b \<and> b_bind b \<and> b_listen b \<and> b_acceptor b)
    | Inr _ \<Rightarrow>
        length argv = 2 \<and> is_valid_port (sint (atoi (argv ! 1))) \<and>
        b_socket b \<noteq> -1 \<and> b_sockopt b \<and> b_bind b \<and> b_listen b \<and> b_acceptor b)"
proof (cases "main_start argv b")
  case (Inl r)
  obtain c es where r: "r = (c, es)" by fastforce
  from Inl r have "c = 1" by (simp add: main_start_Inl_status)
  moreover have "\<not> (length argv = 2 \<and> is_valid_port (sint (atoi (argv ! 1))) \<and>
           b_socket b \<noteq> -1 \<and> b_sockopt b \<and> b_bind b \<and> b_listen b \<and> b_acceptor b)"
    using Inl main_start_ok [of argv b] by auto
  ultimately show ?thesis using Inl r by simp
next
  case (Inr x)
  obtain es s where "x = (es, s)" by fastforce
  with Inr main_start_Inr_cond [of argv b es s] show ?thesis by simp
qed

text \<open>
  C37. A successful startup hands the thread model its initial state: the
  state \<open>main\<close> enters the loop with is reachable (so every invariant of
  \<open>Threads\<close> holds of the running program), listens on the port \<open>atoi\<close>
  produced, which is valid, holds a local address that fits its buffer, and
  has printed exactly the listening line, the banner and the startup
  information.
\<close>

theorem main_start_reach:
  assumes "main_start argv b = Inr (es, s)"
  shows "reach 0 s \<and> running s \<and> main s = M_idle \<and> io (reg s) = [] \<and>
         is_valid_port (listen_port s) \<and> listen_port s = sint (atoi (argv ! 1)) \<and>
         length (local_ip s) < INET_ADDRSTRLEN \<and>
         es = [Print (Out_listening (listen_port s)), Print Out_banner,
               Print (Out_startup (local_ip s) (listen_port s))]"
proof -
  from assms have s: "s = init_sys (get_local_ip (b_ifaddrs b) '''') (sint (atoi (argv ! 1))) (b_socket b)"
    and v: "is_valid_port (sint (atoi (argv ! 1)))"
    and es: "es = [Print (Out_listening (sint (atoi (argv ! 1)))), Print Out_banner,
           Print (Out_startup (get_local_ip (b_ifaddrs b) '''') (sint (atoi (argv ! 1))))]"
    by (simp_all add: main_start_Inr)
  have "length (get_local_ip (b_ifaddrs b) '''') < INET_ADDRSTRLEN"
    by (rule get_local_ip_fits) (simp add: INET_ADDRSTRLEN_def)
  moreover have "reach 0 s" using s by (simp only: reach.start)
  ultimately show ?thesis using s v es by (simp add: init_sys_def init_connections_def)
qed

theorem main_start_reach_witness:
  "\<exists>es s. main_start [''p2p'', ''4294967297'']
            \<lparr>b_ifaddrs = Some [(''lo'', Some (Sa_inet 0x7F000001))], b_socket = 3, b_sockopt = True,
             b_bind = True, b_listen = True, b_acceptor = True\<rparr> = Inr (es, s) \<and>
          listen_port s = 1 \<and> local_ip s = '''' \<and> reach 0 s \<and> is_valid_port (listen_port s)"
proof -
  let ?b = "\<lparr>b_ifaddrs = Some [(''lo'', Some (Sa_inet 0x7F000001))], b_socket = 3, b_sockopt = True,
             b_bind = True, b_listen = True, b_acceptor = True\<rparr>"
  have st: "main_start [''p2p'', ''4294967297''] ?b =
        Inr ([Print (Out_listening 1), Print Out_banner, Print (Out_startup '''' 1)], init_sys '''' 1 3)"
  proof -
    have "sint (atoi ''4294967297'') = 1" by code_simp
    then show ?thesis
      by (simp add: main_start_def Let_def setup_listening_socket_def create_socket_def
          get_local_ip_def is_valid_port_def)
  qed
  from main_start_reach [OF st] st show ?thesis by (simp add: init_sys_def)
qed

text \<open>
  C38. \<open>get_local_ip\<close> returns the address of the first interface, in the
  order \<open>getifaddrs\<close> lists them, that has an IPv4 address and is not named
  \<open>lo\<close>; when there is none it leaves \<open>local_ip\<close> as it was (empty at
  startup), and when \<open>getifaddrs\<close> fails it falls back to \<open>127.0.0.1\<close>.
\<close>

theorem get_local_ip_first:
  "get_local_ip ifa lip =
     (case ifa of
        None \<Rightarrow> ''127.0.0.1''
      | Some ifs \<Rightarrow>
          (case [w. (n, Some (Sa_inet w)) \<leftarrow> ifs, n \<noteq> ''lo''] of
             [] \<Rightarrow> lip
           | w # _ \<Rightarrow> ntop4_str w))"
  by (simp add: get_local_ip_def scan_ifaddrs_first split: option.split)

text \<open>
  C39. Signal dispositions: a signal the program survives never touches the
  connection table or the main thread's position, and clears \<open>running\<close>
  exactly when it is \<open>SIGTERM\<close>; only signals other than \<open>SIGHUP\<close>,
  \<open>SIGINT\<close>, \<open>SIGPIPE\<close> and \<open>SIGTERM\<close> take the kernel's default action;
  and \<open>SIGPIPE\<close>, which \<open>send\<close> raises on a closed peer, is ignored
  altogether.
\<close>

theorem signals_keep_links:
  "(case deliver_signal s sig of
      Inl s' \<Rightarrow>
        connections (reg s') = connections (reg s) \<and> main s' = main s \<and>
        (running s' \<longleftrightarrow> running s \<and> sig \<noteq> SIGTERM)
    | Inr d \<Rightarrow> d = sig \<and> sig \<notin> {SIGHUP, SIGINT, SIGPIPE, SIGTERM}) \<and>
   deliver_signal s SIGPIPE = Inl s"
proof
  show "deliver_signal s SIGPIPE = Inl s"
    by (simp add: deliver_signal_def setup_signal_handlers_def signal_defs)
  show "case deliver_signal s sig of
      Inl s' \<Rightarrow>
        connections (reg s') = connections (reg s) \<and> main s' = main s \<and>
        (running s' \<longleftrightarrow> running s \<and> sig \<noteq> SIGTERM)
    | Inr d \<Rightarrow> d = sig \<and> sig \<notin> {SIGHUP, SIGINT, SIGPIPE, SIGTERM}"
  proof (cases "deliver_signal s sig")
    case (Inl s')
    from deliver_signal_Inl [OF Inl] obtain es
      where "s' = (sys_emit s es)\<lparr>running := running s \<and> sig \<noteq> SIGTERM\<rparr>" by blast
    with Inl show ?thesis by (simp add: sys_emit_def)
  next
    case (Inr d)
    then show ?thesis
      by (simp add: deliver_signal_def setup_signal_handlers_def split: disposition.splits if_splits)
  qed
qed

text \<open>
  C40. \<open>is_empty_string\<close> holds of a string exactly when \<open>trim_string\<close>
  reduces it to the empty string.
\<close>

theorem is_empty_string_trim:
  "is_empty_string (Some s) \<longleftrightarrow> trim_string s = []"
  by (simp add: is_empty_string_def empty_scan_all trim_string_Nil)

end
