(* ===== verification/Terminal.thy ===== *)
theory Terminal
  imports Parse
begin

text \<open>
  The terminal utilities of \<open>src/signal.c\<close> that print fixed text, read
  the clock or probe the keyboard: the colour codes, \<open>print_error\<close>,
  \<open>print_success\<close>, \<open>print_warning\<close>, \<open>print_info\<close>, \<open>clear_screen\<close>,
  \<open>set_terminal_title\<close>, \<open>get_current_time_str\<close>, \<open>print_timestamp\<close> and
  \<open>kbhit\<close>. Output here is the bytes written to \<open>stdout\<close>, colour codes
  included (\<open>tty_out\<close>), not the abstract lines of the event log: none of
  these functions is called by the program's other parts. The terminal's
  state for \<open>kbhit\<close> is the record \<open>tty\<close>: the two local flags it clears,
  the file status flag it sets, and the bytes waiting on \<open>stdin\<close>.
\<close>

section \<open>Colour codes\<close>

abbreviation ESC :: char where "ESC \<equiv> CHR 0x1B"

definition COLOR_RED :: string where "COLOR_RED = ESC # ''[31m''"
definition COLOR_GREEN :: string where "COLOR_GREEN = ESC # ''[32m''"
definition COLOR_YELLOW :: string where "COLOR_YELLOW = ESC # ''[33m''"
definition COLOR_BLUE :: string where "COLOR_BLUE = ESC # ''[34m''"
definition COLOR_MAGENTA :: string where "COLOR_MAGENTA = ESC # ''[35m''"
definition COLOR_CYAN :: string where "COLOR_CYAN = ESC # ''[36m''"
definition COLOR_WHITE :: string where "COLOR_WHITE = ESC # ''[37m''"
definition COLOR_RESET :: string where "COLOR_RESET = ESC # ''[0m''"
definition COLOR_BOLD :: string where "COLOR_BOLD = ESC # ''[1m''"

section \<open>Messages\<close>

datatype tty_out = Tty_write string | Tty_flush | Tty_system string

definition print_error :: "string \<Rightarrow> tty_out list" where
  "print_error message = [Tty_write (COLOR_RED @ ''[ERROR] '' @ message @ COLOR_RESET @ [newline])]"

definition print_success :: "string \<Rightarrow> tty_out list" where
  "print_success message =
     [Tty_write (COLOR_GREEN @ ''[SUCCESS] '' @ message @ COLOR_RESET @ [newline])]"

definition print_warning :: "string \<Rightarrow> tty_out list" where
  "print_warning message =
     [Tty_write (COLOR_YELLOW @ ''[WARNING] '' @ message @ COLOR_RESET @ [newline])]"

definition print_info :: "string \<Rightarrow> tty_out list" where
  "print_info message = [Tty_write (COLOR_BLUE @ ''[INFO] '' @ message @ COLOR_RESET @ [newline])]"

text \<open>\<open>clear_screen\<close> on POSIX runs the shell command \<open>clear\<close>.\<close>

definition clear_screen :: "tty_out list" where
  "clear_screen = [Tty_system ''clear'']"

text \<open>The xterm sequence \<open>OSC 0 ; title BEL\<close>, then \<open>fflush\<close>.\<close>

definition set_terminal_title :: "string \<Rightarrow> tty_out list" where
  "set_terminal_title title = [Tty_write (ESC # '']0;'' @ title @ [CHR 0x07]), Tty_flush]"

section \<open>Time\<close>

text \<open>
  The fields of \<open>struct tm\<close> that \<open>%H:%M:%S\<close> reads, as \<open>localtime\<close>
  filled them in.
\<close>

record tm =
  tm_hour :: nat
  tm_min :: nat
  tm_sec :: nat

text \<open>
  \<open>strftime\<close> with the format \<open>%H:%M:%S\<close>, from its C contract: each field
  in decimal with at least two digits; when the result and its NUL do not
  fit in \<open>buf_size\<close> bytes it returns 0 and the buffer's contents are
  indeterminate (\<open>None\<close>).
\<close>

definition pad2 :: "nat \<Rightarrow> string" where
  "pad2 n = (if n < 10 then CHR ''0'' # dec n else dec n)"

definition strftime_hms :: "nat \<Rightarrow> tm \<Rightarrow> string option" where
  "strftime_hms buf_size t =
     (let s = pad2 (tm_hour t) @ '':'' @ pad2 (tm_min t) @ '':'' @ pad2 (tm_sec t)
      in if length s < buf_size then Some s else None)"

definition get_current_time_str :: "tm \<Rightarrow> nat \<Rightarrow> string option" where
  "get_current_time_str now buf_size = strftime_hms buf_size now"

text \<open>\<open>print_timestamp\<close> formats into \<open>char time_str[32]\<close>.\<close>

definition print_timestamp :: "tm \<Rightarrow> tty_out list option" where
  "print_timestamp now =
     (case get_current_time_str now 32 of
        Some ts \<Rightarrow> Some [Tty_write (''['' @ ts @ ''] '')]
      | None \<Rightarrow> None)"

section \<open>\<open>kbhit\<close>\<close>

record tty =
  t_icanon :: bool
  t_echo :: bool
  t_nonblock :: bool
  t_input :: string

text \<open>
  \<open>getchar\<close> on a descriptor in non-blocking mode: the next byte, as an
  \<open>unsigned char\<close> converted to \<open>int\<close>, or \<open>EOF\<close> (\<open>-1\<close>) when nothing
  is waiting; \<open>ungetc\<close> pushes a byte back.
\<close>

definition getchar :: "tty \<Rightarrow> int \<times> tty" where
  "getchar t = (case t_input t of [] \<Rightarrow> (-1, t) | c # cs \<Rightarrow> (int (of_char c), t\<lparr>t_input := cs\<rparr>))"

definition ungetc :: "int \<Rightarrow> tty \<Rightarrow> tty" where
  "ungetc ch t = t\<lparr>t_input := char_of (nat ch) # t_input t\<rparr>"

text \<open>
  \<open>kbhit\<close>: save the terminal attributes and the file status flags, clear
  \<open>ICANON\<close> and \<open>ECHO\<close>, set \<open>O_NONBLOCK\<close>, try one \<open>getchar\<close>, restore
  both, and push a byte read back.
\<close>

definition kbhit :: "tty \<Rightarrow> int \<times> tty" where
  "kbhit t =
     (let oldt_icanon = t_icanon t; oldt_echo = t_echo t; oldf = t_nonblock t;
          t1 = t\<lparr>t_icanon := False, t_echo := False\<rparr>;
          t2 = t1\<lparr>t_nonblock := True\<rparr>
      in case getchar t2 of
           (ch, t3) \<Rightarrow>
             let t4 = t3\<lparr>t_icanon := oldt_icanon, t_echo := oldt_echo\<rparr>;
                 t5 = t4\<lparr>t_nonblock := oldf\<rparr>
             in if ch \<noteq> -1 then (1, ungetc ch t5) else (0, t5))"

section \<open>Lemmas\<close>

lemma length_pad2: "n < 100 \<Longrightarrow> length (pad2 n) = 2"
  by (cases "n < 10") (simp_all add: pad2_def dec_small dec_two)

lemma tm_valid_hms:
  assumes "tm_hour t < 24" and "tm_min t < 60" and "tm_sec t \<le> 60"
  shows "length (pad2 (tm_hour t) @ '':'' @ pad2 (tm_min t) @ '':'' @ pad2 (tm_sec t)) = 8"
  using assms by (simp add: length_pad2)

text \<open>
  For a time of day as \<open>localtime\<close> returns it (seconds up to 60 for a
  leap second), the string is the eight characters \<open>HH:MM:SS\<close> and fits
  any buffer of more than eight bytes.
\<close>

lemma get_current_time_str_fits:
  assumes "tm_hour t < 24" and "tm_min t < 60" and "tm_sec t \<le> 60" and "8 < buf_size"
  shows "\<exists>s. get_current_time_str t buf_size = Some s \<and> length s = 8"
  using tm_valid_hms [OF assms(1-3)] assms(4)
  by (simp add: get_current_time_str_def strftime_hms_def Let_def)

lemma print_timestamp_length:
  assumes "tm_hour t < 24" and "tm_min t < 60" and "tm_sec t \<le> 60"
  shows "\<exists>s. print_timestamp t = Some [Tty_write s] \<and> length s = 11"
proof -
  obtain ts where "get_current_time_str t 32 = Some ts" and "length ts = 8"
    using get_current_time_str_fits [OF assms, of 32] by auto
  then show ?thesis by (simp add: print_timestamp_def)
qed

section \<open>Properties\<close>

text \<open>
  C28. \<open>kbhit\<close> is equivalent to a side-effect-free test: it returns 1
  exactly when a byte is waiting on \<open>stdin\<close> and 0 otherwise, and leaves
  the terminal as it found it: the attributes and flags it changed are
  restored and the byte it read is pushed back with \<open>ungetc\<close>.
\<close>

theorem kbhit_spec: "kbhit t = (if t_input t = [] then 0 else 1, t)"
proof (cases "t_input t")
  case Nil
  then show ?thesis by (simp add: kbhit_def getchar_def)
next
  case (Cons c cs)
  have "int (of_char c :: nat) \<noteq> -1" by simp
  with Cons show ?thesis by (simp add: kbhit_def getchar_def ungetc_def)
qed

end
