(* ===== verification/Spec2Isabelle.thy ===== *)
theory Spec2Isabelle
  imports MainLoop Startup Terminal
begin

text \<open>
  \<^bold>\<open>A verification development of the P2P chat endpoint\<close> (\<open>src/\<close>, C, POSIX
  threads).

  \<^bold>\<open>The program.\<close> One process listens for TCP connections and opens its own,
  keeps every live connection in a global table, and lets the operator list,
  message and terminate them by id. Its parts:
  \<^item> the connection registry, \<open>src/connection.c\<close>: the array
    \<open>connections[MAX_CONNECTIONS]\<close> of \<open>Connection\<close> structs guarded by one
    mutex, the counter \<open>next_connection_id\<close> of \<open>src/main.c\<close>, and the
    functions \<open>add_connection\<close>, \<open>remove_connection\<close>, \<open>close_connection\<close>,
    \<open>close_all_connections\<close>, \<open>find_connection_by_address\<close>,
    \<open>find_connection_by_id\<close>, \<open>get_connection_by_id\<close>,
    \<open>get_active_connection_count\<close> and \<open>print_connection_list\<close>;
  \<^item> the acceptor thread \<open>accept_connections_thread\<close> and one receiver
    thread \<open>handle_peer_messages_thread\<close> per slot, also in
    \<open>src/connection.c\<close>; they call the registry;
  \<^item> the command layer \<open>src/command.c\<close> (\<open>cmd_connect\<close>, \<open>cmd_terminate\<close>,
    \<open>cmd_send\<close>, \<open>cmd_exit\<close>, \<open>process_command\<close>) run by the main loop of
    \<open>src/main.c\<close>; it calls the registry and the socket layer;
  \<^item> the socket layer \<open>src/socket.c\<close>: validators \<open>is_valid_ip\<close> (through
    \<open>inet_pton\<close>) and \<open>is_valid_port\<close>, the wrappers \<open>create_socket\<close>,
    \<open>setup_listening_socket\<close>, \<open>connect_to_peer\<close> of the socket calls,
    and \<open>get_local_ip\<close>;
  \<^item> utilities and signal handling, \<open>src/signal.c\<close>;
  \<^item> \<open>main\<close> in \<open>src/main.c\<close>: startup (argument, port, signals, local
    address, listening socket, acceptor thread), then the command loop.

  \<^bold>\<open>Theories.\<close>
  \<^item> \<open>Prelude\<close>: the C types (\<open>c_int\<close> is a \<open>32 word\<close> read with \<open>sint\<close>,
    \<open>fd\<close>, \<open>tid\<close>), the constants of \<open>src/common.h\<close>, the first-match scan
    \<open>first_index\<close> that every \<open>for (i = 0; i < MAX_CONNECTIONS; i++)\<close> loop
    of the registry performs, with its characterisation as the least matching
    index, and shared lemmas on lists updated by index and on 32-bit
    increments.
  \<^item> \<open>Registry\<close>: the record \<open>connection\<close> (the C struct, field \<open>id\<close> renamed
    \<open>cid\<close>), the record \<open>registry\<close> (array, counter and an event log \<open>io\<close> of
    the \<open>shutdown\<close>/\<open>close\<close>/\<open>pthread_create\<close>/\<open>printf\<close> effects in program
    order), one definition per function of \<open>src/connection.c\<close> that runs
    under the mutex, the abstraction \<open>abs_registry\<close> to a finite map from
    id to endpoint, the invariant \<open>wf_registry\<close>, and \<open>reg_run\<close>, a
    serialised history of registry calls.
  \<^item> \<open>Validate\<close>: \<open>is_valid_port\<close> and \<open>is_valid_ip\<close> of \<open>src/socket.c\<close>;
    \<open>inet_pton\<close> is the C library's and is modelled from its contract as the
    GNU \<open>inet_pton4\<close> loop \<open>pton4_loop\<close>; \<open>inet_ntop\<close> likewise as
    \<open>ntop4_str\<close>/\<open>inet_ntop4\<close>.
  \<^item> \<open>Socket\<close>: \<open>create_socket\<close>, \<open>setup_listening_socket\<close> and
    \<open>connect_to_peer\<close> of \<open>src/socket.c\<close>, each with the results of the
    system calls it makes as arguments and its return value, the descriptor
    it leaves and its prints and closes as result.
  \<^item> \<open>Parse\<close>: the operator's line from \<open>stdin\<close> to a handler call:
    \<open>fgets\<close> into the 256-byte buffer, the newline cut of \<open>main\<close>,
    \<open>trim_string\<close> (\<open>src/signal.c\<close>, loop by loop) and the parsing half of
    \<open>process_command\<close> (\<open>src/command.c\<close>) with \<open>sscanf\<close> and \<open>atoi\<close>;
    the three C library functions are modelled from their contracts, \<open>atoi\<close>
    as glibc's \<open>(int) strtol\<close> on a 64-bit \<open>long\<close>.
  \<^item> \<open>Threads\<close>: the whole process as a transition system. The record
    \<open>sys\<close> holds the registry, the flag \<open>running\<close> of \<open>src/main.c\<close>, the
    listening socket and one program counter per thread: the acceptor
    (\<open>acc_pc\<close>), a receiver per thread id (\<open>rcv_pc\<close>, carrying the slot and
    the snapshot the thread copied under the mutex) and the main thread
    (\<open>main_pc\<close>). Each atomic section of the code is one definition:
    \<open>accept_failed\<close>/\<open>accept_new\<close> (\<open>accept_connections_thread\<close>),
    \<open>receiver_check\<close>/\<open>receiver_recv\<close> (\<open>handle_peer_messages_thread\<close>),
    \<open>cmd_list\<close>, \<open>cmd_terminate\<close>/\<open>terminate_close\<close>,
    \<open>cmd_send\<close>/\<open>send_done\<close>, \<open>cmd_connect\<close>/\<open>connect_done\<close> (which
    calls \<open>connect_to_peer\<close> of \<open>Socket\<close> on the outcome \<open>dial\<close> of the
    socket calls, then \<open>dial_added\<close>),
    \<open>cmd_exit\<close>/\<open>exit_close_all\<close>/\<open>exit_close_listen\<close> (\<open>src/command.c\<close>,
    split where the code releases the mutex or blocks), the signal handler
    of \<open>src/signal.c\<close> (\<open>signal_handler\<close>, run for the signals
    \<open>setup_signal_handlers\<close> routes to it by \<open>deliver_signal\<close>, as the
    event \<open>Ev_signal\<close> between any two steps of the threads), and the main loop of \<open>src/main.c\<close>: the
    \<open>while (running)\<close> test, a line \<open>fgets\<close> returned (\<open>main_line\<close>
    parses it and starts its handler), the \<open>pthread_join\<close> of the acceptor.
    Once \<open>cmd_exit\<close> has called \<open>exit(0)\<close> or \<open>main\<close> has returned, no
    thread moves (\<open>process_exited\<close>). \<open>sys_step\<close> runs one of them for an \<open>event\<close>
    (which thread moves, and what the outside world answered: the result of
    \<open>accept\<close>, \<open>recv\<close>, \<open>send\<close>, \<open>connect\<close>, \<open>pthread_create\<close>); the
    inductive \<open>reach n s\<close> is reachability in \<open>n\<close> steps from \<open>init_sys\<close>,
    so every interleaving of the threads is a derivation of \<open>reach\<close>.
  \<^item> \<open>MainLoop\<close>: the main thread alone over its whole input, as the
    \<open>partial_function (option)\<close> \<open>main_loop\<close> (\<open>None\<close> is a loop that never
    returns), with a \<open>world\<close> fixing the network's answers, and
    \<open>main_fuel\<close>, the same loop with a step bound, whose results
    \<open>main_loop\<close> has (\<open>main_fuel_sound\<close>); concrete inputs are evaluated
    through it.
  \<^item> \<open>Startup\<close>: \<open>main_start\<close>, \<open>main\<close> up to its loop, with each early
    \<open>return 1\<close> an \<open>Inl\<close> value and a successful start the initial state of
    \<open>Threads\<close>; \<open>p2p_main\<close>, the whole program (startup, then
    \<open>main_loop\<close>); \<open>get_local_ip\<close> (\<open>scan_ifaddrs\<close> over the
    \<open>getifaddrs\<close> list); \<open>str_to_lower\<close>, \<open>str_to_upper\<close> and
    \<open>is_empty_string\<close> of \<open>src/signal.c\<close>.
  \<^item> \<open>Terminal\<close>: the remaining utilities of \<open>src/signal.c\<close>, which no
    other part calls: the colour codes, \<open>print_error\<close> and its siblings,
    \<open>clear_screen\<close>, \<open>set_terminal_title\<close> as bytes written
    (\<open>tty_out\<close>); \<open>get_current_time_str\<close> and \<open>print_timestamp\<close> over
    \<open>strftime\<close>'s contract (\<open>HH:MM:SS\<close> fits its buffers for every time
    of day); \<open>kbhit\<close> over the terminal flags and the \<open>stdin\<close> buffer.

  \<^bold>\<open>Why the registry functions are atomic steps.\<close> Each registry function
  holds \<open>connections_mutex\<close> from its first to its last access of the array,
  so every concurrent execution performs the calls one after another; a
  history \<open>reg_op list\<close> covers every interleaving of the threads' calls, and
  in \<open>Threads\<close> each call is inside one step. What the mutex does not cover
  (the pointer \<open>get_connection_by_id\<close> returns, the check in
  \<open>cmd_connect\<close> before \<open>add_connection\<close>, the slot index a receiver thread
  keeps) is where \<open>Threads\<close> splits a handler into two steps.

  \<^bold>\<open>What is proved.\<close> In \<open>Registry\<close>: ids are never reused along any
  history (C1) and the invariant holds after any history (C2), both as long as
  the counter stays below \<open>INT_MAX\<close>; a successful \<open>add_connection\<close>
  refines the abstract insert (C3); a full table refuses without side effects
  (C4); a failed \<open>pthread_create\<close> leaves the abstract registry unchanged but
  consumes an id (C5); \<open>remove_connection\<close> and \<open>close_connection\<close> refine
  the abstract delete and close the socket once (C6, C7), are idempotent
  (C8), and a link closed by the operator and then removed by its receiver is
  closed once (C9); \<open>close_all_connections\<close> empties the registry (C10);
  \<open>get_active_connection_count\<close> is the size of the abstract registry
  (C11) and the rows \<open>print_connection_list\<close> prints enumerate it, each
  id once (C12); at \<open>INT_MAX\<close> the counter wraps (C13) and the id \<open>-1\<close>
  can be handed out for an active link, indistinguishable from failure (C14).
  In \<open>Threads\<close>, over every interleaving: each active link's receiver is
  alive on its slot (C15), active ids stay distinct (C16); and four reachable
  races, each a concrete schedule evaluated by the step function: two
  receivers reading one socket after a slot is reused (C17), \<open>send\<close>
  writing to the link that reused the slot (C18), two links to one endpoint
  (C19), a link inserted after \<open>close_all_connections\<close> during \<open>exit\<close> (C20).
  In \<open>Validate\<close>: an accepted address has at most 15 characters, so the
  \<open>strcpy\<close> into \<open>ip[INET_ADDRSTRLEN]\<close> is safe (C21).
  In \<open>Parse\<close>: \<open>trim_string\<close> is the two-sided strip (C22); \<open>send <id>
  <message>\<close> reaches \<open>cmd_send\<close> with that id and message (C23); ids and
  ports are truncated to 32 bits rather than rejected (C24);
  \<open>connect <ip> <port>\<close> reaches \<open>cmd_connect\<close> with that address word
  and port (C25); the command buffers cannot overflow (C26).
  In \<open>Threads\<close> again: \<open>SIGTERM\<close> ends the process without closing the
  links or the listening socket (C27). In \<open>Terminal\<close>: \<open>kbhit\<close> is
  the pure test whether input waits, restoring the terminal and the input
  (C28).
  In \<open>MainLoop\<close>: at the end of input the loop spins for ever (C29); a
  line \<open>exit\<close> after any well-formed lines makes it return (C30); a line
  of 255 characters or more is split by \<open>fgets\<close>: its first 255
  characters are one command and its tail is read as the next (C31).
  In \<open>Validate\<close>: \<open>inet_ntop\<close> output fits its buffer and \<open>inet_pton\<close>
  parses it back (C32). In \<open>Threads\<close>, over every interleaving: every
  stored IP string fits \<open>ip[INET_ADDRSTRLEN]\<close> (C33) and every stored port
  is a 16-bit value (C34), by the invariant \<open>addrs_fit\<close>.
  In \<open>Socket\<close>: the wrappers return the created descriptor or close it
  (C35). In \<open>Startup\<close>: \<open>main\<close> returns, with status 1, before the loop
  exactly on the five failure conditions (C36); a successful startup is the
  initial state of the thread model, so every \<open>Threads\<close> invariant holds
  of the running program, and the \<open>atoi\<close> port may wrap (C37);
  \<open>get_local_ip\<close> picks the first IPv4 address of an interface not named
  \<open>lo\<close> (C38); surviving signals leave the table alone, only \<open>SIGTERM\<close>
  stops the loop, \<open>SIGPIPE\<close> is ignored and only unhandled signals take
  the default action (C39); \<open>is_empty_string\<close> agrees with
  \<open>trim_string\<close> (C40).

  \<^bold>\<open>Bounds.\<close> The table has \<open>MAX_CONNECTIONS = 50\<close> slots; the loops of the
  code run over the 50 slots and the model's scan over the list, which has
  length 50 by the invariant. The counter is a 32-bit \<open>int\<close>; the theorems
  that need it to grow without wrapping assume that the history is shorter
  than the distance from the counter to \<open>INT_MAX\<close> (in \<open>Threads\<close>: fewer than
  \<open>2^31 - 2\<close> steps, since a step adds at most one link). The race schedules
  have 4 to 13 steps.

  The theorems of \<open>MainLoop\<close> are about \<open>main_loop\<close> itself, for every
  input; \<open>main_fuel\<close> is only a way to evaluate it. Lines of at most 254
  characters are exactly those \<open>fgets\<close> returns whole (C30); longer ones
  are the subject of C31.

  \<^bold>\<open>Modelling choices.\<close> The signed overflow of \<open>next_connection_id++\<close>
  at \<open>INT_MAX\<close> is undefined behaviour in C; the model takes the
  two's-complement wrap-around of the \<open>32 word\<close> (C13, C14).
  \<open>add_connection\<close> returns the id it assigned under the mutex; the code
  reads \<open>connections[slot].id\<close> again after the unlock
  (\<open>src/connection.c\<close> line 55), a window the atomic model does not
  represent. The command line is a C string: \<open>strip_newline\<close> cuts it at
  the first newline or NUL. \<open>p2p_main\<close> returns status 0 because both
  ways the loop ends in the code are the literal \<open>exit(0)\<close> of
  \<open>cmd_exit\<close> and the \<open>return 0\<close> of \<open>main\<close>.

  \<^bold>\<open>Plan.\<close> Done: (1) the registry and its refinement of the abstract
  map; (2) the threads and their races; the validators' length bound;
  (3) the command line and the main loop; (4) \<open>inet_ntop\<close> and the
  address invariant; (5) the socket wrappers, startup, signals and the
  whole program; the receiver's \<open>recv\<close> bound (\<open>receive_message\<close>
  returns 1 to \<open>BUFFER_SIZE - 1\<close> bytes, a guard of \<open>Ev_rcv_result\<close>);
  (6) every signal as an event of \<open>Threads\<close>, so all invariants hold
  under any interleaving of signals, and the terminal utilities. Every
  function of \<open>src/\<close> compiled on POSIX now has a definition.

  \<^bold>\<open>Not modelled.\<close> The Windows branches (\<open>#ifdef _WIN32\<close>:
  \<open>WSAStartup\<close>, \<open>WSACleanup\<close>, \<open>gethostbyname\<close>, \<open>_kbhit\<close>,
  \<open>SetConsoleTitle\<close>) are not compiled on POSIX; \<open>initialize_sockets\<close>
  and \<open>cleanup_sockets\<close> are empty there. \<open>accept_client\<close> and
  \<open>send_message\<close> are one system call each; their results are the
  payloads of the events \<open>Ev_accept\<close> and \<open>Ev_send_done\<close>. The headers
  hold only declarations. In the event log the banner, the startup
  information and each message are one abstract line, without colour
  codes (the bytes with colour codes are modelled in \<open>Terminal\<close> for the
  utilities that build them); the prompt \<open>"> "\<close> of the loop and its
  \<open>fflush\<close> are not logged. Signals whose default action applies
  (\<open>deliver_signal\<close> returns \<open>Inr\<close>) end or stop the process outside
  the program's control and have no step.
\<close>

end
